(* ===== verification/Prelude.thy ===== *)
theory Prelude
  imports Main "HOL-Library.Word" "HOL-Library.AList"
begin

text \<open>
  What the component theories share: the machine integers of the Rust code, big-endian
  byte conversions (\<open>to_be_bytes\<close>, \<open>from_be_bytes\<close>), saturating subtraction, results as
  sums, deletion of keys from association lists, and the collections of rewrite rules that
  the component theories fill.
\<close>

unbundle bit_operations_syntax

named_theorems map_simps \<open>equations of the kernel-map operations\<close>
named_theorems auth_simps \<open>outcome of the permission checks of the handlers\<close>
named_theorems sql_simps \<open>equations of the SQL statements\<close>

section \<open>Machine integers\<close>

type_synonym u8 = "8 word"
type_synonym u16 = "16 word"
type_synonym u32 = "32 word"
type_synonym u64 = "64 word"

text \<open>Rust's \<open>saturating_sub\<close> on unsigned integers.\<close>

definition saturating_sub :: "'a::len word \<Rightarrow> 'a word \<Rightarrow> 'a word" where
  "saturating_sub a b = (if b \<le> a then a - b else 0)"

lemma unat_saturating_sub [simp]: "unat (saturating_sub a b) = unat a - unat b"
  by (auto simp: saturating_sub_def unat_sub word_le_nat_alt)

lemma saturating_sub_self [simp]: "saturating_sub a a = 0"
  by (simp add: saturating_sub_def)

lemma unat_drop_bit: "unat (drop_bit n (w :: 'a::len word)) = unat w div 2 ^ n"
  by (simp add: unat_drop_bit_eq drop_bit_eq_div [where 'a = nat])

lemma word_of_natI: "unat w = n \<Longrightarrow> w = of_nat n"
  by auto

section \<open>Big-endian bytes\<close>

definition to_be_bytes32 :: "u32 \<Rightarrow> u8 list" where
  "to_be_bytes32 x =
     [ucast (drop_bit 24 x), ucast (drop_bit 16 x), ucast (drop_bit 8 x), ucast x]"

definition from_be_bytes32 :: "u8 list \<Rightarrow> u32" where
  "from_be_bytes32 bs = foldl (\<lambda>acc b. push_bit 8 acc OR ucast b) 0 bs"

definition from_be_bytes16 :: "u8 list \<Rightarrow> u16" where
  "from_be_bytes16 bs = foldl (\<lambda>acc b. push_bit 8 acc OR ucast b) 0 bs"

lemma length_to_be_bytes32 [simp]: "length (to_be_bytes32 x) = 4"
  by (simp add: to_be_bytes32_def)

lemma from_to_be_bytes32 [simp]: "from_be_bytes32 (to_be_bytes32 x) = x"
proof (rule bit_word_eqI)
  fix n
  assume "n < LENGTH(32)"
  consider "n < 8" | "8 \<le> n" "n < 16" | "16 \<le> n" "n < 24" | "24 \<le> n" by linarith
  then show "bit (from_be_bytes32 (to_be_bytes32 x)) n = bit x n"
    using \<open>n < LENGTH(32)\<close>
    by cases (auto simp: from_be_bytes32_def to_be_bytes32_def bit_simps)
qed

lemma length4E:
  assumes "length xs = 4"
  obtains a b c d where "xs = [a, b, c, d]"
  using assms by (auto simp: numeral_eq_Suc length_Suc_conv)

lemma to_from_be_bytes32 [simp]:
  assumes "length bs = 4"
  shows "to_be_bytes32 (from_be_bytes32 bs) = bs"
proof -
  obtain a b c d where bs: "bs = [a, b, c, d]" using assms by (rule length4E)
  show ?thesis
    unfolding bs to_be_bytes32_def from_be_bytes32_def list.inject
    by (intro conjI bit_word_eqI; auto simp: bit_simps dest: bit_imp_le_length)
qed

lemma to_be_bytes32_inject [simp]: "to_be_bytes32 x = to_be_bytes32 y \<longleftrightarrow> x = y"
  by (metis from_to_be_bytes32)

text \<open>\<open>as_chunks::<4>\<close>: the full chunks of four bytes and the remainder.\<close>

fun as_chunks4 :: "u8 list \<Rightarrow> u8 list list \<times> u8 list" where
  "as_chunks4 (a # b # c # d # rest) =
     (let (chunks, remainder) = as_chunks4 rest in ([a, b, c, d] # chunks, remainder))"
| "as_chunks4 rest = ([], rest)"

lemma as_chunks4_16:
  "length bs = 16 \<Longrightarrow> as_chunks4 bs =
     ([take 4 bs, take 4 (drop 4 bs), take 4 (drop 8 bs), take 4 (drop 12 bs)], [])"
  by (auto simp: numeral_eq_Suc length_Suc_conv)

section \<open>Results\<close>

text \<open>
  A Rust \<open>Result<T, E>\<close> is a sum with the error on the left. \<open>result_bind\<close> is the \<open>?\<close>
  operator.
\<close>

type_synonym ('e, 'a) result = "'e + 'a"

definition result_bind :: "('e, 'a) result \<Rightarrow> ('a \<Rightarrow> ('e, 'b) result) \<Rightarrow> ('e, 'b) result" where
  "result_bind r f = (case r of Inl e \<Rightarrow> Inl e | Inr a \<Rightarrow> f a)"

lemma result_bind_simps [simp]:
  "result_bind (Inl e) f = Inl e"
  "result_bind (Inr a) f = f a"
  by (simp_all add: result_bind_def)

lemma result_bind_eq_Inr [simp]:
  "result_bind r f = Inr b \<longleftrightarrow> (\<exists>a. r = Inr a \<and> f a = Inr b)"
  by (cases r) auto

lemma result_bind_eq_Inl [simp]:
  "result_bind r f = Inl e \<longleftrightarrow> r = Inl e \<or> (\<exists>a. r = Inr a \<and> f a = Inl e)"
  by (cases r) auto

definition ok_or :: "'e \<Rightarrow> 'a option \<Rightarrow> ('e, 'a) result" where
  "ok_or e x = (case x of None \<Rightarrow> Inl e | Some a \<Rightarrow> Inr a)"

lemma ok_or_simps [simp]: "ok_or e None = Inl e" "ok_or e (Some a) = Inr a"
  by (simp_all add: ok_or_def)

lemma ok_or_eq_Inr [simp]: "ok_or e x = Inr a \<longleftrightarrow> x = Some a"
  by (cases x) auto

lemma ok_or_eq_Inl [simp]: "ok_or e x = Inl e' \<longleftrightarrow> x = None \<and> e' = e"
  by (cases x) auto

text \<open>\<open>collect\<close> of an iterator of results: the first error, or all the values.\<close>

fun collect_results :: "('e, 'a) result list \<Rightarrow> ('e, 'a list) result" where
  "collect_results [] = Inr []"
| "collect_results (r # rs) =
     result_bind r (\<lambda>a. result_bind (collect_results rs) (\<lambda>as. Inr (a # as)))"

lemma collect_results_Inr_map [simp]: "collect_results (map (\<lambda>x. Inr (f x)) xs) = Inr (map f xs)"
  by (induction xs) simp_all

lemma collect_results_all_Inr:
  "(\<And>x. x \<in> set xs \<Longrightarrow> f x = Inr (g x)) \<Longrightarrow> collect_results (map f xs) = Inr (map g xs)"
  by (induction xs) simp_all

section \<open>Decimal rendering\<close>

text \<open>The text of an unsigned integer in a format string.\<close>

definition digit_char :: "nat \<Rightarrow> char" where
  "digit_char d = char_of (48 + d)"

fun show_nat :: "nat \<Rightarrow> string" where
  "show_nat n = (if n < 10 then [digit_char n] else show_nat (n div 10) @ [digit_char (n mod 10)])"

declare show_nat.simps [simp del]

lemma show_nat_not_Nil [simp]: "show_nat n \<noteq> []"
  by (subst show_nat.simps) simp

text \<open>\<open>join\<close> of a slice of strings with a separator.\<close>

fun join :: "string \<Rightarrow> string list \<Rightarrow> string" where
  "join sep [] = []"
| "join sep [x] = x"
| "join sep (x # y # ys) = x @ sep @ join sep (y # ys)"

section \<open>Deleting keys from association lists\<close>

definition del_key :: "'k \<Rightarrow> ('k \<times> 'v) list \<Rightarrow> ('k \<times> 'v) list" where
  "del_key k m = filter (\<lambda>p. fst p \<noteq> k) m"

lemma map_of_del_key [map_simps]: "map_of (del_key k m) = (map_of m)(k := None)"
  by (induction m) (auto simp: del_key_def fun_eq_iff)

lemma distinct_del_key [map_simps]:
  "distinct (map fst m) \<Longrightarrow> distinct (map fst (del_key k m))"
  by (simp add: del_key_def distinct_map_filter)

lemma set_del_key [map_simps]: "set (del_key k m) = {p \<in> set m. fst p \<noteq> k}"
  by (auto simp: del_key_def)

text \<open>Deleting every key of a list, one removal at a time.\<close>

definition del_keys :: "'k list \<Rightarrow> ('k \<times> 'v) list \<Rightarrow> ('k \<times> 'v) list" where
  "del_keys ks m = fold del_key ks m"

lemma map_of_del_keys [map_simps]:
  "map_of (del_keys ks m) k = (if k \<in> set ks then None else map_of m k)"
  by (induction ks arbitrary: m) (auto simp: del_keys_def map_simps)

lemma set_del_keys [map_simps]: "set (del_keys ks m) = {p \<in> set m. fst p \<notin> set ks}"
  by (induction ks arbitrary: m) (auto simp: del_keys_def map_simps)

lemma distinct_del_keys [map_simps]:
  "distinct (map fst m) \<Longrightarrow> distinct (map fst (del_keys ks m))"
  by (induction ks arbitrary: m) (auto simp: del_keys_def map_simps)

lemma del_keys_eq_filter: "del_keys ks m = filter (\<lambda>p. fst p \<notin> set ks) m"
  by (induction ks arbitrary: m) (auto simp: del_keys_def del_key_def intro: filter_cong)

lemma del_keys_all [map_simps]: "del_keys (map fst m) m = []"
  by (simp add: del_keys_eq_filter)

end
