(* ===== verification/Common.thy ===== *)
theory Common
  imports Prelude
begin

text \<open>
  The crate \<open>oxidrop-common\<close> (oxidrop-common/src/lib.rs): the types that the eBPF program and
  the user-space backend share, their constructors and defaults. A \<open>bitflags\<close> set is the word of
  its bits, with the declared constants; \<open>contains\<close> is the mask test, \<open>from_bits\<close> accepts exactly
  the words with no undeclared bit. \<open>EtherType\<close> belongs to the packet library: the constructors the
  code names are kept, the others are collected in one constructor.
\<close>

section \<open>Flag sets\<close>

definition flags_contains :: "'a::len word \<Rightarrow> 'a word \<Rightarrow> bool" where
  "flags_contains self other \<longleftrightarrow> self AND other = other"

lemma flags_contains_empty [simp]: "flags_contains s 0"
  by (simp add: flags_contains_def)

lemma flags_contains_self [simp]: "flags_contains s s"
  by (simp add: flags_contains_def)

lemma flags_contains_trans:
  "flags_contains a b \<Longrightarrow> flags_contains b c \<Longrightarrow> flags_contains a c"
  by (auto simp: flags_contains_def) (metis and.assoc)

section \<open>Actions and states\<close>

datatype action = Allow | Deny

text \<open>The derived order of the enum: the order of its discriminants.\<close>

fun action_code :: "action \<Rightarrow> nat" where
  "action_code Allow = 0"
| "action_code Deny = 1"

lemma action_code_inject [simp]: "action_code a = action_code b \<longleftrightarrow> a = b"
  by (cases a; cases b) simp_all

instantiation action :: linorder
begin

definition less_eq_action :: "action \<Rightarrow> action \<Rightarrow> bool" where
  "less_eq_action a b \<longleftrightarrow> action_code a \<le> action_code b"

definition less_action :: "action \<Rightarrow> action \<Rightarrow> bool" where
  "less_action a b \<longleftrightarrow> action_code a < action_code b"

instance
  by standard (auto simp: less_eq_action_def less_action_def)

end

record allow_list_state =
  als_action :: action
  last_seen :: u64

datatype trafic_direction = Incoming | Outgoing

record token_bucket_state =
  tokens :: u64
  last_update :: u64

datatype firewall_error = OutOfBounds | UnsupportedProtocol | RateLimited | DeniedByPolicy

section \<open>EtherType flags\<close>

datatype ether_type =
  EtLoop | EtIpv4 | EtArp | EtIeee8021q | EtIpv6 | EtIeee8021ad | EtOther u16

definition LOOP :: u16 where "LOOP = push_bit 0 1"
definition IPV4 :: u16 where "IPV4 = push_bit 1 1"
definition ARP :: u16 where "ARP = push_bit 2 1"
definition IEEE8021Q :: u16 where "IEEE8021Q = push_bit 3 1"
definition IPV6 :: u16 where "IPV6 = push_bit 4 1"
definition IEEE8021AD :: u16 where "IEEE8021AD = push_bit 5 1"

definition activater_all :: u16 where
  "activater_all = LOOP OR IPV4 OR ARP OR IEEE8021Q OR IPV6 OR IEEE8021AD"

lemmas activater_defs = LOOP_def IPV4_def ARP_def IEEE8021Q_def IPV6_def IEEE8021AD_def

lemma activater_all_eq: "activater_all = 63"
  by (simp add: activater_all_def activater_defs)

definition activater_from_bits :: "u16 \<Rightarrow> u16 option" where
  "activater_from_bits bits = (if bits AND NOT activater_all = 0 then Some bits else None)"

definition activater_valid :: "u16 \<Rightarrow> bool" where
  "activater_valid bits \<longleftrightarrow> bits AND NOT activater_all = 0"

lemma activater_from_bits_Some [simp]:
  "activater_from_bits b = Some c \<longleftrightarrow> c = b \<and> activater_valid b"
  by (auto simp: activater_from_bits_def activater_valid_def)

fun activater_from_ether_type :: "ether_type \<Rightarrow> u16" where
  "activater_from_ether_type EtLoop = LOOP"
| "activater_from_ether_type EtIpv4 = IPV4"
| "activater_from_ether_type EtArp = ARP"
| "activater_from_ether_type EtIeee8021q = IEEE8021Q"
| "activater_from_ether_type EtIpv6 = IPV6"
| "activater_from_ether_type EtIeee8021ad = IEEE8021AD"
| "activater_from_ether_type (EtOther _) = 0"

definition serialize_protocol_allowed :: "u16 \<Rightarrow> u16" where
  "serialize_protocol_allowed value = value"

definition deserialize_protocol_allowed :: "u16 \<Rightarrow> (string, u16) result" where
  "deserialize_protocol_allowed bits =
     ok_or (''unknown protocol mask: '' @ show_nat (unat bits)) (activater_from_bits bits)"

section \<open>Configuration\<close>

record rate_profile =
  rate_shift :: u64
  burst :: u64

record firewall_config =
  tcp_profile :: rate_profile
  udp_profile :: rate_profile
  icmp_profile :: rate_profile
  default_profile :: rate_profile
  protocol_allowed :: u16
  ddos_activated :: bool
  subnet_activated :: bool
  incoming_ethernet_adapter :: "u32 option"
  output_ethernet_adapter :: "u32 option"

definition firewall_config_default :: firewall_config where
  "firewall_config_default =
     \<lparr>tcp_profile = \<lparr>rate_shift = 20, burst = 1000\<rparr>,
      udp_profile = \<lparr>rate_shift = 19, burst = 2000\<rparr>,
      icmp_profile = \<lparr>rate_shift = 26, burst = 10\<rparr>,
      default_profile = \<lparr>rate_shift = 23, burst = 100\<rparr>,
      protocol_allowed = IPV4 OR IPV6,
      ddos_activated = True,
      subnet_activated = True,
      incoming_ethernet_adapter = None,
      output_ethernet_adapter = None\<rparr>"

text \<open>The profiles of a configuration, in the order of its fields.\<close>

definition profiles :: "firewall_config \<Rightarrow> rate_profile list" where
  "profiles c = [tcp_profile c, udp_profile c, icmp_profile c, default_profile c]"

text \<open>
  A configuration that both validations accept (the patch's and the loader's): every shift below
  the width of the shifted word, only declared protocol flags.
\<close>

definition config_wf :: "firewall_config \<Rightarrow> bool" where
  "config_wf c \<longleftrightarrow>
     (\<forall>p \<in> set (profiles c). rate_shift p \<le> 63) \<and> activater_valid (protocol_allowed c)"

lemma config_wf_default: "config_wf firewall_config_default"
  by (simp add: config_wf_def profiles_def firewall_config_default_def activater_valid_def
      activater_all_eq activater_defs)

section \<open>Flow keys\<close>

record ipv4_packet =
  source_addr4 :: u32
  destination_addr4 :: u32
  source_port4 :: u16
  destination_port4 :: u16
  protocol4 :: u8
  pad4 :: u8
  pad4_2 :: u16

definition ipv4_packet_new :: "u32 \<Rightarrow> u32 \<Rightarrow> u16 \<Rightarrow> u16 \<Rightarrow> u8 \<Rightarrow> ipv4_packet" where
  "ipv4_packet_new src dst sport dport proto =
     \<lparr>source_addr4 = src, destination_addr4 = dst, source_port4 = sport,
      destination_port4 = dport, protocol4 = proto, pad4 = 0, pad4_2 = 0\<rparr>"

text \<open>The array \<open>[u32; 4]\<close>.\<close>

type_synonym words4 = "u32 \<times> u32 \<times> u32 \<times> u32"

record ipv6_packet =
  source_addr6 :: words4
  destination_addr6 :: words4
  source_port6 :: u16
  destination_port6 :: u16
  protocol6 :: u8
  pad6 :: "u8 \<times> u8 \<times> u8"

definition ipv6_packet_new :: "words4 \<Rightarrow> words4 \<Rightarrow> u16 \<Rightarrow> u16 \<Rightarrow> u8 \<Rightarrow> ipv6_packet" where
  "ipv6_packet_new src dst sport dport proto =
     \<lparr>source_addr6 = src, destination_addr6 = dst, source_port6 = sport,
      destination_port6 = dport, protocol6 = proto, pad6 = (0, 0, 0)\<rparr>"

fun ipv6_network_bytes :: "words4 \<Rightarrow> u8 list" where
  "ipv6_network_bytes (first, second, third, fourth) =
     to_be_bytes32 first @ to_be_bytes32 second @ to_be_bytes32 third @ to_be_bytes32 fourth"

lemma length_ipv6_network_bytes [simp]: "length (ipv6_network_bytes w) = 16"
  by (cases w) simp

lemma ipv6_network_bytes_inject [simp]:
  "ipv6_network_bytes v = ipv6_network_bytes w \<longleftrightarrow> v = w"
  by (cases v; cases w) auto

text \<open>A key with its padding zeroed is determined by the five fields of the tuple.\<close>

definition padding_zero4 :: "ipv4_packet \<Rightarrow> bool" where
  "padding_zero4 k \<longleftrightarrow> pad4 k = 0 \<and> pad4_2 k = 0"

definition padding_zero6 :: "ipv6_packet \<Rightarrow> bool" where
  "padding_zero6 k \<longleftrightarrow> pad6 k = (0, 0, 0)"

lemma padding_zero_new [simp]:
  "padding_zero4 (ipv4_packet_new a b c d e)"
  "padding_zero6 (ipv6_packet_new v w c d e)"
  by (simp_all add: padding_zero4_def padding_zero6_def ipv4_packet_new_def ipv6_packet_new_def)

lemma ipv4_packet_new_inject [simp]:
  "ipv4_packet_new a b c d e = ipv4_packet_new a' b' c' d' e' \<longleftrightarrow>
     a = a' \<and> b = b' \<and> c = c' \<and> d = d' \<and> e = e'"
  by (simp add: ipv4_packet_new_def)

lemma ipv6_packet_new_inject [simp]:
  "ipv6_packet_new v w c d e = ipv6_packet_new v' w' c' d' e' \<longleftrightarrow>
     v = v' \<and> w = w' \<and> c = c' \<and> d = d' \<and> e = e'"
  by (simp add: ipv6_packet_new_def)

end
