(* ===== verification/Sql.thy ===== *)
theory Sql
  imports Common "HOL-Library.Product_Lexorder" "HOL-Library.List_Lexorder"
begin

text \<open>
  What the database modules of the backend (oxidrop/src/db.rs) share: the roles and permissions of
  the caller, the errors, and SQLite tables. A table is the list of its rows in rowid order; an
  INTEGER column is an \<open>int\<close> (the code reads it as \<open>i64\<close>), a BLOB a list of bytes, a TEXT a string
  (its UTF-8 bytes). The CHECK and UNIQUE constraints are those of
  oxidrop/migrations. Every statement may also fail for a reason of its own (a busy or unreadable
  file): \<open>sql_fails\<close> says for which statements of the current request it does, and a statement
  that fails has no effect.
\<close>

section \<open>Roles and permissions\<close>

definition NONE :: u8 where "NONE = 0"
definition CREATE :: u8 where "CREATE = 1"
definition MODIFY :: u8 where "MODIFY = 2"
definition DELETE :: u8 where "DELETE = 4"

definition permissions_all :: u8 where "permissions_all = NONE OR CREATE OR MODIFY OR DELETE"

lemma permissions_all_eq: "permissions_all = 7"
  by (simp add: permissions_all_def NONE_def CREATE_def MODIFY_def DELETE_def)

text \<open>\<open>ActionPermissions::from_bits_truncate\<close>.\<close>

definition permissions_truncate :: "u8 \<Rightarrow> u8" where
  "permissions_truncate bits = bits AND permissions_all"

datatype roles_user = Viewer | Admin

fun role_code :: "roles_user \<Rightarrow> nat" where
  "role_code Viewer = 0"
| "role_code Admin = 1"

lemma role_code_inject [simp]: "role_code a = role_code b \<longleftrightarrow> a = b"
  by (cases a; cases b) simp_all

instantiation roles_user :: linorder
begin

definition less_eq_roles_user :: "roles_user \<Rightarrow> roles_user \<Rightarrow> bool" where
  "less_eq_roles_user a b \<longleftrightarrow> role_code a \<le> role_code b"

definition less_roles_user :: "roles_user \<Rightarrow> roles_user \<Rightarrow> bool" where
  "less_roles_user a b \<longleftrightarrow> role_code a < role_code b"

instance
  by standard (auto simp: less_eq_roles_user_def less_roles_user_def)

end

fun role_as_str :: "roles_user \<Rightarrow> string" where
  "role_as_str Admin = ''admin''"
| "role_as_str Viewer = ''viewer''"

text \<open>The \<open>Display\<close> of a role.\<close>

fun role_to_string :: "roles_user \<Rightarrow> string" where
  "role_to_string Viewer = ''Viewer''"
| "role_to_string Admin = ''Admin''"

record caller_context =
  caller_role :: roles_user
  caller_permissions :: u8

text \<open>The guard of every operation that needs a permission.\<close>

definition may :: "caller_context \<Rightarrow> u8 \<Rightarrow> bool" where
  "may caller permission \<longleftrightarrow>
     caller_role caller = Admin \<and> flags_contains (caller_permissions caller) permission"

section \<open>Errors\<close>

datatype sql_error = SqlFailed | SqlCheck | SqlUnique | SqlEncode string | SqlDecode string

datatype user_error =
  UserExists string
| InvalidCredentials
| NotFound string
| Database sql_error
| Internal string
| LackingPermission
| WeakPassword string
| TooLongPassword string

text \<open>The \<open>?\<close> on a statement: \<open>#[from] sqlx::Error\<close>.\<close>

definition db_err :: "(sql_error, 'a) result \<Rightarrow> (user_error, 'a) result" where
  "db_err r = (case r of Inl e \<Rightarrow> Inl (Database e) | Inr a \<Rightarrow> Inr a)"

lemma db_err_simps [simp]: "db_err (Inl e) = Inl (Database e)" "db_err (Inr a) = Inr a"
  by (simp_all add: db_err_def)

lemma db_err_eq_Inr [simp]: "db_err r = Inr a \<longleftrightarrow> r = Inr a"
  by (cases r) auto

section \<open>Statements\<close>

datatype sql_stmt =
  ListSubnetV4 | ListSubnetV6 | SaveSubnetV4 | SaveSubnetV6 | DeleteSubnetV4 | DeleteSubnetV6
| SaveConfig | LoadConfig | InsertLog
| CountUsers | InsertUser | DeleteUser | UpdateUser | UpdatePassword | RenameUser
| SelectUserByName | SelectUserById | UpdateLastLogin | SelectUsers | SelectLogs

type_synonym sql_faults = "sql_stmt \<Rightarrow> bool"

definition no_faults :: sql_faults where "no_faults = (\<lambda>_. False)"

lemma no_faults_simp [simp]: "\<not> no_faults s"
  by (simp add: no_faults_def)

text \<open>\<open>INSERT .. ON CONFLICT (key) DO UPDATE\<close>: the row of the key is replaced in place.\<close>

definition sql_upsert :: "('r \<Rightarrow> 'k) \<Rightarrow> 'r \<Rightarrow> 'r list \<Rightarrow> 'r list" where
  "sql_upsert key row tbl =
     (if \<exists>r \<in> set tbl. key r = key row then map (\<lambda>r. if key r = key row then row else r) tbl
      else tbl @ [row])"

text \<open>\<open>DELETE .. WHERE key = k\<close>.\<close>

definition sql_delete :: "('r \<Rightarrow> 'k) \<Rightarrow> 'k \<Rightarrow> 'r list \<Rightarrow> 'r list" where
  "sql_delete key k tbl = filter (\<lambda>r. key r \<noteq> k) tbl"

text \<open>The row of a key, in a table whose key is unique.\<close>

definition sql_row :: "('r \<Rightarrow> 'k) \<Rightarrow> 'r list \<Rightarrow> 'k \<Rightarrow> 'r option" where
  "sql_row key tbl k = find (\<lambda>r. key r = k) tbl"

definition unique_key :: "('r \<Rightarrow> 'k) \<Rightarrow> 'r list \<Rightarrow> bool" where
  "unique_key key tbl \<longleftrightarrow> distinct (map key tbl)"

lemma set_upsert [sql_simps]:
  "set (sql_upsert key row tbl) = insert row {r \<in> set tbl. key r \<noteq> key row}"
  by (auto simp: sql_upsert_def)

lemma set_sql_delete [sql_simps]: "set (sql_delete key k tbl) = {r \<in> set tbl. key r \<noteq> k}"
  by (auto simp: sql_delete_def)

lemma unique_upsert [sql_simps]: "unique_key key tbl \<Longrightarrow> unique_key key (sql_upsert key row tbl)"
proof -
  have "map key (map (\<lambda>r. if key r = key row then row else r) tbl) = map key tbl" by simp
  then show "unique_key key tbl \<Longrightarrow> unique_key key (sql_upsert key row tbl)"
    unfolding unique_key_def sql_upsert_def by (auto simp del: map_map)
qed

lemma unique_delete [sql_simps]: "unique_key key tbl \<Longrightarrow> unique_key key (sql_delete key k tbl)"
  by (simp add: unique_key_def sql_delete_def distinct_map_filter)

lemma sql_row_Some_iff:
  "unique_key key tbl \<Longrightarrow> sql_row key tbl k = Some r \<longleftrightarrow> r \<in> set tbl \<and> key r = k"
  by (induction tbl) (auto simp: sql_row_def unique_key_def)

lemma sql_row_None_iff: "sql_row key tbl k = None \<longleftrightarrow> (\<forall>r \<in> set tbl. key r \<noteq> k)"
  by (auto simp: sql_row_def find_None_iff)

lemma sql_row_upsert [sql_simps]:
  "sql_row key (sql_upsert key row tbl) k = (if k = key row then Some row else sql_row key tbl k)"
proof (cases "\<exists>r \<in> set tbl. key r = key row")
  case True
  then have "find (\<lambda>r. key r = key row) (map (\<lambda>r. if key r = key row then row else r) tbl) = Some row"
    by (induction tbl) auto
  moreover have "k \<noteq> key row \<Longrightarrow>
      find (\<lambda>r. key r = k) (map (\<lambda>r. if key r = key row then row else r) tbl) = find (\<lambda>r. key r = k) tbl"
    by (induction tbl) auto
  ultimately show ?thesis using True by (simp add: sql_row_def sql_upsert_def)
next
  case False
  have find_append: "find P (xs @ ys) = (case find P xs of Some x \<Rightarrow> Some x | None \<Rightarrow> find P ys)"
    for P and xs ys :: "'a list"
    by (induction xs) auto
  from False have "find (\<lambda>r. key r = key row) tbl = None" by (auto simp: find_None_iff)
  with False show ?thesis by (auto simp: sql_row_def sql_upsert_def find_append split: option.split)
qed

lemma sql_row_delete [sql_simps]:
  "sql_row key (sql_delete key k tbl) k' = (if k' = k then None else sql_row key tbl k')"
  by (induction tbl) (auto simp: sql_row_def sql_delete_def)

text \<open>\<open>i64::try_from\<close> a \<open>u64\<close>, and \<open>u32\<close>, \<open>u64\<close>, \<open>u16::try_from\<close> an \<open>i64\<close>.\<close>

definition sqlite_integer :: "u64 \<Rightarrow> string \<Rightarrow> (sql_error, int) result" where
  "sqlite_integer v field =
     (if uint v < 2 ^ 63 then Inr (uint v)
      else Inl (SqlEncode (field @ '' does not fit in a SQLite INTEGER'')))"

definition uint_try_from :: "int \<Rightarrow> 'a::len word option" where
  "uint_try_from x = (if 0 \<le> x \<and> x < 2 ^ LENGTH('a) then Some (word_of_int x) else None)"

lemma uint_try_from_uint [simp]: "uint_try_from (uint (w :: 'a::len word)) = Some w"
  using uint_bounded [of w] by (simp add: uint_try_from_def)

lemma uint_try_from_Some: "uint_try_from x = Some (w :: 'a::len word) \<longleftrightarrow> x = uint w"
  by (auto simp: uint_try_from_def word_of_int_inverse uint_bounded split: if_splits)

lemma uint_less_pow: "uint (w :: 'a::len word) < 2 ^ n \<longleftrightarrow> unat w < 2 ^ n"
proof -
  have "uint w < 2 ^ n \<longleftrightarrow> int (unat w) < int (2 ^ n)" by simp
  then show ?thesis unfolding of_nat_less_iff .
qed

end
