(* ===== verification/Database.thy ===== *)
theory Database
  imports Sql
begin

text \<open>
  The tables of the backend's database (oxidrop/migrations) that its code reads or writes, as one
  record, and the constraints of the schema.
\<close>

record user_row =
  u_id :: int
  u_username :: string
  u_password_hash :: string
  u_role :: string
  u_action_permissions :: int
  u_password_must_be_changed :: int
  u_is_active :: int
  u_last_login_at :: "int option"

record subnet_v4_row =
  network4 :: int
  prefix_len4 :: int
  action4 :: int

record subnet_v6_row =
  network6 :: "u8 list"
  prefix_len6 :: int
  action6 :: int

record firewall_config_row =
  tcp_rate_shift :: int
  tcp_burst :: int
  udp_rate_shift :: int
  udp_burst :: int
  icmp_rate_shift :: int
  icmp_burst :: int
  default_rate_shift :: int
  default_burst :: int
  row_protocol_allowed :: int
  row_ddos_activated :: bool
  row_subnet_activated :: bool
  row_incoming_ethernet_adapter :: "int option"
  row_output_ethernet_adapter :: "int option"

text \<open>The columns of \<open>firewall_logs\<close>, which is also the \<open>LogEntry\<close> of oxidrop/src/state.rs.\<close>

record log_row =
  log_id :: int
  log_timestamp :: int
  log_level :: string
  log_message :: string
  log_actor :: "string option"
  log_source_ip :: "string option"
  log_destination_ip :: "string option"
  log_source_port :: "int option"
  log_destination_port :: "int option"
  log_protocol :: "string option"
  log_action :: "string option"

text \<open>The code reads and writes only the row with id 1 of \<open>firewall_config\<close>.\<close>

record database =
  users :: "user_row list"
  firewall_logs :: "log_row list"
  firewall_config_row_1 :: "firewall_config_row option"
  subnet_match_v4 :: "subnet_v4_row list"
  subnet_match_v6 :: "subnet_v6_row list"

definition empty_database :: database where
  "empty_database = \<lparr>users = [], firewall_logs = [], firewall_config_row_1 = None,
     subnet_match_v4 = [], subnet_match_v6 = []\<rparr>"

section \<open>Constraints\<close>

definition user_check :: "user_row \<Rightarrow> bool" where
  "user_check u \<longleftrightarrow>
     u_role u \<in> {''admin'', ''viewer''} \<and>
     0 \<le> u_action_permissions u \<and> u_action_permissions u \<le> 7 \<and>
     u_password_must_be_changed u \<in> {0, 1} \<and> u_is_active u \<in> {0, 1}"

definition subnet_v4_check :: "subnet_v4_row \<Rightarrow> bool" where
  "subnet_v4_check r \<longleftrightarrow> 0 \<le> prefix_len4 r \<and> prefix_len4 r \<le> 32 \<and> action4 r \<in> {0, 1}"

definition subnet_v6_check :: "subnet_v6_row \<Rightarrow> bool" where
  "subnet_v6_check r \<longleftrightarrow>
     length (network6 r) = 16 \<and> 0 \<le> prefix_len6 r \<and> prefix_len6 r \<le> 128 \<and> action6 r \<in> {0, 1}"

definition ip_text_check :: "string option \<Rightarrow> bool" where
  "ip_text_check s \<longleftrightarrow> (case s of None \<Rightarrow> True | Some t \<Rightarrow> 7 \<le> length t \<and> length t \<le> 45)"

definition port_check :: "int option \<Rightarrow> bool" where
  "port_check p \<longleftrightarrow> (case p of None \<Rightarrow> True | Some x \<Rightarrow> 0 \<le> x \<and> x \<le> 65535)"

definition log_check :: "log_row \<Rightarrow> bool" where
  "log_check r \<longleftrightarrow>
     0 < log_timestamp r \<and>
     log_level r \<in> {''DEBUG'', ''INFO'', ''WARN'', ''ERROR'', ''FATAL''} \<and>
     ip_text_check (log_source_ip r) \<and> ip_text_check (log_destination_ip r) \<and>
     port_check (log_source_port r) \<and> port_check (log_destination_port r) \<and>
     (case log_protocol r of None \<Rightarrow> True
      | Some t \<Rightarrow> t \<in> {''TCP'', ''UDP'', ''ICMP'', ''IGMP'', ''GRE'', ''IPv6-ICMP''}) \<and>
     (case log_action r of None \<Rightarrow> True
      | Some t \<Rightarrow> t \<in> {''ALLOW'', ''DENY'', ''DROP'', ''REJECT''})"

definition key4 :: "subnet_v4_row \<Rightarrow> int \<times> int" where
  "key4 r = (network4 r, prefix_len4 r)"

definition key6 :: "subnet_v6_row \<Rightarrow> u8 list \<times> int" where
  "key6 r = (network6 r, prefix_len6 r)"

definition users_ok :: "user_row list \<Rightarrow> bool" where
  "users_ok us \<longleftrightarrow> unique_key u_id us \<and> unique_key u_username us \<and> (\<forall>u \<in> set us. user_check u)"

section \<open>External services\<close>

text \<open>Password hashing is the library's (argon2), the rowid of a new row SQLite's.\<close>

record services =
  argon_hash :: "string \<Rightarrow> string \<Rightarrow> (string, string) result"
  phc_valid :: "string \<Rightarrow> bool"
  argon_verify :: "string \<Rightarrow> string \<Rightarrow> bool"
  new_rowid :: "int list \<Rightarrow> int"

text \<open>
  What the code relies on: a new rowid is larger than those in use (SQLite's rule below the largest
  rowid, 2^63 - 1), and a hash is well-formed and verifies its own password.
\<close>

definition services_ok :: "services \<Rightarrow> bool" where
  "services_ok S \<longleftrightarrow>
     (\<forall>ids. \<forall>i \<in> set ids. i < new_rowid S ids) \<and>
     (\<forall>salt pw h. argon_hash S salt pw = Inr h \<longrightarrow> phc_valid S h \<and> argon_verify S h pw)"

text \<open>An instance: SQLite's rule for rowids, and a hash that is the tagged password.\<close>

definition ref_services :: services where
  "ref_services =
     \<lparr>argon_hash = (\<lambda>salt pw. Inr (''$'' @ pw)),
      phc_valid = (\<lambda>h. take 1 h = ''$''),
      argon_verify = (\<lambda>h pw. h = ''$'' @ pw),
      new_rowid = (\<lambda>ids. fold max ids 0 + 1)\<rparr>"

lemma le_fold_max: "(x :: int) \<in> set xs \<or> x \<le> a \<Longrightarrow> x \<le> fold max xs a"
  by (induction xs arbitrary: a) (auto simp: le_max_iff_disj)

lemma services_ok_ref: "services_ok ref_services"
proof -
  have "i < fold max ids 0 + 1" if "i \<in> set ids" for i :: int and ids
    using le_fold_max [of i ids 0] that by auto
  then show ?thesis by (auto simp: services_ok_def ref_services_def)
qed

lemma new_rowid_fresh: "services_ok S \<Longrightarrow> new_rowid S ids \<notin> set ids"
  by (auto simp: services_ok_def)

section \<open>The log table\<close>

text \<open>\<open>INSERT INTO firewall_logs .. RETURNING\<close>: the row as stored, with its new id.\<close>

definition insert_log ::
    "services \<Rightarrow> sql_faults \<Rightarrow> log_row \<Rightarrow> database \<Rightarrow> (sql_error, log_row) result \<times> database" where
  "insert_log S flt row d =
     (let stored = row\<lparr>log_id := new_rowid S (map log_id (firewall_logs d))\<rparr> in
      if flt InsertLog then (Inl SqlFailed, d)
      else if \<not> log_check row then (Inl SqlCheck, d)
      else (Inr stored, d\<lparr>firewall_logs := firewall_logs d @ [stored]\<rparr>))"

end
