(* ===== verification/Token_Bucket.thy ===== *)
theory Token_Bucket
  imports Common
begin

text \<open>
  The rate limiter of oxidrop-ebpf/src/main.rs (\<open>evaluate_bucket\<close>), on 64-bit words as in the
  code. The program is compiled in the release profile: the addition of the refill wraps and the
  shift amount is taken modulo the width. The locale \<open>rate_limiter\<close> states what one evaluation
  promises and derives the bound on any sequence of evaluations; the code's function interprets
  it below.
\<close>

definition XDP_PASS :: u32 where "XDP_PASS = 2"

definition evaluate_bucket ::
    "token_bucket_state \<Rightarrow> rate_profile \<Rightarrow> u64 \<Rightarrow> (firewall_error, u32) result \<times> token_bucket_state"
  where
  "evaluate_bucket bucket p now =
     (let elapsed = saturating_sub now (last_update bucket);
          generated_tokens = drop_bit (unat (rate_shift p AND 63)) elapsed;
          bucket1 =
            (if generated_tokens > 0
             then bucket\<lparr>tokens := min (tokens bucket + generated_tokens) (burst p), last_update := now\<rparr>
             else bucket)
      in if tokens bucket1 > 0
         then (Inr XDP_PASS, bucket1\<lparr>tokens := tokens bucket1 - 1\<rparr>)
         else (Inl RateLimited, bucket1))"

text \<open>The bucket of a flow that has none: full, last updated now.\<close>

definition fresh_bucket :: "rate_profile \<Rightarrow> u64 \<Rightarrow> token_bucket_state" where
  "fresh_bucket p now = \<lparr>tokens = burst p, last_update = now\<rparr>"

text \<open>
  A sequence of evaluations of one bucket, one per arrival time: the number of packets let
  through and the bucket at the end.
\<close>

fun run_bucket :: "token_bucket_state \<Rightarrow> rate_profile \<Rightarrow> u64 list \<Rightarrow> nat \<times> token_bucket_state" where
  "run_bucket b p [] = (0, b)"
| "run_bucket b p (t # ts) =
     (let (r, b1) = evaluate_bucket b p t; (n, b2) = run_bucket b1 p ts
      in ((case r of Inr _ \<Rightarrow> Suc n | Inl _ \<Rightarrow> n), b2))"

section \<open>The contract of a rate limiter\<close>

text \<open>How many packets a limiter lets through, over a list of events.\<close>

fun count_passes :: "('s \<Rightarrow> 'e \<Rightarrow> bool \<times> 's) \<Rightarrow> 's \<Rightarrow> 'e list \<Rightarrow> nat" where
  "count_passes step s [] = 0"
| "count_passes step s (e # es) =
     (if fst (step s e) then 1 else 0) + count_passes step (snd (step s e)) es"

text \<open>
  \<open>level\<close> counts the packets that a state admits at once, \<open>stamp\<close> its time; a step on an event at
  \<open>time e\<close> spends one unit exactly when it admits the packet, and gains at most the refill of the
  time since the stamp, which it never moves beyond the event. \<open>okay\<close> says which states are in
  range, \<open>valid\<close> which events.
\<close>

locale rate_limiter =
  fixes step :: "'s \<Rightarrow> 'e \<Rightarrow> bool \<times> 's"
    and time :: "'e \<Rightarrow> nat"
    and level :: "'s \<Rightarrow> nat"
    and stamp :: "'s \<Rightarrow> nat"
    and okay :: "'s \<Rightarrow> bool"
    and valid :: "'e \<Rightarrow> bool"
    and period :: nat
    and cap :: nat
  assumes period_pos: "0 < period"
    and step_inv: "okay s \<Longrightarrow> valid e \<Longrightarrow> okay (snd (step s e))"
    and step_spend: "okay s \<Longrightarrow> valid e \<Longrightarrow>
      level (snd (step s e)) + (if fst (step s e) then 1 else 0)
        \<le> level s + (stamp (snd (step s e)) - stamp s) div period"
    and step_stamp: "okay s \<Longrightarrow> valid e \<Longrightarrow> stamp s \<le> stamp (snd (step s e))"
    and step_stamp_le: "okay s \<Longrightarrow> valid e \<Longrightarrow> stamp (snd (step s e)) \<le> max (stamp s) (time e)"
    and level_cap: "okay s \<Longrightarrow> level s \<le> cap"
begin

lemma div_add_le: "(a :: nat) div period + b div period \<le> (a + b) div period"
  by (metis add.commute div_add1_eq le_add1)

lemma passes_le:
  assumes "okay s" and "\<forall>e \<in> set es. valid e \<and> time e \<le> T" and "stamp s \<le> T"
  shows "count_passes step s es \<le> level s + (T - stamp s) div period"
  using assms
proof (induction es arbitrary: s)
  case (Cons e es)
  let ?s = "snd (step s e)"
  have e: "valid e" "time e \<le> T" and inv: "okay ?s"
    using Cons.prems step_inv [of s e] by auto
  have le: "stamp s \<le> stamp ?s" "stamp ?s \<le> T"
    using step_stamp [of s e] step_stamp_le [of s e] Cons.prems e by auto
  have "count_passes step ?s es \<le> level ?s + (T - stamp ?s) div period"
    using Cons.IH [OF inv] Cons.prems le by simp
  then have "count_passes step s (e # es) \<le>
      level s + ((stamp ?s - stamp s) div period + (T - stamp ?s) div period)"
    using step_spend [of s e] Cons.prems(1) e by simp
  also have "\<dots> \<le> level s + (T - stamp s) div period"
    using div_add_le [of "stamp ?s - stamp s" "T - stamp ?s"] le by simp
  finally show ?case .
qed simp

lemma passes_le_cap:
  assumes "okay s" and "\<forall>e \<in> set es. valid e \<and> time e \<le> T" and "stamp s \<le> T"
  shows "count_passes step s es \<le> cap + (T - stamp s) div period"
  using passes_le [OF assms] level_cap [OF assms(1)] by linarith

end

section \<open>The code's bucket keeps the contract\<close>

definition bucket_step :: "rate_profile \<Rightarrow> token_bucket_state \<Rightarrow> nat \<Rightarrow> bool \<times> token_bucket_state" where
  "bucket_step p b t = (case evaluate_bucket b p (of_nat t) of (r, b') \<Rightarrow> (isl r = False, b'))"

text \<open>
  A bucket in range: at most \<open>burst\<close> tokens, and a time stamp below \<open>2 ^ 63\<close> ns (292 years of
  uptime), so that the refill does not wrap.
\<close>

definition bucket_inv :: "rate_profile \<Rightarrow> token_bucket_state \<Rightarrow> bool" where
  "bucket_inv p b \<longleftrightarrow> unat (tokens b) \<le> unat (burst p) \<and> unat (last_update b) < 2 ^ 63"

definition profile_ok :: "rate_profile \<Rightarrow> bool" where
  "profile_ok p \<longleftrightarrow> unat (burst p) < 2 ^ 63 \<and> rate_shift p \<le> 63"

text \<open>The nanoseconds per token.\<close>

definition token_period :: "rate_profile \<Rightarrow> nat" where
  "token_period p = 2 ^ unat (rate_shift p)"

lemma shift_mask: "(x :: u64) \<le> 63 \<Longrightarrow> x AND 63 = x"
proof -
  assume "x \<le> 63"
  then have "unat x < 2 ^ 6" by (simp add: word_le_nat_alt)
  then have "unat (take_bit 6 x) = unat x"
    by (simp add: unsigned_take_bit_eq take_bit_nat_eq_self)
  then have "take_bit 6 x = x" by (rule unsigned_word_eqI)
  moreover have "(63 :: u64) = mask 6" by (simp add: mask_eq_exp_minus_1)
  ultimately show ?thesis by (simp add: take_bit_eq_mask)
qed

text \<open>The refill of an evaluation, as natural numbers.\<close>

definition refill :: "rate_profile \<Rightarrow> token_bucket_state \<Rightarrow> nat \<Rightarrow> nat" where
  "refill p b t = (t - unat (last_update b)) div token_period p"

lemma evaluate_bucket_nat:
  assumes p: "profile_ok p" and b: "bucket_inv p b" and t: "t < 2 ^ 63"
  defines "b1 \<equiv> (if refill p b t > 0
      then b\<lparr>tokens := of_nat (min (unat (tokens b) + refill p b t) (unat (burst p))), last_update := of_nat t\<rparr>
      else b)"
  shows "evaluate_bucket b p (of_nat t) =
     (if tokens b1 > 0 then (Inr XDP_PASS, b1\<lparr>tokens := tokens b1 - 1\<rparr>)
      else (Inl RateLimited, b1))"
proof -
  let ?g = "drop_bit (unat (rate_shift p AND 63)) (saturating_sub (of_nat t) (last_update b)) :: u64"
  have t': "unat (of_nat t :: u64) = t"
    using t by (simp add: unat_of_nat)
  have g: "unat ?g = refill p b t"
    using p by (simp add: unat_drop_bit t' refill_def token_period_def profile_ok_def shift_mask)
  have "refill p b t \<le> t"
    by (simp add: refill_def) (meson diff_le_self div_le_dividend le_trans)
  then have sum: "unat (tokens b) + unat ?g < 2 ^ 64"
    using p b t unfolding g by (simp add: profile_ok_def bucket_inv_def)
  then have add: "unat (tokens b + ?g) = unat (tokens b) + refill p b t"
    by (simp add: unat_add_lem g del: unat_add_lem [THEN iffD1]) (simp add: unat_word_ariths g)
  have "unat (min (tokens b + ?g) (burst p)) =
      min (unat (tokens b) + refill p b t) (unat (burst p))"
    using add by (auto simp: min_def word_le_nat_alt)
  then have "min (tokens b + ?g) (burst p) = of_nat (min (unat (tokens b) + refill p b t) (unat (burst p)))"
    by (rule word_of_natI)
  moreover have "?g > 0 \<longleftrightarrow> refill p b t > 0"
    using g by (metis gr0I unat_gt_0 word_gt_0)
  ultimately show ?thesis
    unfolding evaluate_bucket_def Let_def b1_def by simp
qed

lemma unat_dec: "(w :: u64) > 0 \<Longrightarrow> unat (w - 1) = unat w - 1"
  by (metis unat_gt_0 unat_minus_one word_gt_0)

text \<open>The state after an evaluation, in natural numbers.\<close>

lemma bucket_step_nat:
  assumes p: "profile_ok p" and b: "bucket_inv p b" and t: "t < 2 ^ 63"
  defines "n \<equiv> (if refill p b t > 0 then min (unat (tokens b) + refill p b t) (unat (burst p))
      else unat (tokens b))"
  shows "fst (bucket_step p b t) \<longleftrightarrow> 0 < n"
    and "unat (tokens (snd (bucket_step p b t))) = n - 1"
    and "unat (last_update (snd (bucket_step p b t))) =
      (if refill p b t > 0 then t else unat (last_update b))"
proof -
  have n: "n < 2 ^ 64" and t64: "t < 2 ^ 64"
    using p b t by (auto simp: n_def profile_ok_def bucket_inv_def)
  then have u: "unat (of_nat n :: u64) = n" "unat (of_nat t :: u64) = t"
    by (simp_all add: unat_of_nat)
  have n0: "(0 :: u64) < of_nat n \<longleftrightarrow> 0 < n"
    by (metis u(1) unat_gt_0 word_gt_0)
  note ev = evaluate_bucket_nat [OF p b t]
  have n_eq: "refill p b t > 0 \<Longrightarrow> min (unat (tokens b) + refill p b t) (unat (burst p)) = n"
    "\<not> refill p b t > 0 \<Longrightarrow> tokens b = of_nat n"
    by (simp_all add: n_def)
  show "fst (bucket_step p b t) \<longleftrightarrow> 0 < n"
    using n0 n_eq by (auto simp: bucket_step_def ev split: if_splits)
  show "unat (tokens (snd (bucket_step p b t))) = n - 1"
    using n0 n_eq u by (auto simp: bucket_step_def ev unat_dec split: if_splits)
  show "unat (last_update (snd (bucket_step p b t))) =
      (if refill p b t > 0 then t else unat (last_update b))"
    using n0 n_eq u by (auto simp: bucket_step_def ev split: if_splits)
qed

lemma evaluate_bucket_fst:
  "fst (evaluate_bucket b p (of_nat t)) =
     (if fst (bucket_step p b t) then Inr XDP_PASS else Inl RateLimited)"
  by (simp add: bucket_step_def evaluate_bucket_def Let_def)

lemma evaluate_bucket_snd: "snd (evaluate_bucket b p (of_nat t)) = snd (bucket_step p b t)"
  by (simp add: bucket_step_def split: prod.split)

lemma refill_pos_later: "0 < refill p b t \<Longrightarrow> unat (last_update b) < t"
  by (rule ccontr) (simp add: refill_def)

lemma rate_limiter_bucket:
  assumes "profile_ok p"
  shows "rate_limiter (bucket_step p) (\<lambda>t. t) (\<lambda>b. unat (tokens b)) (\<lambda>b. unat (last_update b))
    (bucket_inv p) (\<lambda>t. t < 2 ^ 63) (token_period p) (unat (burst p))"
proof
  show "0 < token_period p" by (simp add: token_period_def)
  fix b and t :: nat
  assume b: "bucket_inv p b"
  show "unat (tokens b) \<le> unat (burst p)" using b by (simp add: bucket_inv_def)
  assume t: "t < 2 ^ 63"
  note st = bucket_step_nat [OF assms b t]
  show "bucket_inv p (snd (bucket_step p b t))"
    using b t unfolding bucket_inv_def st by auto
  show "unat (tokens (snd (bucket_step p b t))) + (if fst (bucket_step p b t) then 1 else 0)
      \<le> unat (tokens b) + (unat (last_update (snd (bucket_step p b t))) - unat (last_update b)) div
          token_period p"
    unfolding st by (auto simp: refill_def)
  show "unat (last_update b) \<le> unat (last_update (snd (bucket_step p b t)))"
    unfolding st using refill_pos_later [of p b t] by auto
  show "unat (last_update (snd (bucket_step p b t))) \<le> max (unat (last_update b)) t"
    unfolding st by simp
qed

lemma run_bucket_passes:
  "fst (run_bucket b p (map of_nat ts)) = count_passes (bucket_step p) b ts"
proof (induction ts arbitrary: b)
  case (Cons t ts)
  show ?case
    using Cons.IH [of "snd (evaluate_bucket b p (of_nat t))"]
    by (auto simp: bucket_step_def Let_def split: prod.splits sum.splits)
qed simp

text \<open>The limiters of the default configuration.\<close>

lemma profile_ok_defaults:
  "profile_ok (tcp_profile firewall_config_default)" "profile_ok (udp_profile firewall_config_default)"
  "profile_ok (icmp_profile firewall_config_default)"
  "profile_ok (default_profile firewall_config_default)"
  by (simp_all add: profile_ok_def firewall_config_default_def)

interpretation tcp_limit: rate_limiter "bucket_step (tcp_profile firewall_config_default)"
  "\<lambda>t. t" "\<lambda>b. unat (tokens b)" "\<lambda>b. unat (last_update b)"
  "bucket_inv (tcp_profile firewall_config_default)" "\<lambda>t. t < 2 ^ 63"
  "token_period (tcp_profile firewall_config_default)"
  "unat (burst (tcp_profile firewall_config_default))"
  by (rule rate_limiter_bucket [OF profile_ok_defaults(1)])

section \<open>Properties\<close>

text \<open>
  A bucket that starts full at time \<open>T0\<close> lets through, over any sequence of packets up to time
  \<open>T\<close>, at most its burst plus one packet per \<open>2 ^ rate_shift\<close> nanoseconds elapsed (64-bit
  arithmetic; clock below \<open>2 ^ 63\<close> ns, burst below \<open>2 ^ 63\<close>).
\<close>

theorem bucket_rate_bound:
  assumes "profile_ok p" and "T0 < 2 ^ 63" and "T0 \<le> T"
    and "\<forall>t \<in> set ts. t < 2 ^ 63 \<and> t \<le> T"
  shows "fst (run_bucket (fresh_bucket p (of_nat T0)) p (map of_nat ts))
    \<le> unat (burst p) + (T - T0) div token_period p"
proof -
  have stamp: "unat (last_update (fresh_bucket p (of_nat T0))) = T0"
    using assms(2) by (simp add: fresh_bucket_def unat_of_nat)
  then have "bucket_inv p (fresh_bucket p (of_nat T0))"
    using assms(2) by (simp add: bucket_inv_def fresh_bucket_def)
  with rate_limiter.passes_le_cap [OF rate_limiter_bucket [OF assms(1)], of _ ts T] stamp assms(3,4)
  show ?thesis unfolding run_bucket_passes by fastforce
qed

theorem bucket_rate_bound_witness:
  "fst (run_bucket (fresh_bucket \<lparr>rate_shift = 2, burst = 1\<rparr> (of_nat 0)) \<lparr>rate_shift = 2, burst = 1\<rparr>
     (map of_nat [0, 1, 5, 6])) \<le> 1 + 6 div 4"
  using bucket_rate_bound [of "\<lparr>rate_shift = 2, burst = 1\<rparr>" 0 6 "[0, 1, 5, 6]"]
  by (simp add: profile_ok_def token_period_def)

text \<open>
  C33: No starvation: once a full period has passed since the last refill, the next packet is let
  through, however empty the bucket was, as long as the burst is not zero.
\<close>

theorem bucket_no_starvation:
  assumes "profile_ok p" and "bucket_inv p b" and "t < 2 ^ 63" and "0 < burst p"
    and "unat (last_update b) + token_period p \<le> t"
  shows "fst (evaluate_bucket b p (of_nat t)) = Inr XDP_PASS"
proof -
  have "0 < refill p b t"
    using assms(5) by (simp add: refill_def div_greater_zero_iff token_period_def le_diff_conv2)
  moreover have "0 < unat (burst p)" using assms(4) by (simp add: unat_gt_0 word_gt_0)
  ultimately have "fst (bucket_step p b t)"
    using bucket_step_nat(1) [OF assms(1-3)] by simp
  then show ?thesis by (simp add: evaluate_bucket_fst)
qed

theorem bucket_no_starvation_witness:
  "fst (evaluate_bucket \<lparr>tokens = 0, last_update = 3\<rparr> \<lparr>rate_shift = 2, burst = 1\<rparr> (of_nat 7)) =
     Inr XDP_PASS"
  using bucket_no_starvation
    [of "\<lparr>rate_shift = 2, burst = 1\<rparr>" "\<lparr>tokens = 0, last_update = 3\<rparr>" 7]
  by (simp add: profile_ok_def bucket_inv_def token_period_def)

text \<open>
  Each evaluation on every branch: a refill happens exactly when at least one period has
  elapsed since the stamp, is capped by the burst and moves the stamp; a packet is then let
  through exactly when a token is left, and takes it.
\<close>

theorem evaluate_bucket_spec:
  assumes "profile_ok p" and "bucket_inv p b" and "t < 2 ^ 63"
  shows "let g = (t - unat (last_update b)) div token_period p;
             n = (if 0 < g then min (unat (tokens b) + g) (unat (burst p)) else unat (tokens b));
             (r, b') = evaluate_bucket b p (of_nat t)
         in r = (if 0 < n then Inr XDP_PASS else Inl RateLimited) \<and>
            unat (tokens b') = n - 1 \<and>
            unat (last_update b') = (if 0 < g then t else unat (last_update b))"
  using bucket_step_nat [OF assms]
  unfolding Let_def refill_def [symmetric] case_prod_unfold evaluate_bucket_fst evaluate_bucket_snd
  by simp

theorem evaluate_bucket_spec_witness:
  "fst (evaluate_bucket \<lparr>tokens = 0, last_update = 3\<rparr> \<lparr>rate_shift = 2, burst = 1\<rparr> (of_nat 6)) =
     Inl RateLimited"
proof -
  have "profile_ok \<lparr>rate_shift = 2, burst = 1\<rparr>"
    "bucket_inv \<lparr>rate_shift = 2, burst = 1\<rparr> \<lparr>tokens = 0, last_update = 3\<rparr>" "(6 :: nat) < 2 ^ 63"
    by (simp_all add: profile_ok_def bucket_inv_def)
  from evaluate_bucket_spec [OF this] show ?thesis
    by (simp add: token_period_def Let_def case_prod_unfold)
qed

end
