(* ===== verification/Db_Config.thy ===== *)
theory Db_Config
  imports Database Token_Bucket
begin

text \<open>
  The firewall configuration and the log table in the database (\<open>save_firewall_config\<close>,
  \<open>load_firewall_config\<close>, \<open>record_log\<close> of oxidrop/src/db.rs). The loader validates what it reads, so
  a loaded configuration is in the range where the rate limiter's arithmetic does not wrap.
\<close>

definition config_to_row :: "firewall_config \<Rightarrow> (sql_error, firewall_config_row) result" where
  "config_to_row c =
     result_bind (sqlite_integer (rate_shift (tcp_profile c)) ''tcp_rate_shift'') (\<lambda>tcp_rs.
     result_bind (sqlite_integer (burst (tcp_profile c)) ''tcp_burst'') (\<lambda>tcp_b.
     result_bind (sqlite_integer (rate_shift (udp_profile c)) ''udp_rate_shift'') (\<lambda>udp_rs.
     result_bind (sqlite_integer (burst (udp_profile c)) ''udp_burst'') (\<lambda>udp_b.
     result_bind (sqlite_integer (rate_shift (icmp_profile c)) ''icmp_rate_shift'') (\<lambda>icmp_rs.
     result_bind (sqlite_integer (burst (icmp_profile c)) ''icmp_burst'') (\<lambda>icmp_b.
     result_bind (sqlite_integer (rate_shift (default_profile c)) ''default_rate_shift'') (\<lambda>def_rs.
     result_bind (sqlite_integer (burst (default_profile c)) ''default_burst'') (\<lambda>def_b.
     Inr \<lparr>tcp_rate_shift = tcp_rs, tcp_burst = tcp_b, udp_rate_shift = udp_rs, udp_burst = udp_b,
          icmp_rate_shift = icmp_rs, icmp_burst = icmp_b,
          default_rate_shift = def_rs, default_burst = def_b,
          row_protocol_allowed = uint (protocol_allowed c),
          row_ddos_activated = ddos_activated c, row_subnet_activated = subnet_activated c,
          row_incoming_ethernet_adapter = map_option uint (incoming_ethernet_adapter c),
          row_output_ethernet_adapter = map_option uint (output_ethernet_adapter c)\<rparr>))))))))"

definition save_firewall_config ::
    "sql_faults \<Rightarrow> firewall_config \<Rightarrow> database \<Rightarrow> (sql_error, unit) result \<times> database" where
  "save_firewall_config flt c d =
     (case config_to_row c of
        Inl e \<Rightarrow> (Inl e, d)
      | Inr row \<Rightarrow>
          if flt SaveConfig then (Inl SqlFailed, d)
          else (Inr (), d\<lparr>firewall_config_row_1 := Some row\<rparr>))"

definition invalid_field :: "string \<Rightarrow> sql_error" where
  "invalid_field field = SqlDecode (''invalid firewall_config.'' @ field)"

definition load_rate_shift :: "int \<Rightarrow> string \<Rightarrow> (sql_error, u64) result" where
  "load_rate_shift v field =
     ok_or (invalid_field field)
       (case uint_try_from v of Some w \<Rightarrow> if w \<le> 63 then Some w else None | None \<Rightarrow> None)"

definition load_burst :: "int \<Rightarrow> string \<Rightarrow> (sql_error, u64) result" where
  "load_burst v field = ok_or (invalid_field field) (uint_try_from v)"

definition load_adapter :: "int option \<Rightarrow> string \<Rightarrow> (sql_error, u32 option) result" where
  "load_adapter v field =
     (case v of
        None \<Rightarrow> Inr None
      | Some x \<Rightarrow> result_bind (ok_or (invalid_field field) (uint_try_from x)) (\<lambda>w. Inr (Some w)))"

definition row_to_config :: "firewall_config_row \<Rightarrow> (sql_error, firewall_config) result" where
  "row_to_config r =
     result_bind (ok_or (invalid_field ''protocol_allowed'')
       (Option.bind (uint_try_from (row_protocol_allowed r)) activater_from_bits)) (\<lambda>protocols.
     result_bind (load_rate_shift (tcp_rate_shift r) ''tcp_rate_shift'') (\<lambda>tcp_rs.
     result_bind (load_burst (tcp_burst r) ''tcp_burst'') (\<lambda>tcp_b.
     result_bind (load_rate_shift (udp_rate_shift r) ''udp_rate_shift'') (\<lambda>udp_rs.
     result_bind (load_burst (udp_burst r) ''udp_burst'') (\<lambda>udp_b.
     result_bind (load_rate_shift (icmp_rate_shift r) ''icmp_rate_shift'') (\<lambda>icmp_rs.
     result_bind (load_burst (icmp_burst r) ''icmp_burst'') (\<lambda>icmp_b.
     result_bind (load_rate_shift (default_rate_shift r) ''default_rate_shift'') (\<lambda>def_rs.
     result_bind (load_burst (default_burst r) ''default_burst'') (\<lambda>def_b.
     result_bind (load_adapter (row_incoming_ethernet_adapter r) ''incoming_ethernet_adapter'') (\<lambda>inc.
     result_bind (load_adapter (row_output_ethernet_adapter r) ''output_ethernet_adapter'') (\<lambda>out.
     Inr \<lparr>tcp_profile = \<lparr>rate_shift = tcp_rs, burst = tcp_b\<rparr>,
          udp_profile = \<lparr>rate_shift = udp_rs, burst = udp_b\<rparr>,
          icmp_profile = \<lparr>rate_shift = icmp_rs, burst = icmp_b\<rparr>,
          default_profile = \<lparr>rate_shift = def_rs, burst = def_b\<rparr>,
          protocol_allowed = protocols,
          ddos_activated = row_ddos_activated r, subnet_activated = row_subnet_activated r,
          incoming_ethernet_adapter = inc, output_ethernet_adapter = out\<rparr>)))))))))))"

definition load_firewall_config ::
    "sql_faults \<Rightarrow> database \<Rightarrow> (sql_error, firewall_config option) result" where
  "load_firewall_config flt d =
     (if flt LoadConfig then Inl SqlFailed
      else case firewall_config_row_1 d of
        None \<Rightarrow> Inr None
      | Some row \<Rightarrow> result_bind (row_to_config row) (\<lambda>c. Inr (Some c)))"

text \<open>\<open>now\<close> is \<open>unixepoch()\<close>.\<close>

definition record_log ::
    "services \<Rightarrow> sql_faults \<Rightarrow> int \<Rightarrow> string \<Rightarrow> string \<Rightarrow> string option \<Rightarrow> database \<Rightarrow>
     (sql_error, unit) result \<times> database" where
  "record_log S flt now level message actor d =
     (case insert_log S flt
             \<lparr>log_id = 0, log_timestamp = now, log_level = level, log_message = message,
              log_actor = actor, log_source_ip = None, log_destination_ip = None,
              log_source_port = None, log_destination_port = None, log_protocol = None,
              log_action = None\<rparr> d of
        (Inl e, d') \<Rightarrow> (Inl e, d')
      | (Inr _, d') \<Rightarrow> (Inr (), d'))"

lemma record_log_frame [simp]:
  "users (snd (record_log S flt now level message actor d)) = users d"
  "firewall_config_row_1 (snd (record_log S flt now level message actor d)) = firewall_config_row_1 d"
  "subnet_match_v4 (snd (record_log S flt now level message actor d)) = subnet_match_v4 d"
  "subnet_match_v6 (snd (record_log S flt now level message actor d)) = subnet_match_v6 d"
  by (simp_all add: record_log_def insert_log_def Let_def)

section \<open>What can be stored, and what is loaded\<close>

text \<open>Every number of the configuration fits a SQLite INTEGER.\<close>

definition storable :: "firewall_config \<Rightarrow> bool" where
  "storable c \<longleftrightarrow> (\<forall>p \<in> set (profiles c). uint (rate_shift p) < 2 ^ 63 \<and> uint (burst p) < 2 ^ 63)"

lemma sqlite_integer_Inr [simp]:
  "sqlite_integer v field = Inr x \<longleftrightarrow> x = uint v \<and> uint v < 2 ^ 63"
  by (auto simp: sqlite_integer_def)

lemma load_shift_uint [simp]:
  "load_rate_shift (uint v) field = (if v \<le> 63 then Inr v else Inl (invalid_field field))"
  by (simp add: load_rate_shift_def)

lemma load_shift_Inr: "load_rate_shift x field = Inr v \<Longrightarrow> x = uint v \<and> v \<le> 63"
  by (auto simp: load_rate_shift_def uint_try_from_Some split: option.splits if_splits)

lemma load_burst_uint [simp]: "load_burst (uint v) field = Inr v"
  by (simp add: load_burst_def)

lemma load_burst_Inr: "load_burst x field = Inr v \<Longrightarrow> x = uint v"
  by (auto simp: load_burst_def uint_try_from_Some)

lemma load_adapter_uint [simp]: "load_adapter (map_option uint v) field = Inr v"
  by (cases v) (simp_all add: load_adapter_def)

lemma le_63_storable: "(x :: u64) \<le> 63 \<Longrightarrow> uint x < 2 ^ 63"
  by (simp add: word_le_def)

lemma config_to_row_Inr_iff: "(\<exists>row. config_to_row c = Inr row) \<longleftrightarrow> storable c"
  by (auto simp: config_to_row_def storable_def profiles_def)

lemma row_roundtrip:
  assumes "config_wf c" and "config_to_row c = Inr row"
  shows "row_to_config row = Inr c"
proof -
  have "activater_from_bits (protocol_allowed c) = Some (protocol_allowed c)"
    using assms(1) by (simp add: config_wf_def)
  then show ?thesis
    using assms by (auto simp: config_to_row_def row_to_config_def config_wf_def profiles_def)
qed

lemma row_to_config_wf: "row_to_config row = Inr c \<Longrightarrow> config_wf c"
  by (auto simp: row_to_config_def config_wf_def profiles_def
      dest!: load_shift_Inr split: bind_splits)

section \<open>Properties\<close>

text \<open>
  C27: A saved configuration loads back unchanged, when its shifts are at most 63 and its protocol
  flags are declared ones; a save succeeds exactly when every number fits a SQLite INTEGER and the
  statement runs, and otherwise changes nothing.
\<close>

theorem config_roundtrip:
  assumes "config_wf c"
  shows "(fst (save_firewall_config flt c d) = Inr () \<longleftrightarrow> storable c \<and> \<not> flt SaveConfig) \<and>
    (fst (save_firewall_config flt c d) = Inr () \<longrightarrow>
       load_firewall_config no_faults (snd (save_firewall_config flt c d)) = Inr (Some c)) \<and>
    (fst (save_firewall_config flt c d) \<noteq> Inr () \<longrightarrow> snd (save_firewall_config flt c d) = d)"
proof (cases "config_to_row c")
  case (Inl e)
  then have "\<not> storable c" using config_to_row_Inr_iff [of c] by simp
  with Inl show ?thesis by (simp add: save_firewall_config_def)
next
  case (Inr row)
  then have "storable c" using config_to_row_Inr_iff [of c] by blast
  with Inr row_roundtrip [OF assms Inr] show ?thesis
    by (simp add: save_firewall_config_def load_firewall_config_def)
qed

theorem config_roundtrip_witness:
  "load_firewall_config no_faults
     (snd (save_firewall_config no_faults firewall_config_default empty_database)) =
   Inr (Some firewall_config_default)"
proof -
  have "storable firewall_config_default"
    by (simp add: storable_def profiles_def firewall_config_default_def)
  then show ?thesis using config_roundtrip [OF config_wf_default, of no_faults empty_database] by simp
qed

text \<open>
  C28: Whatever the stored row holds, a configuration the loader accepts is valid: shifts at most 63,
  only declared protocol flags; and its rate profiles are in the range of the rate bound whenever
  their bursts, being SQLite integers, are below \<open>2 ^ 63\<close>.
\<close>

theorem loaded_config_valid:
  assumes "load_firewall_config flt d = Inr (Some c)"
    and "\<forall>row. firewall_config_row_1 d = Some row \<longrightarrow>
      (\<forall>b \<in> {tcp_burst row, udp_burst row, icmp_burst row, default_burst row}. b < 2 ^ 63)"
  shows "config_wf c \<and> (\<forall>p \<in> set (profiles c). profile_ok p)"
proof -
  obtain row where row: "firewall_config_row_1 d = Some row" "row_to_config row = Inr c"
    using assms(1) by (auto simp: load_firewall_config_def split: if_splits option.splits)
  then have wf: "config_wf c" by (simp add: row_to_config_wf)
  have "\<forall>p \<in> set (profiles c). uint (burst p) < 2 ^ 63"
    using row(2) assms(2) row(1) by (auto simp: row_to_config_def profiles_def dest!: load_burst_Inr)
  then have "\<forall>p \<in> set (profiles c). unat (burst p) < 2 ^ 63"
    unfolding uint_less_pow .
  with wf show ?thesis by (simp add: config_wf_def profile_ok_def)
qed

theorem loaded_config_valid_witness: "config_wf firewall_config_default"
proof -
  have "storable firewall_config_default"
    by (simp add: storable_def profiles_def firewall_config_default_def)
  then obtain row where r: "config_to_row firewall_config_default = Inr row"
    using config_to_row_Inr_iff by blast
  let ?d = "empty_database\<lparr>firewall_config_row_1 := Some row\<rparr>"
  have "load_firewall_config no_faults ?d = Inr (Some firewall_config_default)"
    using row_roundtrip [OF config_wf_default r] by (simp add: load_firewall_config_def)
  moreover have "\<forall>b \<in> {tcp_burst row, udp_burst row, icmp_burst row, default_burst row}. b < 2 ^ 63"
    using r by (auto simp: config_to_row_def firewall_config_default_def)
  ultimately show ?thesis using loaded_config_valid [of no_faults ?d] by simp
qed

end
