(* ===== verification/Log_Store.thy ===== *)
theory Log_Store
  imports Db_Config
begin

text \<open>
  The log of the backend (\<open>LogStore\<close> of oxidrop/src/state.rs): entries are inserted into the
  database and, when that succeeds, published to the live subscribers; a periodic task deletes all
  but the newest entries. The state is the database and the feed of published entries.
\<close>

definition MAX_PERSISTED_LOGS :: nat where "MAX_PERSISTED_LOGS = 100000"
definition RECENT_LOGS :: nat where "RECENT_LOGS = 500"

record log_store =
  ls_db :: database
  ls_feed :: "log_row list"

text \<open>\<open>record_details\<close>: a failed insertion publishes nothing.\<close>

definition record_details ::
    "services \<Rightarrow> sql_faults \<Rightarrow> int \<Rightarrow> string \<Rightarrow> string \<Rightarrow> string option \<Rightarrow> string option \<Rightarrow> string option \<Rightarrow>
     u16 option \<Rightarrow> u16 option \<Rightarrow> string option \<Rightarrow> string option \<Rightarrow> log_store \<Rightarrow> log_store" where
  "record_details S flt now level message actor source_ip destination_ip source_port
       destination_port protocol action st =
     (case insert_log S flt
             \<lparr>log_id = 0, log_timestamp = now, log_level = level, log_message = message,
              log_actor = actor, log_source_ip = source_ip, log_destination_ip = destination_ip,
              log_source_port = map_option uint source_port,
              log_destination_port = map_option uint destination_port,
              log_protocol = protocol, log_action = action\<rparr> (ls_db st) of
        (Inr entry, d') \<Rightarrow> \<lparr>ls_db = d', ls_feed = ls_feed st @ [entry]\<rparr>
      | (Inl _, d') \<Rightarrow> st\<lparr>ls_db := d'\<rparr>)"

definition record_entry ::
    "services \<Rightarrow> sql_faults \<Rightarrow> int \<Rightarrow> string \<Rightarrow> string \<Rightarrow> string option \<Rightarrow> log_store \<Rightarrow> log_store" where
  "record_entry S flt now level message actor st =
     record_details S flt now level message actor None None None None None None st"

text \<open>
  One tick of \<open>prune_periodically\<close>, for a bound of \<open>n\<close> entries: the subquery is the id at offset
  \<open>n\<close> from the newest, NULL (and the comparison false) when there are no more than \<open>n\<close>.
\<close>

definition prune_logs :: "bool \<Rightarrow> nat \<Rightarrow> database \<Rightarrow> database" where
  "prune_logs stmt_fails n d =
     (let ids = rev (sort (map log_id (firewall_logs d))) in
      if stmt_fails then d
      else if length ids \<le> n then d
      else d\<lparr>firewall_logs := filter (\<lambda>r. \<not> log_id r \<le> ids ! n) (firewall_logs d)\<rparr>)"

text \<open>\<open>ORDER BY timestamp DESC, id DESC LIMIT 500\<close>.\<close>

definition recent :: "database \<Rightarrow> log_row list" where
  "recent d = take RECENT_LOGS (sort_key (\<lambda>r. (- log_timestamp r, - log_id r)) (firewall_logs d))"

text \<open>
  \<open>bpf_time_to_unix_ms\<close>: \<open>btime\<close> is the boot time of /proc/stat, in seconds, when it can be read.
\<close>

definition bpf_time_to_unix_ms :: "u64 option \<Rightarrow> u64 \<Rightarrow> int option" where
  "bpf_time_to_unix_ms btime timestamp_ns =
     (case btime of
        None \<Rightarrow> None
      | Some boot_seconds \<Rightarrow>
          (let ms = (uint boot_seconds * 1000000000 + uint timestamp_ns) div 1000000
           in if ms < 2 ^ 63 then Some ms else None))"

section \<open>Pruning and reading\<close>

lemma rev_sort_nth_split:
  assumes "distinct ids" and "n < length ids"
  shows "{i \<in> set ids. \<not> i \<le> rev (sort ids) ! n} = set (take n (rev (sort (ids :: int list))))"
proof -
  let ?s = "rev (sort ids)"
  have d: "distinct ?s" and set: "set ?s = set ids" and len: "length ?s = length ids"
    using assms(1) by simp_all
  have desc: "?s ! j \<le> ?s ! i" if "i \<le> j" "j < length ids" for i j
    using that len sorted_rev_nth_mono [of ?s i j] by simp
  have less: "?s ! j < ?s ! i" if "i < j" "j < length ids" for i j
    using desc [of i j] that d len by (metis less_le_trans less_imp_le nth_eq_iff_index_eq order_less_le)
  show ?thesis
  proof (rule set_eqI)
    fix i
    show "i \<in> {i \<in> set ids. \<not> i \<le> ?s ! n} \<longleftrightarrow> i \<in> set (take n ?s)"
    proof
      assume "i \<in> {i \<in> set ids. \<not> i \<le> ?s ! n}"
      then have "i \<in> set ?s" and gt: "?s ! n < i" by simp_all
      then obtain j where "j < length ?s" "?s ! j = i" unfolding in_set_conv_nth by blast
      with gt len have j: "j < length ids" "i = ?s ! j" "?s ! n < i" by simp_all
      then have "j < n" using desc [of n j] by (meson leD not_le_imp_less)
      with j len have "take n ?s ! j = i" "j < length (take n ?s)" by simp_all
      then show "i \<in> set (take n ?s)" by (metis nth_mem)
    next
      assume "i \<in> set (take n ?s)"
      then obtain j where "j < length (take n ?s)" "take n ?s ! j = i"
        unfolding in_set_conv_nth by blast
      then have j: "j < n" "i = ?s ! j" by simp_all
      then have "?s ! n < i" using less [of j n] assms(2) by simp
      moreover have "i \<in> set ?s" using j assms(2) len by (metis nth_mem order.strict_trans)
      ultimately show "i \<in> {i \<in> set ids. \<not> i \<le> ?s ! n}" using set by auto
    qed
  qed
qed

lemma length_filter_key:
  assumes "distinct (map f xs)"
  shows "length (filter P xs) = card (f ` {x \<in> set xs. P x})"
proof -
  have "distinct (map f (filter P xs))" using assms by (rule distinct_map_filter)
  then have "card (set (map f (filter P xs))) = length (filter P xs)"
    using distinct_card by fastforce
  then show ?thesis by simp
qed

text \<open>
  Pruning keeps exactly the newest entries: afterwards there are at most \<open>n\<close>, all of them
  former entries, and every deleted entry is older (has a smaller id) than every entry kept; the
  other tables are untouched.
\<close>

theorem prune_keeps_newest:
  assumes "unique_key log_id (firewall_logs d)"
  shows "let d' = prune_logs False n d in
    length (firewall_logs d') = min n (length (firewall_logs d)) \<and>
    set (firewall_logs d') \<subseteq> set (firewall_logs d) \<and>
    (\<forall>r \<in> set (firewall_logs d) - set (firewall_logs d'). \<forall>s \<in> set (firewall_logs d').
       log_id r < log_id s) \<and>
    d' = d\<lparr>firewall_logs := firewall_logs d'\<rparr>"
proof (cases "length (firewall_logs d) \<le> n")
  case True
  then show ?thesis by (simp add: prune_logs_def Let_def)
next
  case False
  let ?ids = "map log_id (firewall_logs d)"
  let ?kept = "filter (\<lambda>r. \<not> log_id r \<le> rev (sort ?ids) ! n) (firewall_logs d)"
  have d: "distinct ?ids" using assms by (simp add: unique_key_def)
  have n: "n < length ?ids" using False by simp
  have p: "prune_logs False n d = d\<lparr>firewall_logs := ?kept\<rparr>"
    using False by (simp add: prune_logs_def Let_def)
  have "log_id ` {r \<in> set (firewall_logs d). \<not> log_id r \<le> rev (sort ?ids) ! n} =
      {i \<in> set ?ids. \<not> i \<le> rev (sort ?ids) ! n}" by auto
  also have "\<dots> = set (take n (rev (sort ?ids)))" by (rule rev_sort_nth_split [OF d n])
  finally have "length ?kept = card (set (take n (rev (sort ?ids))))"
    by (simp only: length_filter_key [OF d])
  also have "\<dots> = n"
    using d n by (simp add: distinct_card)
  finally have "length ?kept = n" .
  then show ?thesis using False by (auto simp: p Let_def not_le)
qed

definition sample_log :: "int \<Rightarrow> log_row" where
  "sample_log i = \<lparr>log_id = i, log_timestamp = 100 + i, log_level = ''INFO'', log_message = ''entry'',
     log_actor = None, log_source_ip = None, log_destination_ip = None, log_source_port = None,
     log_destination_port = None, log_protocol = None, log_action = None\<rparr>"

theorem prune_keeps_newest_witness:
  "length (firewall_logs (prune_logs False 2
     (empty_database\<lparr>firewall_logs := [sample_log 1, sample_log 2, sample_log 3]\<rparr>))) = 2"
  using prune_keeps_newest [of "empty_database\<lparr>firewall_logs := [sample_log 1, sample_log 2, sample_log 3]\<rparr>" 2]
  by (simp add: unique_key_def sample_log_def Let_def)

end
