(* ===== verification/Db_Users.thy ===== *)
theory Db_Users
  imports Db_Config
begin

text \<open>
  The user accounts (\<open>validate_password\<close> to \<open>get_all_users\<close> of oxidrop/src/db.rs). Password hashing
  is the library's (argon2), the rowid of a new user SQLite's: the record \<open>services\<close> collects them as
  arguments of the model. The locale \<open>guarded_op\<close> is what every operation on accounts promises its
  callers; the four operations interpret it.

  A string is the sequence of its UTF-8 bytes, so its length is Rust's \<open>len\<close>; \<open>to_lowercase\<close> acts on
  the ASCII letters, which decides equality with the (ASCII) blacklist: the only characters outside
  ASCII that lower-case to an ASCII letter give a k, and no entry of at least 12 bytes has one.
\<close>

section \<open>Passwords\<close>

definition to_lowercase_char :: "char \<Rightarrow> char" where
  "to_lowercase_char c = (if 65 \<le> (of_char c :: nat) \<and> (of_char c :: nat) \<le> 90 then char_of ((of_char c :: nat) + 32) else c)"

definition to_lowercase :: "string \<Rightarrow> string" where
  "to_lowercase s = map to_lowercase_char s"

definition blacklist :: "string list" where
  "blacklist = [''password123'', ''password1234'', ''admin1234'', ''admin12345'', ''qwertyuiop'',
     ''letmein123!'', ''Winter2024!'']"

definition validate_password :: "string \<Rightarrow> (user_error, unit) result" where
  "validate_password password =
     (if length password < 12 then Inl (WeakPassword ''Password must be at least 12 characters long.'')
      else if length password > 120 then Inl (WeakPassword ''Password must not be longer than 120 characters.'')
      else if to_lowercase password \<in> set blacklist
      then Inl (WeakPassword ''Password is too common or easily guessable.'')
      else Inr ())"

section \<open>Operations\<close>

definition hash_password :: "services \<Rightarrow> string \<Rightarrow> string \<Rightarrow> (user_error, string) result" where
  "hash_password S salt password =
     (case argon_hash S salt password of Inl e \<Rightarrow> Inl (Internal e) | Inr h \<Rightarrow> Inr h)"

text \<open>\<open>INSERT INTO users\<close>: constraints first, then uniqueness of the name.\<close>

definition insert_user_row ::
    "services \<Rightarrow> sql_faults \<Rightarrow> user_row \<Rightarrow> database \<Rightarrow> (sql_error, unit) result \<times> database" where
  "insert_user_row S flt row d =
     (if flt InsertUser then (Inl SqlFailed, d)
      else if \<not> user_check row then (Inl SqlCheck, d)
      else if u_username row \<in> u_username ` set (users d) then (Inl SqlUnique, d)
      else (Inr (), d\<lparr>users := users d @ [row\<lparr>u_id := new_rowid S (map u_id (users d))\<rparr>]\<rparr>))"

definition internal_insert_user ::
    "services \<Rightarrow> sql_faults \<Rightarrow> string \<Rightarrow> string \<Rightarrow> string \<Rightarrow> roles_user \<Rightarrow> u8 \<Rightarrow> int \<Rightarrow> bool \<Rightarrow> database \<Rightarrow>
     (user_error, unit) result \<times> database" where
  "internal_insert_user S flt salt username password role action_permissions must_change_pw
       ignore_password_check d =
     (case (if ignore_password_check then Inr () else validate_password password) of
        Inl e \<Rightarrow> (Inl e, d)
      | Inr _ \<Rightarrow>
          (case hash_password S salt password of
             Inl e \<Rightarrow> (Inl e, d)
           | Inr h \<Rightarrow>
               (case insert_user_row S flt
                       \<lparr>u_id = 0, u_username = username, u_password_hash = h,
                        u_role = role_as_str role, u_action_permissions = uint action_permissions,
                        u_password_must_be_changed = must_change_pw, u_is_active = 1,
                        u_last_login_at = None\<rparr> d of
                  (Inr _, d') \<Rightarrow> (Inr (), d')
                | (Inl SqlUnique, d') \<Rightarrow> (Inl (UserExists username), d')
                | (Inl e, d') \<Rightarrow> (Inl (Database e), d'))))"

definition create_user ::
    "services \<Rightarrow> sql_faults \<Rightarrow> string \<Rightarrow> caller_context \<Rightarrow> string \<Rightarrow> string \<Rightarrow> roles_user \<Rightarrow> u8 \<Rightarrow> bool \<Rightarrow>
     database \<Rightarrow> (user_error, unit) result \<times> database" where
  "create_user S flt salt caller username password role permissions password_must_be_changed d =
     (if may caller CREATE
      then internal_insert_user S flt salt username password role permissions
             (if password_must_be_changed then 1 else 0) False d
      else (Inl LackingPermission, d))"

definition DEFAULT_ADMIN_USERNAME :: string where "DEFAULT_ADMIN_USERNAME = ''admin''"
definition DEFAULT_ADMIN_PASSWORD :: string where "DEFAULT_ADMIN_PASSWORD = ''password''"

definition create_default_admin ::
    "services \<Rightarrow> sql_faults \<Rightarrow> string \<Rightarrow> int \<Rightarrow> database \<Rightarrow> (user_error, unit) result \<times> database" where
  "create_default_admin S flt salt now d =
     (let d1 = snd (record_log S flt now ''WARN'' ''Database empty; bootstrapping default admin''
                      (Some ''system'') d);
          d2 = snd (record_log S flt now ''WARN'' ''Temporary default admin password was generated''
                      (Some ''system'') d1)
      in case internal_insert_user S flt salt DEFAULT_ADMIN_USERNAME DEFAULT_ADMIN_PASSWORD Admin
                permissions_all 1 True d2 of
           (Inr _, d') \<Rightarrow> (Inr (), d')
         | (Inl (UserExists _), d') \<Rightarrow> (Inr (), d')
         | (Inl e, d') \<Rightarrow> (Inl e, d'))"

definition bootstrap_default_admin ::
    "services \<Rightarrow> sql_faults \<Rightarrow> string \<Rightarrow> int \<Rightarrow> database \<Rightarrow> (user_error, unit) result \<times> database" where
  "bootstrap_default_admin S flt salt now d =
     (if flt CountUsers then (Inl (Database SqlFailed), d)
      else if length (users d) = 0 then create_default_admin S flt salt now d
      else (Inr (), d))"

definition delete_user ::
    "sql_faults \<Rightarrow> string \<Rightarrow> caller_context \<Rightarrow> database \<Rightarrow> (user_error, unit) result \<times> database" where
  "delete_user flt username caller d =
     (if may caller DELETE then
        if flt DeleteUser then (Inl (Database SqlFailed), d)
        else
          let rows_affected = length (filter (\<lambda>u. u_username u = username) (users d));
              d' = d\<lparr>users := sql_delete u_username username (users d)\<rparr>
          in (if rows_affected = 0 then Inl (NotFound username) else Inr (), d')
      else (Inl LackingPermission, d))"

text \<open>
  \<open>UPDATE users SET .. WHERE sel\<close>: all rows or none; the constraints of every updated row are
  checked, and the uniqueness of the names.
\<close>

definition update_users ::
    "sql_faults \<Rightarrow> sql_stmt \<Rightarrow> (user_row \<Rightarrow> bool) \<Rightarrow> (user_row \<Rightarrow> user_row) \<Rightarrow> database \<Rightarrow>
     (sql_error, nat) result \<times> database" where
  "update_users flt stmt sel f d =
     (let us = map (\<lambda>u. if sel u then f u else u) (users d) in
      if flt stmt then (Inl SqlFailed, d)
      else if \<exists>u \<in> set (users d). sel u \<and> \<not> user_check (f u) then (Inl SqlCheck, d)
      else if \<not> unique_key u_username us then (Inl SqlUnique, d)
      else (Inr (length (filter sel (users d))), d\<lparr>users := us\<rparr>))"

definition modify_user ::
    "services \<Rightarrow> sql_faults \<Rightarrow> string \<Rightarrow> caller_context \<Rightarrow> string \<Rightarrow> roles_user \<Rightarrow> u8 \<Rightarrow> int \<Rightarrow> string option \<Rightarrow>
     database \<Rightarrow> (user_error, unit) result \<times> database" where
  "modify_user S flt salt caller target_username new_role new_permissions is_active new_password d =
     (if may caller MODIFY then
        (case (case new_password of
                 None \<Rightarrow> Inr None
               | Some password \<Rightarrow>
                   result_bind (validate_password password) (\<lambda>_.
                   result_bind (hash_password S salt password) (\<lambda>h. Inr (Some h)))) of
           Inl e \<Rightarrow> (Inl e, d)
         | Inr password_hash \<Rightarrow>
             (case update_users flt UpdateUser (\<lambda>u. u_username u = target_username)
                     (\<lambda>u. u\<lparr>u_role := role_as_str new_role,
                            u_action_permissions := uint new_permissions,
                            u_is_active := is_active,
                            u_password_hash := (case password_hash of None \<Rightarrow> u_password_hash u | Some h \<Rightarrow> h),
                            u_password_must_be_changed :=
                              (if password_hash = None then u_password_must_be_changed u else 1)\<rparr>) d of
                (Inl e, d') \<Rightarrow> (Inl (Database e), d')
              | (Inr rows_affected, d') \<Rightarrow>
                  (if rows_affected = 0 then Inl (NotFound target_username) else Inr (), d')))
      else (Inl LackingPermission, d))"

text \<open>The text of a user id in an error.\<close>

definition show_id :: "int \<Rightarrow> string" where
  "show_id i = (if i < 0 then ''-'' @ show_nat (nat (- i)) else show_nat (nat i))"

definition change_password ::
    "services \<Rightarrow> sql_faults \<Rightarrow> string \<Rightarrow> int \<Rightarrow> string \<Rightarrow> database \<Rightarrow> (user_error, unit) result \<times> database" where
  "change_password S flt salt user_id password d =
     (case validate_password password of
        Inl e \<Rightarrow> (Inl e, d)
      | Inr _ \<Rightarrow>
          (case hash_password S salt password of
             Inl e \<Rightarrow> (Inl e, d)
           | Inr h \<Rightarrow>
               (case update_users flt UpdatePassword (\<lambda>u. u_id u = user_id)
                       (\<lambda>u. u\<lparr>u_password_hash := h, u_password_must_be_changed := 0\<rparr>) d of
                  (Inl e, d') \<Rightarrow> (Inl (Database e), d')
                | (Inr rows_affected, d') \<Rightarrow>
                    (if rows_affected \<noteq> 1 then Inl (NotFound (show_id user_id)) else Inr (), d'))))"

definition change_username ::
    "sql_faults \<Rightarrow> caller_context \<Rightarrow> string \<Rightarrow> string \<Rightarrow> database \<Rightarrow> (user_error, unit) result \<times> database" where
  "change_username flt caller current_username new_username d =
     (if may caller MODIFY then
        (case update_users flt RenameUser (\<lambda>u. u_username u = current_username)
                (\<lambda>u. u\<lparr>u_username := new_username\<rparr>) d of
           (Inr rows_affected, d') \<Rightarrow>
             (if rows_affected = 0 then Inl (NotFound current_username) else Inr (), d')
         | (Inl SqlUnique, d') \<Rightarrow> (Inl (UserExists new_username), d')
         | (Inl e, d') \<Rightarrow> (Inl (Database e), d'))
      else (Inl LackingPermission, d))"

text \<open>\<open>UserRow\<close>: what the administration sees of an account.\<close>

record user_info =
  i_id :: int
  i_username :: string
  i_role :: string
  i_permissions :: int
  i_is_active :: bool

definition get_all_users :: "sql_faults \<Rightarrow> database \<Rightarrow> (sql_error, user_info list) result" where
  "get_all_users flt d =
     (if flt SelectUsers then Inl SqlFailed
      else Inr (map (\<lambda>u. \<lparr>i_id = u_id u, i_username = u_username u,
                     i_role = (if u_role u = ''admin'' then ''Admin'' else ''Viewer''),
                     i_permissions = u_action_permissions u, i_is_active = u_is_active u \<noteq> 0\<rparr>)
              (sort_key u_id (users d))))"

section \<open>The contract of an operation on accounts\<close>

text \<open>The tables other than the users and the log.\<close>

definition same_policy :: "database \<Rightarrow> database \<Rightarrow> bool" where
  "same_policy d d' \<longleftrightarrow>
     firewall_config_row_1 d' = firewall_config_row_1 d \<and>
     subnet_match_v4 d' = subnet_match_v4 d \<and> subnet_match_v6 d' = subnet_match_v6 d"

lemma same_policy_refl [simp]: "same_policy d d"
  by (simp add: same_policy_def)

lemma same_policy_users [simp]: "same_policy d (d\<lparr>users := us\<rparr>)"
  by (simp add: same_policy_def)

locale guarded_op =
  fixes oper :: "caller_context \<Rightarrow> database \<Rightarrow> (user_error, unit) result \<times> database"
    and permission :: u8
    and ok :: "database \<Rightarrow> bool"
  assumes denied: "\<not> may c permission \<Longrightarrow> oper c d = (Inl LackingPermission, d)"
    and granted: "may c permission \<Longrightarrow> fst (oper c d) \<noteq> Inl LackingPermission"
    and error_unchanged: "oper c d = (Inl e, d') \<Longrightarrow> d' = d"
    and preserves: "ok d \<Longrightarrow> ok (snd (oper c d))"
    and frame: "same_policy d (snd (oper c d))"
begin

lemma lacking_iff: "fst (oper c d) = Inl LackingPermission \<longleftrightarrow> \<not> may c permission"
  using denied [of c d] granted [of c d] by auto

lemma success_needs: "fst (oper c d) = Inr () \<Longrightarrow> may c permission"
  using denied [of c d] by (cases "may c permission") auto

lemma change_needs:
  assumes "snd (oper c d) \<noteq> d"
  shows "may c permission \<and> fst (oper c d) = Inr ()"
proof -
  obtain r d' where r: "oper c d = (r, d')" by fastforce
  show ?thesis
  proof (cases r)
    case (Inl e)
    with r assms error_unchanged show ?thesis by simp
  next
    case (Inr u)
    with r success_needs [of c d] show ?thesis by simp
  qed
qed

end

section \<open>The accounts stay well-formed\<close>

lemma users_ok_append:
  assumes "users_ok us" and "user_check row" and "u_username row \<notin> u_username ` set us" and "i \<notin> u_id ` set us"
  shows "users_ok (us @ [row\<lparr>u_id := i\<rparr>])"
  using assms by (auto simp: users_ok_def unique_key_def user_check_def)

lemma users_ok_delete: "users_ok us \<Longrightarrow> users_ok (sql_delete key k us)"
  by (auto simp: users_ok_def unique_key_def sql_delete_def distinct_map_filter)

lemma update_users_Inr:
  assumes "update_users flt stmt sel f d = (Inr n, d')"
  shows "d' = d\<lparr>users := map (\<lambda>u. if sel u then f u else u) (users d)\<rparr>"
    and "n = length (filter sel (users d))"
    and "\<forall>u \<in> set (users d). sel u \<longrightarrow> user_check (f u)"
    and "unique_key u_username (users d')"
  using assms by (auto simp: update_users_def Let_def split: if_splits)

lemma update_users_Inl: "update_users flt stmt sel f d = (Inl e, d') \<Longrightarrow> d' = d"
  by (auto simp: update_users_def Let_def split: if_splits)

lemma update_users_none:
  "update_users flt stmt sel f d = (Inr 0, d') \<Longrightarrow> d' = d"
proof -
  assume u: "update_users flt stmt sel f d = (Inr 0, d')"
  then have "\<forall>u \<in> set (users d). \<not> sel u"
    using update_users_Inr(2) [OF u] by (auto simp: filter_empty_conv)
  then have "map (\<lambda>u. if sel u then f u else u) (users d) = users d" by (simp add: map_idI)
  with update_users_Inr(1) [OF u] show "d' = d" by simp
qed

lemma update_users_ok:
  assumes "update_users flt stmt sel f d = (Inr n, d')" and "users_ok (users d)"
    and "\<And>u. u_id (f u) = u_id u"
  shows "users_ok (users d')"
proof -
  note u = update_users_Inr [OF assms(1)]
  have "map u_id (map (\<lambda>u. if sel u then f u else u) (users d)) = map u_id (users d)"
    by (auto simp: assms(3))
  then have "unique_key u_id (users d')"
    using assms(2) by (simp add: u(1) users_ok_def unique_key_def del: map_map)
  with u assms(2) show ?thesis by (auto simp: users_ok_def)
qed

lemma insert_user_ok:
  assumes "services_ok S" and "users_ok (users d)"
  shows "users_ok (users (snd (insert_user_row S flt row d)))"
proof -
  have "new_rowid S (map u_id (users d)) \<notin> u_id ` set (users d)"
    using new_rowid_fresh [OF assms(1), of "map u_id (users d)"] by simp
  with assms(2) show ?thesis by (auto simp: insert_user_row_def intro!: users_ok_append)
qed

lemma internal_insert_snd:
  "snd (internal_insert_user S flt salt name pw r perms must ign d) \<in>
     {d, snd (insert_user_row S flt
            \<lparr>u_id = 0, u_username = name, u_password_hash = projr (hash_password S salt pw),
             u_role = role_as_str r, u_action_permissions = uint perms,
             u_password_must_be_changed = must, u_is_active = 1, u_last_login_at = None\<rparr> d)}"
  by (auto simp: internal_insert_user_def split: sum.split prod.split sql_error.split)

lemma internal_insert_ok:
  "services_ok S \<Longrightarrow> users_ok (users d) \<Longrightarrow>
   users_ok (users (snd (internal_insert_user S flt salt name pw r perms must ign d)))"
  using internal_insert_snd [of S flt salt name pw r perms must ign d]
  by (auto simp: insert_user_ok)

lemma insert_user_row_error: "insert_user_row S flt row d = (Inl e, d') \<Longrightarrow> d' = d"
  by (auto simp: insert_user_row_def split: if_splits)

lemma internal_insert_error:
  "internal_insert_user S flt salt name pw r perms must ign d = (Inl e, d') \<Longrightarrow> d' = d"
  by (auto simp: internal_insert_user_def dest: insert_user_row_error
      split: sum.splits prod.splits sql_error.splits if_splits)

lemma validate_password_error: "validate_password pw = Inl e \<Longrightarrow> \<exists>t. e = WeakPassword t"
  by (auto simp: validate_password_def split: if_splits)

lemma hash_password_error: "hash_password S salt pw = Inl e \<Longrightarrow> \<exists>t. e = Internal t"
  by (auto simp: hash_password_def split: sum.splits)

lemma internal_insert_not_lacking:
  "fst (internal_insert_user S flt salt name pw r perms must ign d) \<noteq> Inl LackingPermission"
  by (auto simp: internal_insert_user_def dest: validate_password_error hash_password_error
      split: sum.splits prod.splits sql_error.splits if_splits)

lemma same_policy_update: "update_users flt stmt sel f d = (r, d') \<Longrightarrow> same_policy d d'"
  by (auto simp: update_users_def Let_def split: if_splits)

lemma same_policy_insert:
  "same_policy d (snd (internal_insert_user S flt salt name pw r perms must ign d))"
  using internal_insert_snd [of S flt salt name pw r perms must ign d]
  by (auto simp: insert_user_row_def)

definition accounts_ok :: "services \<Rightarrow> database \<Rightarrow> bool" where
  "accounts_ok S d \<longleftrightarrow> services_ok S \<longrightarrow> users_ok (users d)"

interpretation create_op: guarded_op
  "\<lambda>c d. create_user S flt salt c name pw r perms must d" CREATE "accounts_ok S"
  for S flt salt name pw r perms must
  by unfold_locales
    (auto simp: create_user_def accounts_ok_def internal_insert_ok internal_insert_not_lacking
      same_policy_insert dest: internal_insert_error split: if_splits)

interpretation delete_op: guarded_op "\<lambda>c d. delete_user flt name c d" DELETE "accounts_ok S"
  for S flt name
proof
  fix c d e d'
  assume "delete_user flt name c d = (Inl e, d')"
  then show "d' = d"
    by (auto simp: delete_user_def Let_def sql_delete_def filter_empty_conv split: if_splits)
qed (auto simp: delete_user_def accounts_ok_def Let_def users_ok_delete)

lemma modify_user_cases:
  "modify_user S flt salt c name r perms act pw d =
     (if \<not> may c MODIFY then (Inl LackingPermission, d)
      else case (case pw of None \<Rightarrow> Inr None
                 | Some password \<Rightarrow> result_bind (validate_password password) (\<lambda>_.
                     result_bind (hash_password S salt password) (\<lambda>h. Inr (Some h)))) of
        Inl e \<Rightarrow> (Inl e, d)
      | Inr h \<Rightarrow>
          (case update_users flt UpdateUser (\<lambda>u. u_username u = name)
             (\<lambda>u. u\<lparr>u_role := role_as_str r, u_action_permissions := uint perms, u_is_active := act,
                u_password_hash := (case h of None \<Rightarrow> u_password_hash u | Some h \<Rightarrow> h),
                u_password_must_be_changed :=
                  (if h = None then u_password_must_be_changed u else 1)\<rparr>) d of
             (Inl e, d') \<Rightarrow> (Inl (Database e), d')
           | (Inr n, d') \<Rightarrow> (if n = 0 then Inl (NotFound name) else Inr (), d')))"
  by (simp add: modify_user_def)

lemma modify_user_steps:
  obtains (denied) "\<not> may c MODIFY" "modify_user S flt salt c name r perms act pw d = (Inl LackingPermission, d)"
  | (weak) t where "may c MODIFY" "modify_user S flt salt c name r perms act pw d = (Inl t, d)" "t \<noteq> LackingPermission"
  | (failed) e where "may c MODIFY" "modify_user S flt salt c name r perms act pw d = (Inl (Database e), d)"
  | (unknown) "may c MODIFY" "modify_user S flt salt c name r perms act pw d = (Inl (NotFound name), d)"
  | (success) h n d' where "may c MODIFY" "modify_user S flt salt c name r perms act pw d = (Inr (), d')"
    "update_users flt UpdateUser (\<lambda>u. u_username u = name)
       (\<lambda>u. u\<lparr>u_role := role_as_str r, u_action_permissions := uint perms, u_is_active := act,
          u_password_hash := (case h of None \<Rightarrow> u_password_hash u | Some h \<Rightarrow> h),
          u_password_must_be_changed := (if h = None then u_password_must_be_changed u else 1)\<rparr>) d = (Inr n, d')"
    "0 < n" "h = None \<longleftrightarrow> pw = None" "\<And>p. pw = Some p \<Longrightarrow> hash_password S salt p = Inr (the h)"
    "\<And>p. pw = Some p \<Longrightarrow> validate_password p = Inr ()"
proof (cases "may c MODIFY")
  case True
  let ?h = "case pw of None \<Rightarrow> Inr None
    | Some password \<Rightarrow> result_bind (validate_password password) (\<lambda>_.
        result_bind (hash_password S salt password) (\<lambda>h. Inr (Some h)))"
  show thesis
  proof (cases ?h)
    case (Inl t)
    then have "t \<noteq> LackingPermission"
      by (auto dest: validate_password_error hash_password_error split: option.splits)
    with Inl True show thesis by (intro weak [of t]) (simp_all add: modify_user_cases)
  next
    case (Inr h)
    have h: "h = None \<longleftrightarrow> pw = None" "\<And>p. pw = Some p \<Longrightarrow> hash_password S salt p = Inr (the h)"
      "\<And>p. pw = Some p \<Longrightarrow> validate_password p = Inr ()"
      using Inr by (auto split: option.splits)
    let ?u = "update_users flt UpdateUser (\<lambda>u. u_username u = name)
       (\<lambda>u. u\<lparr>u_role := role_as_str r, u_action_permissions := uint perms, u_is_active := act,
          u_password_hash := (case h of None \<Rightarrow> u_password_hash u | Some h \<Rightarrow> h),
          u_password_must_be_changed := (if h = None then u_password_must_be_changed u else 1)\<rparr>) d"
    obtain q d' where u: "?u = (q, d')" by fastforce
    show thesis
    proof (cases q)
      case (Inl e)
      with u update_users_Inl [of flt UpdateUser] True Inr show thesis
        by (intro failed [of e]) (simp_all add: modify_user_cases)
    next
      case q: (Inr n)
      show thesis
      proof (cases n)
        case 0
        with u q update_users_none True Inr show thesis
          by (intro unknown) (auto simp: modify_user_cases)
      next
        case (Suc k)
        with u q True Inr h show thesis by (intro success [of d' h n]) (simp_all add: modify_user_cases)
      qed
    qed
  qed
qed (simp add: modify_user_cases denied)

interpretation modify_op: guarded_op
  "\<lambda>c d. modify_user S flt salt c name r perms act pw d" MODIFY "accounts_ok S"
  for S flt salt name r perms act pw
proof
  fix c d
  note cases = modify_user_steps [of c S flt salt name r perms act pw d]
  show "\<not> may c MODIFY \<Longrightarrow> modify_user S flt salt c name r perms act pw d = (Inl LackingPermission, d)"
    by (cases rule: cases) simp_all
  show "may c MODIFY \<Longrightarrow> fst (modify_user S flt salt c name r perms act pw d) \<noteq> Inl LackingPermission"
    by (cases rule: cases) simp_all
  show "d' = d" if "modify_user S flt salt c name r perms act pw d = (Inl e, d')" for e d'
    using that by (cases rule: cases) simp_all
  show "accounts_ok S (snd (modify_user S flt salt c name r perms act pw d))" if "accounts_ok S d"
    using that by (cases rule: cases) (auto simp: accounts_ok_def elim!: update_users_ok)
  show "same_policy d (snd (modify_user S flt salt c name r perms act pw d))"
    by (cases rule: cases) (auto dest: same_policy_update)
qed

lemma rename_cases:
  obtains (denied) "\<not> may c MODIFY" "change_username flt c old new d = (Inl LackingPermission, d)"
  | (failed) e where "may c MODIFY" "change_username flt c old new d = (Inl e, d)" "e \<noteq> LackingPermission"
  | (success) n d' where "may c MODIFY" "change_username flt c old new d = (Inr (), d')"
    "update_users flt RenameUser (\<lambda>u. u_username u = old) (\<lambda>u. u\<lparr>u_username := new\<rparr>) d = (Inr n, d')"
    "0 < n"
proof (cases "may c MODIFY")
  case True
  obtain q d' where u:
    "update_users flt RenameUser (\<lambda>u. u_username u = old) (\<lambda>u. u\<lparr>u_username := new\<rparr>) d = (q, d')"
    by fastforce
  show thesis
  proof (cases q)
    case (Inl e)
    with u update_users_Inl [of flt RenameUser] True show thesis
      by (cases e) (auto intro!: failed simp: change_username_def)
  next
    case (Inr n)
    with u True update_users_none show thesis
      by (cases n) (auto intro: failed success simp: change_username_def)
  qed
qed (simp add: change_username_def denied)

interpretation rename_op: guarded_op "\<lambda>c d. change_username flt c old new d" MODIFY "accounts_ok S"
  for S flt old new
proof
  fix c d
  note cases = rename_cases [of c flt old new d]
  show "\<not> may c MODIFY \<Longrightarrow> change_username flt c old new d = (Inl LackingPermission, d)"
    by (cases rule: cases) simp_all
  show "may c MODIFY \<Longrightarrow> fst (change_username flt c old new d) \<noteq> Inl LackingPermission"
    by (cases rule: cases) simp_all
  show "d' = d" if "change_username flt c old new d = (Inl e, d')" for e d'
    using that by (cases rule: cases) simp_all
  show "accounts_ok S (snd (change_username flt c old new d))" if "accounts_ok S d"
    using that by (cases rule: cases) (auto simp: accounts_ok_def elim!: update_users_ok)
  show "same_policy d (snd (change_username flt c old new d))"
    by (cases rule: cases) (auto dest: same_policy_update)
qed

section \<open>Password change and bootstrap\<close>

lemma change_password_users_ok:
  "users_ok (users d) \<Longrightarrow> users_ok (users (snd (change_password S flt salt uid pw d)))"
  by (auto simp: change_password_def elim!: update_users_ok dest: update_users_Inl
      split: sum.split prod.split)

lemma change_password_policy: "same_policy d (snd (change_password S flt salt uid pw d))"
  by (auto simp: change_password_def dest: same_policy_update split: sum.split prod.split)

lemma internal_insert_logs:
  "firewall_logs (snd (internal_insert_user S flt salt name pw r perms must ign d)) = firewall_logs d"
  using internal_insert_snd [of S flt salt name pw r perms must ign d]
  by (auto simp: insert_user_row_def)

text \<open>The database in which the bootstrap inserts: its two log entries come first.\<close>

definition bootstrap_logged :: "services \<Rightarrow> sql_faults \<Rightarrow> int \<Rightarrow> database \<Rightarrow> database" where
  "bootstrap_logged S flt now d =
     snd (record_log S flt now ''WARN'' ''Temporary default admin password was generated''
       (Some ''system'') (snd (record_log S flt now ''WARN''
         ''Database empty; bootstrapping default admin'' (Some ''system'') d)))"

lemma bootstrap_snd:
  "snd (bootstrap_default_admin S flt salt now d) =
     (if flt CountUsers \<or> users d \<noteq> [] then d
      else snd (internal_insert_user S flt salt DEFAULT_ADMIN_USERNAME DEFAULT_ADMIN_PASSWORD Admin
             permissions_all 1 True (bootstrap_logged S flt now d)))"
  by (simp add: bootstrap_default_admin_def create_default_admin_def bootstrap_logged_def Let_def
      case_prod_unfold split: sum.split user_error.split)

lemma bootstrap_logged_users [simp]: "users (bootstrap_logged S flt now d) = users d"
  by (simp add: bootstrap_logged_def)

lemma bootstrap_users_ok:
  "services_ok S \<Longrightarrow> users_ok (users d) \<Longrightarrow> users_ok (users (snd (bootstrap_default_admin S flt salt now d)))"
  by (auto simp: bootstrap_snd intro!: internal_insert_ok)

lemma bootstrap_policy: "same_policy d (snd (bootstrap_default_admin S flt salt now d))"
  using same_policy_insert [of "bootstrap_logged S flt now d" S flt salt]
  by (simp add: bootstrap_snd same_policy_def bootstrap_logged_def)

lemma bootstrap_nonempty:
  assumes "bootstrap_default_admin S flt salt now d = (Inr (), d')"
  shows "users d' \<noteq> []"
  using assms
  by (auto simp: bootstrap_default_admin_def create_default_admin_def internal_insert_user_def
      insert_user_row_def Let_def dest: hash_password_error
      split: if_splits sum.splits prod.splits user_error.splits sql_error.splits)

end
