(* ===== verification/Db_Subnet.thy ===== *)
theory Db_Subnet
  imports Database
begin

text \<open>
  The subnet tables of the database (\<open>list_subnet_v4\<close> to \<open>delete_subnet_v6\<close> of oxidrop/src/db.rs).
  The locale \<open>subnet_store\<close> is what the handlers and the startup rely on: a finite map from
  (network, prefix length) to an action, guarded by permissions; both tables interpret it.
\<close>

definition subnet_action :: "int \<Rightarrow> (user_error, action) result" where
  "subnet_action v =
     (if v = 0 then Inr Allow else if v = 1 then Inr Deny
      else Inl (Internal ''invalid subnet action''))"

definition require_subnet_permission :: "caller_context \<Rightarrow> u8 \<Rightarrow> (user_error, unit) result" where
  "require_subnet_permission caller permission =
     (if may caller permission then Inr () else Inl LackingPermission)"

text \<open>\<open>action as i64\<close>.\<close>

definition action_as_int :: "action \<Rightarrow> int" where
  "action_as_int a = int (action_code a)"

lemma subnet_action_as_int [simp]: "subnet_action (action_as_int a) = Inr a"
  by (cases a) (simp_all add: subnet_action_def action_as_int_def)

section \<open>The tables\<close>

definition decode_subnet_v4 :: "subnet_v4_row \<Rightarrow> (user_error, u32 \<times> u32 \<times> action) result" where
  "decode_subnet_v4 row =
     result_bind (ok_or (Internal ''invalid IPv4 subnet network'') (uint_try_from (network4 row))) (\<lambda>network.
     result_bind (ok_or (Internal ''invalid IPv4 prefix length'') (uint_try_from (prefix_len4 row))) (\<lambda>prefix_len.
     result_bind (subnet_action (action4 row)) (\<lambda>action.
     Inr (network, prefix_len, action))))"

definition list_subnet_v4 ::
    "sql_faults \<Rightarrow> database \<Rightarrow> (user_error, (u32 \<times> u32 \<times> action) list) result" where
  "list_subnet_v4 flt d =
     (if flt ListSubnetV4 then Inl (Database SqlFailed)
      else collect_results (map decode_subnet_v4
             (sort_key (\<lambda>r. (- prefix_len4 r, network4 r)) (subnet_match_v4 d))))"

text \<open>The words of the zipped chunks; a word without a chunk stays zero.\<close>

definition chunk_word :: "u8 list list \<Rightarrow> nat \<Rightarrow> u32" where
  "chunk_word chunks i = (if i < length chunks then from_be_bytes32 (chunks ! i) else 0)"

definition decode_subnet_v6 :: "subnet_v6_row \<Rightarrow> (user_error, words4 \<times> u32 \<times> action) result" where
  "decode_subnet_v6 row =
     (if length (network6 row) \<noteq> 16 then Inl (Internal ''invalid IPv6 subnet network'')
      else
        let (chunks, _) = as_chunks4 (network6 row);
            network = (chunk_word chunks 0, chunk_word chunks 1, chunk_word chunks 2, chunk_word chunks 3)
        in result_bind (ok_or (Internal ''invalid IPv6 prefix length'') (uint_try_from (prefix_len6 row))) (\<lambda>prefix_len.
           result_bind (subnet_action (action6 row)) (\<lambda>action.
           Inr (network, prefix_len, action))))"

definition list_subnet_v6 ::
    "sql_faults \<Rightarrow> database \<Rightarrow> (user_error, (words4 \<times> u32 \<times> action) list) result" where
  "list_subnet_v6 flt d =
     (if flt ListSubnetV6 then Inl (Database SqlFailed)
      else collect_results (map decode_subnet_v6
             (sort_key (\<lambda>r. (- prefix_len6 r, network6 r)) (subnet_match_v6 d))))"

definition encode_subnet_v4 :: "u32 \<Rightarrow> u32 \<Rightarrow> action \<Rightarrow> subnet_v4_row" where
  "encode_subnet_v4 network prefix_len action =
     \<lparr>network4 = uint network, prefix_len4 = uint prefix_len, action4 = action_as_int action\<rparr>"

definition encode_subnet_v6 :: "words4 \<Rightarrow> u32 \<Rightarrow> action \<Rightarrow> subnet_v6_row" where
  "encode_subnet_v6 network prefix_len action =
     \<lparr>network6 = ipv6_network_bytes network, prefix_len6 = uint prefix_len, action6 = action_as_int action\<rparr>"

definition save_subnet_v4 ::
    "sql_faults \<Rightarrow> caller_context \<Rightarrow> u32 \<Rightarrow> u32 \<Rightarrow> action \<Rightarrow> database \<Rightarrow>
     (user_error, unit) result \<times> database" where
  "save_subnet_v4 flt caller network prefix_len action d =
     (case require_subnet_permission caller MODIFY of
        Inl e \<Rightarrow> (Inl e, d)
      | Inr _ \<Rightarrow>
          let row = encode_subnet_v4 network prefix_len action in
          if flt SaveSubnetV4 then (Inl (Database SqlFailed), d)
          else if \<not> subnet_v4_check row then (Inl (Database SqlCheck), d)
          else (Inr (), d\<lparr>subnet_match_v4 := sql_upsert key4 row (subnet_match_v4 d)\<rparr>))"

definition save_subnet_v6 ::
    "sql_faults \<Rightarrow> caller_context \<Rightarrow> words4 \<Rightarrow> u32 \<Rightarrow> action \<Rightarrow> database \<Rightarrow>
     (user_error, unit) result \<times> database" where
  "save_subnet_v6 flt caller network prefix_len action d =
     (case require_subnet_permission caller MODIFY of
        Inl e \<Rightarrow> (Inl e, d)
      | Inr _ \<Rightarrow>
          let row = encode_subnet_v6 network prefix_len action in
          if flt SaveSubnetV6 then (Inl (Database SqlFailed), d)
          else if \<not> subnet_v6_check row then (Inl (Database SqlCheck), d)
          else (Inr (), d\<lparr>subnet_match_v6 := sql_upsert key6 row (subnet_match_v6 d)\<rparr>))"

definition delete_subnet_v4 ::
    "sql_faults \<Rightarrow> caller_context \<Rightarrow> u32 \<Rightarrow> u32 \<Rightarrow> database \<Rightarrow> (user_error, unit) result \<times> database" where
  "delete_subnet_v4 flt caller network prefix_len d =
     (case require_subnet_permission caller DELETE of
        Inl e \<Rightarrow> (Inl e, d)
      | Inr _ \<Rightarrow>
          if flt DeleteSubnetV4 then (Inl (Database SqlFailed), d)
          else (Inr (), d\<lparr>subnet_match_v4 :=
                  sql_delete key4 (uint network, uint prefix_len) (subnet_match_v4 d)\<rparr>))"

definition delete_subnet_v6 ::
    "sql_faults \<Rightarrow> caller_context \<Rightarrow> words4 \<Rightarrow> u32 \<Rightarrow> database \<Rightarrow> (user_error, unit) result \<times> database" where
  "delete_subnet_v6 flt caller network prefix_len d =
     (case require_subnet_permission caller DELETE of
        Inl e \<Rightarrow> (Inl e, d)
      | Inr _ \<Rightarrow>
          if flt DeleteSubnetV6 then (Inl (Database SqlFailed), d)
          else (Inr (), d\<lparr>subnet_match_v6 :=
                  sql_delete key6 (ipv6_network_bytes network, uint prefix_len) (subnet_match_v6 d)\<rparr>))"

lemma uint_eq_iff: "uint (v :: 'a::len word) = uint w \<longleftrightarrow> v = w"
  by (metis word_of_int_uint)

section \<open>Encoded tables\<close>

text \<open>A table of encoded rows, as the finite map it stands for.\<close>

definition codec_ok ::
    "('n \<Rightarrow> u32 \<Rightarrow> action \<Rightarrow> 'r) \<Rightarrow> ('r \<Rightarrow> 'k) \<Rightarrow> nat \<Rightarrow> 'r list \<Rightarrow> bool" where
  "codec_ok enc key width tbl \<longleftrightarrow>
     unique_key key tbl \<and> (\<forall>r \<in> set tbl. \<exists>n p a. r = enc n p a \<and> unat p \<le> width)"

definition codec_table ::
    "('n \<Rightarrow> u32 \<Rightarrow> action \<Rightarrow> 'r) \<Rightarrow> 'r list \<Rightarrow> 'n \<times> u32 \<Rightarrow> action option" where
  "codec_table enc tbl = (\<lambda>(n, p).
     if enc n p Allow \<in> set tbl then Some Allow
     else if enc n p Deny \<in> set tbl then Some Deny else None)"

locale row_codec =
  fixes enc :: "'n \<Rightarrow> u32 \<Rightarrow> action \<Rightarrow> 'r"
    and dec :: "'r \<Rightarrow> (user_error, 'n \<times> u32 \<times> action) result"
    and key :: "'r \<Rightarrow> 'k"
    and kk :: "'n \<Rightarrow> u32 \<Rightarrow> 'k"
    and order :: "'r \<Rightarrow> int \<times> ('o :: linorder)"
  assumes dec_enc: "dec (enc n p a) = Inr (n, p, a)"
    and key_enc: "key (enc n p a) = kk n p"
    and kk_inj: "kk n p = kk n' p' \<Longrightarrow> n = n' \<and> p = p'"
    and order_enc: "fst (order (enc n p a)) = - uint p"
begin

lemma enc_inj: "enc n p a = enc n' p' a' \<longleftrightarrow> n = n' \<and> p = p' \<and> a = a'"
  by (metis dec_enc prod.inject sum.inject(2))

lemma kk_eq: "kk n p = kk n' p' \<longleftrightarrow> n = n' \<and> p = p'"
  by (metis kk_inj)

lemma table_Some:
  assumes "unique_key key tbl"
  shows "codec_table enc tbl (n, p) = Some a \<longleftrightarrow> enc n p a \<in> set tbl"
proof -
  have "b = c" if "enc n p b \<in> set tbl" "enc n p c \<in> set tbl" for b c
    using assms that unfolding unique_key_def distinct_map
    by (metis enc_inj inj_on_contraD key_enc)
  then show ?thesis by (cases a) (auto simp: codec_table_def)
qed

lemma table_upsert: "codec_table enc (sql_upsert key (enc n p a) tbl) = (codec_table enc tbl)((n, p) \<mapsto> a)"
  by (cases a) (auto simp: codec_table_def fun_eq_iff sql_simps enc_inj key_enc kk_eq)

lemma table_delete: "codec_table enc (sql_delete key (kk n p) tbl) = (codec_table enc tbl)((n, p) := None)"
  by (auto simp: codec_table_def fun_eq_iff sql_simps key_enc kk_eq)

lemma ok_upsert:
  "codec_ok enc key width tbl \<Longrightarrow> unat p \<le> width \<Longrightarrow>
   codec_ok enc key width (sql_upsert key (enc n p a) tbl)"
  by (auto simp: codec_ok_def sql_simps)

lemma ok_delete: "codec_ok enc key width tbl \<Longrightarrow> codec_ok enc key width (sql_delete key k tbl)"
  by (auto simp: codec_ok_def sql_simps)

lemma listing:
  assumes "codec_ok enc key width tbl"
  obtains xs where "collect_results (map dec (sort_key order tbl)) = Inr xs"
    and "distinct (map (\<lambda>(n, p, a). (n, p)) xs)"
    and "\<And>n p a. (n, p, a) \<in> set xs \<longleftrightarrow> codec_table enc tbl (n, p) = Some a"
    and "sorted_wrt (\<lambda>x y. fst (snd y) \<le> fst (snd x)) xs"
    and "\<And>n p a. (n, p, a) \<in> set xs \<Longrightarrow> unat p \<le> width"
proof -
  let ?f = "\<lambda>r. projr (dec r)" and ?rows = "sort_key order tbl"
  have rows: "\<exists>n p a. r = enc n p a \<and> unat p \<le> width" if "r \<in> set ?rows" for r
    using assms that by (auto simp: codec_ok_def)
  have u: "unique_key key tbl" using assms by (simp add: codec_ok_def)
  have "collect_results (map dec ?rows) = Inr (map ?f ?rows)"
    using rows by (intro collect_results_all_Inr) (metis dec_enc sum.sel(2))
  moreover have mem: "(n, p, a) \<in> set (map ?f ?rows) \<longleftrightarrow> codec_table enc tbl (n, p) = Some a" for n p a
  proof
    assume "(n, p, a) \<in> set (map ?f ?rows)"
    then obtain r where r: "r \<in> set ?rows" "?f r = (n, p, a)" by auto
    with rows obtain n' p' a' where "r = enc n' p' a'" by blast
    with r show "codec_table enc tbl (n, p) = Some a" by (simp add: table_Some [OF u] dec_enc)
  next
    assume "codec_table enc tbl (n, p) = Some a"
    then have "enc n p a \<in> set ?rows" by (simp add: table_Some [OF u])
    then have "?f (enc n p a) \<in> ?f ` set ?rows" by (rule imageI)
    then show "(n, p, a) \<in> set (map ?f ?rows)" by (simp add: dec_enc)
  qed
  moreover have "distinct (map (\<lambda>(n, p, a). (n, p)) (map ?f ?rows))"
  proof -
    have "distinct (map key ?rows)"
      using u by (simp add: unique_key_def distinct_map)
    moreover have "map key ?rows = map (\<lambda>(n, p). kk n p) (map (\<lambda>(n, p, a). (n, p)) (map ?f ?rows))"
      unfolding map_map
    proof (rule map_cong [OF refl])
      fix r assume "r \<in> set ?rows"
      with rows obtain n p a where "r = enc n p a" by blast
      then show "key r = ((\<lambda>(n, p). kk n p) \<circ> ((\<lambda>(n, p, a). (n, p)) \<circ> ?f)) r"
        by (simp add: key_enc dec_enc)
    qed
    ultimately show ?thesis by (metis distinct_map)
  qed
  moreover have "sorted_wrt (\<lambda>x y. fst (snd y) \<le> fst (snd x)) (map ?f ?rows)"
  proof -
    have "sorted_wrt (\<lambda>r s. order r \<le> order s) ?rows"
      using sorted_sort_key [of order tbl] by (simp add: sorted_map)
    then show ?thesis unfolding sorted_wrt_map
    proof (rule sorted_wrt_mono_rel [rotated])
      fix r s assume rs: "r \<in> set ?rows" "s \<in> set ?rows" "order r \<le> order s"
      from rs(1,2) obtain n p a n' p' a' where e: "r = enc n p a" "s = enc n' p' a'"
        using rows by metis
      with rs(3) have "- uint p \<le> - uint p'"
        using order_enc [of n p a] order_enc [of n' p' a'] by (auto simp: less_eq_prod_def)
      with e show "fst (snd (?f s)) \<le> fst (snd (?f r))" by (simp add: dec_enc word_le_def)
    qed
  qed
  moreover have "unat p \<le> width" if "(n, p, a) \<in> set (map ?f ?rows)" for n p a
  proof -
    from that have "codec_table enc tbl (n, p) = Some a" by (simp only: mem)
    then have "enc n p a \<in> set ?rows" by (simp add: table_Some [OF u])
    from rows [OF this] show ?thesis by (auto simp: enc_inj)
  qed
  ultimately show thesis using that by blast
qed

end

interpretation codec4: row_codec encode_subnet_v4 decode_subnet_v4 key4
  "\<lambda>n p. (uint n, uint p)" "\<lambda>r. (- prefix_len4 r, network4 r)"
  by unfold_locales (auto simp: encode_subnet_v4_def decode_subnet_v4_def key4_def uint_eq_iff)

lemma chunk_words_of_bytes:
  "length bs = 16 \<Longrightarrow> ipv6_network_bytes
     (chunk_word (fst (as_chunks4 bs)) 0, chunk_word (fst (as_chunks4 bs)) 1,
      chunk_word (fst (as_chunks4 bs)) 2, chunk_word (fst (as_chunks4 bs)) 3) = bs"
  by (auto simp: as_chunks4_16 chunk_word_def numeral_eq_Suc length_Suc_conv)

lemma decode_encode_v6: "decode_subnet_v6 (encode_subnet_v6 n p a) = Inr (n, p, a)"
proof -
  have "(chunk_word (fst (as_chunks4 (ipv6_network_bytes n))) 0,
      chunk_word (fst (as_chunks4 (ipv6_network_bytes n))) 1,
      chunk_word (fst (as_chunks4 (ipv6_network_bytes n))) 2,
      chunk_word (fst (as_chunks4 (ipv6_network_bytes n))) 3) = n"
    using chunk_words_of_bytes [of "ipv6_network_bytes n"] by (simp only: ipv6_network_bytes_inject length_ipv6_network_bytes)
  then show ?thesis
    by (simp add: decode_subnet_v6_def encode_subnet_v6_def case_prod_unfold Let_def)
qed

interpretation codec6: row_codec encode_subnet_v6 decode_subnet_v6 key6
  "\<lambda>n p. (ipv6_network_bytes n, uint p)" "\<lambda>r. (- prefix_len6 r, network6 r)"
  proof
  show "decode_subnet_v6 (encode_subnet_v6 n p a) = Inr (n, p, a)" for n p a
    by (rule decode_encode_v6)
qed (simp_all add: encode_subnet_v6_def key6_def uint_eq_iff)

section \<open>The contract of the subnet store\<close>

definition subnet_table_v4 :: "database \<Rightarrow> u32 \<times> u32 \<Rightarrow> action option" where
  "subnet_table_v4 d = codec_table encode_subnet_v4 (subnet_match_v4 d)"

definition subnet_table_v6 :: "database \<Rightarrow> words4 \<times> u32 \<Rightarrow> action option" where
  "subnet_table_v6 d = codec_table encode_subnet_v6 (subnet_match_v6 d)"

definition subnet_ok_v4 :: "database \<Rightarrow> bool" where
  "subnet_ok_v4 d \<longleftrightarrow> codec_ok encode_subnet_v4 key4 32 (subnet_match_v4 d)"

definition subnet_ok_v6 :: "database \<Rightarrow> bool" where
  "subnet_ok_v6 d \<longleftrightarrow> codec_ok encode_subnet_v6 key6 128 (subnet_match_v6 d)"

text \<open>What a listing returns: every entry once, the longest prefixes first.\<close>

definition lists_table :: "('n \<times> u32 \<times> action) list \<Rightarrow> ('n \<times> u32 \<Rightarrow> action option) \<Rightarrow> bool" where
  "lists_table xs t \<longleftrightarrow>
     distinct (map (\<lambda>(n, p, a). (n, p)) xs) \<and>
     (\<forall>n p a. (n, p, a) \<in> set xs \<longleftrightarrow> t (n, p) = Some a) \<and>
     sorted_wrt (\<lambda>x y. fst (snd y) \<le> fst (snd x)) xs"

locale subnet_store =
  fixes list_op :: "sql_faults \<Rightarrow> database \<Rightarrow> (user_error, ('n \<times> u32 \<times> action) list) result"
    and save_op :: "sql_faults \<Rightarrow> caller_context \<Rightarrow> 'n \<Rightarrow> u32 \<Rightarrow> action \<Rightarrow> database \<Rightarrow>
      (user_error, unit) result \<times> database"
    and delete_op :: "sql_faults \<Rightarrow> caller_context \<Rightarrow> 'n \<Rightarrow> u32 \<Rightarrow> database \<Rightarrow>
      (user_error, unit) result \<times> database"
    and table :: "database \<Rightarrow> 'n \<times> u32 \<Rightarrow> action option"
    and ok :: "database \<Rightarrow> bool"
    and width :: nat
    and list_stmt :: sql_stmt and save_stmt :: sql_stmt and delete_stmt :: sql_stmt
  assumes save_iff: "fst (save_op flt c n p a d) = Inr () \<longleftrightarrow>
      may c MODIFY \<and> \<not> flt save_stmt \<and> unat p \<le> width"
    and save_error: "save_op flt c n p a d = (Inl e, d') \<Longrightarrow> d' = d"
    and save_table: "save_op flt c n p a d = (Inr u, d') \<Longrightarrow> table d' = (table d)((n, p) \<mapsto> a)"
    and save_ok: "save_op flt c n p a d = (Inr u, d') \<Longrightarrow> ok d \<Longrightarrow> ok d'"
    and delete_iff: "fst (delete_op flt c n p d) = Inr () \<longleftrightarrow> may c DELETE \<and> \<not> flt delete_stmt"
    and delete_error: "delete_op flt c n p d = (Inl e, d') \<Longrightarrow> d' = d"
    and delete_table: "delete_op flt c n p d = (Inr u, d') \<Longrightarrow> table d' = (table d)((n, p) := None)"
    and delete_ok: "delete_op flt c n p d = (Inr u, d') \<Longrightarrow> ok d \<Longrightarrow> ok d'"
    and list_ok: "ok d \<Longrightarrow> \<not> flt list_stmt \<Longrightarrow>
      \<exists>xs. list_op flt d = Inr xs \<and> lists_table xs (table d)"
    and list_fails: "flt list_stmt \<Longrightarrow> list_op flt d = Inl (Database SqlFailed)"
begin

lemma save_preserves: "ok d \<Longrightarrow> ok (snd (save_op flt c n p a d))"
  using save_ok save_error by (cases "save_op flt c n p a d"; cases "fst (save_op flt c n p a d)") fastforce+

lemma delete_preserves: "ok d \<Longrightarrow> ok (snd (delete_op flt c n p d))"
  using delete_ok delete_error by (cases "delete_op flt c n p d"; cases "fst (delete_op flt c n p d)") fastforce+

lemma save_lists:
  assumes "ok d" and "save_op flt c n p a d = (Inr u, d')"
  shows "\<exists>xs. list_op no_faults d' = Inr xs \<and> lists_table xs ((table d)((n, p) \<mapsto> a))"
  using list_ok [OF save_ok [OF assms(2,1)], of no_faults] save_table [OF assms(2)] by simp

lemma delete_lists:
  assumes "ok d" and "delete_op flt c n p d = (Inr u, d')"
  shows "\<exists>xs. list_op no_faults d' = Inr xs \<and> lists_table xs ((table d)((n, p) := None))"
  using list_ok [OF delete_ok [OF assms(2,1)], of no_faults] delete_table [OF assms(2)] by simp

lemma save_needs: "save_op flt c n p a d = (Inr u, d') \<Longrightarrow> may c MODIFY \<and> unat p \<le> width"
  using save_iff [of flt c n p a d] by simp

lemma delete_needs: "delete_op flt c n p d = (Inr u, d') \<Longrightarrow> may c DELETE"
  using delete_iff [of flt c n p d] by simp

end

lemma uint_le_unat: "uint (p :: 'a::len word) \<le> int n \<longleftrightarrow> unat p \<le> n"
  by (metis of_nat_le_iff uint_nat)

declare ipv6_network_bytes.simps [simp del]

lemma subnet_check_encode [simp]:
  "subnet_v4_check (encode_subnet_v4 n p a) \<longleftrightarrow> unat p \<le> 32"
  "subnet_v6_check (encode_subnet_v6 n6 p a) \<longleftrightarrow> unat p \<le> 128"
  using uint_le_unat [of p 32] uint_le_unat [of p 128]
  by (cases a; simp add: subnet_v4_check_def subnet_v6_check_def encode_subnet_v4_def
      encode_subnet_v6_def action_as_int_def)+

lemmas subnet_ops_v4 = save_subnet_v4_def delete_subnet_v4_def list_subnet_v4_def
  require_subnet_permission_def subnet_table_v4_def subnet_ok_v4_def Let_def

lemmas subnet_ops_v6 = save_subnet_v6_def delete_subnet_v6_def list_subnet_v6_def
  require_subnet_permission_def subnet_table_v6_def subnet_ok_v6_def Let_def

interpretation store4: subnet_store list_subnet_v4 save_subnet_v4 delete_subnet_v4
  subnet_table_v4 subnet_ok_v4 32 ListSubnetV4 SaveSubnetV4 DeleteSubnetV4
proof
  fix d flt assume "subnet_ok_v4 d" "\<not> flt ListSubnetV4"
  then show "\<exists>xs. list_subnet_v4 flt d = Inr xs \<and> lists_table xs (subnet_table_v4 d)"
    by (auto simp: subnet_ops_v4 lists_table_def elim!: codec4.listing)
qed (auto simp: subnet_ops_v4 codec4.table_upsert codec4.table_delete codec4.ok_delete
    intro: codec4.ok_upsert split: if_splits)

interpretation store6: subnet_store list_subnet_v6 save_subnet_v6 delete_subnet_v6
  subnet_table_v6 subnet_ok_v6 128 ListSubnetV6 SaveSubnetV6 DeleteSubnetV6
proof
  fix d flt assume "subnet_ok_v6 d" "\<not> flt ListSubnetV6"
  then show "\<exists>xs. list_subnet_v6 flt d = Inr xs \<and> lists_table xs (subnet_table_v6 d)"
    by (auto simp: subnet_ops_v6 lists_table_def elim!: codec6.listing)
qed (auto simp: subnet_ops_v6 codec6.table_upsert codec6.table_delete codec6.ok_delete
    intro: codec6.ok_upsert split: if_splits)

section \<open>Properties\<close>

text \<open>
  C29: A saved IPv6 subnet reads back: after a successful save the listing has exactly the former
  entries with this one added or replaced, each once, the longest prefixes first, and the four
  words of the network survive the conversion to sixteen bytes and back.
\<close>

theorem save_then_list_v6:
  assumes "subnet_ok_v6 d" and "save_subnet_v6 flt caller network prefix_len a d = (Inr (), d')"
  shows "may caller MODIFY \<and> unat prefix_len \<le> 128 \<and> subnet_ok_v6 d' \<and>
    (\<exists>xs. list_subnet_v6 no_faults d' = Inr xs \<and>
          lists_table xs ((subnet_table_v6 d)((network, prefix_len) \<mapsto> a)))"
  using store6.save_needs [OF assms(2)] store6.save_ok [OF assms(2,1)] store6.save_lists [OF assms]
  by simp

theorem save_then_list_v6_witness:
  "\<exists>xs. list_subnet_v6 no_faults (snd (save_subnet_v6 no_faults
       \<lparr>caller_role = Admin, caller_permissions = 7\<rparr> (1, 2, 3, 4) 64 Deny empty_database)) = Inr xs \<and>
     lists_table xs ((subnet_table_v6 empty_database)(((1, 2, 3, 4), 64) \<mapsto> Deny))"
proof -
  let ?c = "\<lparr>caller_role = Admin, caller_permissions = 7\<rparr>"
  have "subnet_ok_v6 empty_database"
    by (simp add: subnet_ok_v6_def codec_ok_def unique_key_def empty_database_def)
  moreover have "may ?c MODIFY" by (simp add: may_def flags_contains_def MODIFY_def)
  then have "fst (save_subnet_v6 no_faults ?c (1, 2, 3, 4) 64 Deny empty_database) = Inr ()"
    by (simp add: store6.save_iff)
  then have "save_subnet_v6 no_faults ?c (1, 2, 3, 4) 64 Deny empty_database =
      (Inr (), snd (save_subnet_v6 no_faults ?c (1, 2, 3, 4) 64 Deny empty_database))"
    by (metis prod.collapse)
  ultimately show ?thesis using save_then_list_v6 by blast
qed

text \<open>
  Saving and deleting a subnet of either version succeeds exactly when the caller is an
  administrator with the \<open>MODIFY\<close> (\<open>DELETE\<close>) permission, the statement runs, and (for a save) the
  prefix length fits the address; every failure leaves the database as it was.
\<close>

theorem subnet_store_authorised:
  "(fst (save_subnet_v4 flt c n4 p a d) = Inr () \<longleftrightarrow>
      may c MODIFY \<and> \<not> flt SaveSubnetV4 \<and> unat p \<le> 32) \<and>
   (fst (save_subnet_v6 flt c n6 p a d) = Inr () \<longleftrightarrow>
      may c MODIFY \<and> \<not> flt SaveSubnetV6 \<and> unat p \<le> 128) \<and>
   (fst (delete_subnet_v4 flt c n4 p d) = Inr () \<longleftrightarrow> may c DELETE \<and> \<not> flt DeleteSubnetV4) \<and>
   (fst (delete_subnet_v6 flt c n6 p d) = Inr () \<longleftrightarrow> may c DELETE \<and> \<not> flt DeleteSubnetV6) \<and>
   (snd (save_subnet_v4 flt c n4 p a d) = d \<or> fst (save_subnet_v4 flt c n4 p a d) = Inr ()) \<and>
   (snd (save_subnet_v6 flt c n6 p a d) = d \<or> fst (save_subnet_v6 flt c n6 p a d) = Inr ()) \<and>
   (snd (delete_subnet_v4 flt c n4 p d) = d \<or> fst (delete_subnet_v4 flt c n4 p d) = Inr ()) \<and>
   (snd (delete_subnet_v6 flt c n6 p d) = d \<or> fst (delete_subnet_v6 flt c n6 p d) = Inr ())"
  by (simp add: store4.save_iff store6.save_iff store4.delete_iff store6.delete_iff)
    (auto simp: subnet_ops_v4 subnet_ops_v6)

end
