(* ===== verification/Http.thy ===== *)
theory Http
  imports Log_Store Db_Users Db_Subnet
begin

text \<open>
  Responses of the HTTP interface, the authenticated user, and the mapping of errors to responses
  (\<open>IntoResponse for UserError\<close> of oxidrop/src/db.rs). A JSON body is the value it encodes.
\<close>

datatype status =
  S_OK | S_CREATED | S_NO_CONTENT | S_SEE_OTHER | S_TEMPORARY_REDIRECT | S_BAD_REQUEST | S_UNAUTHORIZED | S_FORBIDDEN
| S_NOT_FOUND | S_CONFLICT | S_UNPROCESSABLE_ENTITY | S_INTERNAL_SERVER_ERROR | S_SERVICE_UNAVAILABLE | S_SWITCHING_PROTOCOLS

definition is_server_error :: "status \<Rightarrow> bool" where
  "is_server_error s \<longleftrightarrow> s \<in> {S_INTERNAL_SERVER_ERROR, S_SERVICE_UNAVAILABLE}"

text \<open>\<open>AppUser\<close> of oxidrop/src/auth.rs.\<close>

record app_user =
  au_id :: int
  au_username :: string
  au_role :: roles_user
  au_permissions :: u8
  au_password_hash :: string
  au_password_must_be_changed :: bool

definition caller_of :: "app_user \<Rightarrow> caller_context" where
  "caller_of u = \<lparr>caller_role = au_role u, caller_permissions = au_permissions u\<rparr>"

datatype permission = Create | Modify | Delete

datatype body =
  NoBody
| Text string
| ErrorJson string
| UserJson app_user
| UsersJson "user_info list"
| RoleJson string "permission set"
| ConfigJson firewall_config
| LogsJson "log_row list"
| Allow4Json "(ipv4_packet \<times> allow_list_state \<times> int option) list"
| Allow6Json "(ipv6_packet \<times> allow_list_state \<times> int option) list"
| Counts4Json "(ipv4_packet \<times> token_bucket_state \<times> int option) list"
| Counts6Json "(ipv6_packet \<times> token_bucket_state \<times> int option) list"
| Subnets4Json "(u32 \<times> u32 \<times> action) list"
| Subnets6Json "(words4 \<times> u32 \<times> action) list"
| TrafficJson "u64 \<times> u64" "u64 \<times> u64"
| AdaptersJson "(u32 \<times> string) list" "(u32 \<times> string) option" "(u32 \<times> string) option" bool
| LogStream
| RedirectTo string
| Asset string "u8 list"

type_synonym response = "status \<times> body"

fun user_error_response :: "user_error \<Rightarrow> response" where
  "user_error_response (UserExists _) = (S_CONFLICT, ErrorJson ''User already exists'')"
| "user_error_response InvalidCredentials = (S_UNAUTHORIZED, ErrorJson ''Invalid credentials'')"
| "user_error_response (NotFound _) = (S_NOT_FOUND, ErrorJson ''User not found'')"
| "user_error_response LackingPermission = (S_FORBIDDEN, ErrorJson ''Insufficient permissions'')"
| "user_error_response (WeakPassword reason) =
     (S_BAD_REQUEST, ErrorJson (''Password requirement not met: '' @ reason))"
| "user_error_response (TooLongPassword reason) =
     (S_BAD_REQUEST, ErrorJson (''Password requirement not met: '' @ reason))"
| "user_error_response (Database e) =
     (S_INTERNAL_SERVER_ERROR, ErrorJson ''An internal server error occurred'')"
| "user_error_response (Internal e) =
     (S_INTERNAL_SERVER_ERROR, ErrorJson ''An internal server error occurred'')"

fun_cases user_error_forbidden: "user_error_response e = (S_FORBIDDEN, b)"

lemma user_error_response_not_success:
  "fst (user_error_response e) \<notin> {S_OK, S_CREATED, S_NO_CONTENT}"
  by (cases e) simp_all

end
