(* ===== verification/Db_Users_Props.thy ===== *)
theory Db_Users_Props
  imports Db_Users
begin

text \<open>
  The properties of the accounts: who may change them, what each operation does to the rows, and
  the life of a password from the bootstrap to its change.
\<close>

text \<open>
  No operation on accounts changes the database, or reports success, without the permission it
  needs (an administrator with \<open>CREATE\<close>, \<open>MODIFY\<close>, \<open>DELETE\<close>), and none of them ever touches the
  configuration or the subnets, whoever calls it.
\<close>

theorem account_changes_need_permission:
  "(snd (create_user S flt salt c name pw r perms must d) \<noteq> d \<longrightarrow> may c CREATE) \<and>
   (snd (modify_user S flt salt c name r perms act new_pw d) \<noteq> d \<longrightarrow> may c MODIFY) \<and>
   (snd (change_username flt c name new_name d) \<noteq> d \<longrightarrow> may c MODIFY) \<and>
   (snd (delete_user flt name c d) \<noteq> d \<longrightarrow> may c DELETE) \<and>
   (\<forall>d' \<in> {snd (create_user S flt salt c name pw r perms must d),
            snd (modify_user S flt salt c name r perms act new_pw d),
            snd (change_username flt c name new_name d), snd (delete_user flt name c d)}.
      same_policy d d')"
proof -
  have "\<forall>d' \<in> {snd (create_user S flt salt c name pw r perms must d),
            snd (modify_user S flt salt c name r perms act new_pw d),
            snd (change_username flt c name new_name d), snd (delete_user flt name c d)}.
      same_policy d d'"
    by (simp add: create_op.frame modify_op.frame rename_op.frame delete_op.frame)
  then show ?thesis
    by (intro conjI impI)
      (fast dest: create_op.change_needs modify_op.change_needs rename_op.change_needs
        delete_op.change_needs)+
qed

theorem account_changes_need_permission_witness:
  "delete_user no_faults ''root'' \<lparr>caller_role = Viewer, caller_permissions = 7\<rparr> empty_database =
     (Inl LackingPermission, empty_database) \<and>
   snd (create_user ref_services no_faults ''s'' \<lparr>caller_role = Viewer, caller_permissions = 7\<rparr>
     ''eve'' ''correct horse battery'' Admin 7 True empty_database) = empty_database"
  using account_changes_need_permission [of ref_services no_faults "''s''"
      "\<lparr>caller_role = Viewer, caller_permissions = 7\<rparr>" "''eve''" "''correct horse battery''" Admin 7 True
      empty_database]
  by (auto simp: may_def delete_user_def)

text \<open>
  Every operation on accounts, the password change and the bootstrap included, keeps the
  accounts well-formed: distinct ids and names, declared roles, permissions within 0 to 7, flags
  that are 0 or 1, whatever the request contains.
\<close>

theorem accounts_stay_ok:
  assumes "services_ok S" and "users_ok (users d)"
  shows "\<forall>d' \<in> {snd (create_user S flt salt c name pw r perms must d),
      snd (modify_user S flt salt c name r perms act new_pw d),
      snd (change_username flt c name new_name d), snd (delete_user flt name c d),
      snd (change_password S flt salt uid pw d), snd (bootstrap_default_admin S flt salt now d)}.
    users_ok (users d')"
proof -
  have ok: "accounts_ok S d" using assms(2) by (simp add: accounts_ok_def)
  show ?thesis
    using create_op.preserves [OF ok] modify_op.preserves [OF ok] rename_op.preserves [OF ok]
      delete_op.preserves [OF ok] change_password_users_ok [OF assms(2)] bootstrap_users_ok [OF assms]
      assms
    by (simp add: accounts_ok_def)
qed

theorem accounts_stay_ok_witness:
  "users_ok (users (snd (bootstrap_default_admin ref_services no_faults ''s'' 5 empty_database)))"
proof -
  have "users_ok (users empty_database)" by (simp add: users_ok_def unique_key_def empty_database_def)
  from accounts_stay_ok [OF services_ok_ref this] show ?thesis by blast
qed

text \<open>
  A password is accepted exactly when it has 12 to 120 bytes and is not \<open>password1234\<close> in some
  capitalisation: the other six entries of the blacklist never decide anything, because they are
  shorter than 12 bytes and such passwords are rejected before.
\<close>

theorem validate_password_iff:
  "validate_password pw = Inr () \<longleftrightarrow>
     12 \<le> length pw \<and> length pw \<le> 120 \<and> to_lowercase pw \<noteq> ''password1234''"
proof -
  have len: "length (to_lowercase pw) = length pw" by (simp add: to_lowercase_def)
  have "to_lowercase pw \<in> set blacklist \<longleftrightarrow> to_lowercase pw = ''password1234''" if "12 \<le> length pw"
    using that len by (auto simp: blacklist_def)
  then show ?thesis by (auto simp: validate_password_def)
qed

text \<open>
  A created account is exactly the requested one: on success one row is appended, with the
  requested name, role, permissions and flags, active, under a fresh id, with a hash of a password
  that passed validation; no other row changes, and the name was free.
\<close>

theorem create_user_row:
  assumes "create_user S flt salt c name pw r perms must d = (Inr (), d')"
  shows "\<exists>h. validate_password pw = Inr () \<and> argon_hash S salt pw = Inr h \<and>
    name \<notin> u_username ` set (users d) \<and>
    users d' = users d @
      [\<lparr>u_id = new_rowid S (map u_id (users d)), u_username = name, u_password_hash = h,
        u_role = role_as_str r, u_action_permissions = uint perms,
        u_password_must_be_changed = (if must then 1 else 0), u_is_active = 1,
        u_last_login_at = None\<rparr>]"
  using assms
  by (auto simp: create_user_def internal_insert_user_def insert_user_row_def hash_password_def
      split: if_splits sum.splits prod.splits sql_error.splits)

theorem create_user_row_witness:
  "length (users (snd (create_user ref_services no_faults ''s''
     \<lparr>caller_role = Admin, caller_permissions = 7\<rparr> ''eve'' ''correct horse battery'' Viewer 0 True
     empty_database))) = 1"
proof -
  have "create_user ref_services no_faults ''s'' \<lparr>caller_role = Admin, caller_permissions = 7\<rparr>
      ''eve'' ''correct horse battery'' Viewer 0 True empty_database =
    (Inr (), snd (create_user ref_services no_faults ''s'' \<lparr>caller_role = Admin, caller_permissions = 7\<rparr>
      ''eve'' ''correct horse battery'' Viewer 0 True empty_database))"
    by code_simp
  from create_user_row [OF this] show ?thesis by (auto simp: empty_database_def)
qed

lemma change_password_Inr:
  assumes "change_password S flt salt uid pw d = (Inr (), d')"
  obtains h where "argon_hash S salt pw = Inr h" and "validate_password pw = Inr ()"
    and "users d' = map (\<lambda>u. if u_id u = uid
           then u\<lparr>u_password_hash := h, u_password_must_be_changed := 0\<rparr> else u) (users d)"
    and "length (filter (\<lambda>u. u_id u = uid) (users d)) = 1"
proof -
  obtain h where h: "validate_password pw = Inr ()" "argon_hash S salt pw = Inr h"
    "update_users flt UpdatePassword (\<lambda>u. u_id u = uid)
       (\<lambda>u. u\<lparr>u_password_hash := h, u_password_must_be_changed := 0\<rparr>) d = (Inr 1, d')"
    using assms by (auto simp: change_password_def hash_password_def
        split: sum.splits prod.splits if_splits)
  show thesis
  proof (rule that [OF h(2,1)])
    show "users d' = map (\<lambda>u. if u_id u = uid
        then u\<lparr>u_password_hash := h, u_password_must_be_changed := 0\<rparr> else u) (users d)"
      using update_users_Inr(1) [OF h(3)] by simp
    show "length (filter (\<lambda>u. u_id u = uid) (users d)) = 1"
      using update_users_Inr(2) [OF h(3)] by (rule sym)
  qed
qed

lemma modify_user_Inr:
  assumes "modify_user S flt salt c name r perms act pw d = (Inr (), d')"
  obtains h where "users d' = map (\<lambda>u. if u_username u = name
      then u\<lparr>u_role := role_as_str r, u_action_permissions := uint perms, u_is_active := act,
          u_password_hash := (case h of None \<Rightarrow> u_password_hash u | Some h \<Rightarrow> h),
          u_password_must_be_changed := (if h = None then u_password_must_be_changed u else 1)\<rparr>
      else u) (users d)"
    and "h = None \<longleftrightarrow> pw = None" and "\<And>p. pw = Some p \<Longrightarrow> argon_hash S salt p = Inr (the h)"
    and "name \<in> u_username ` set (users d)"
proof (cases rule: modify_user_steps [of c S flt salt name r perms act pw d])
  case (success h n d1)
  from success(3,4) have "name \<in> u_username ` set (users d)"
    using update_users_Inr(2) [OF success(3)] by (auto simp: length_greater_0_conv filter_empty_conv)
  moreover have "argon_hash S salt p = Inr (the h)" if "pw = Some p" for p
    using success(6) [OF that] by (auto simp: hash_password_def split: sum.splits)
  ultimately show thesis
    using that [of h] success(2,5) update_users_Inr(1) [OF success(3)] assms by simp
qed (use assms in simp_all)

lemma set_map_single:
  assumes "u \<in> set xs" and "P u" and "\<And>v. v \<in> set xs \<Longrightarrow> P v \<Longrightarrow> v = u"
  shows "set (map (\<lambda>v. if P v then f v else v) xs) = insert (f u) (set xs - {u})"
proof -
  have "(\<lambda>v. if P v then f v else v) ` (set xs - {u}) = set xs - {u}"
  proof -
    have "(if P v then f v else v) = v" if "v \<in> set xs - {u}" for v
      using that assms(3) by auto
    then have "(\<lambda>v. if P v then f v else v) ` (set xs - {u}) = (\<lambda>v. v) ` (set xs - {u})"
      by (intro image_cong refl)
    then show ?thesis by simp
  qed
  moreover have "set xs = insert u (set xs - {u})" using assms(1) by blast
  ultimately show ?thesis using assms(2) by (metis (mono_tags, lifting) image_insert list.set_map)
qed

text \<open>
  The life of a password: when an administrator sets the password of a user, the new one
  verifies and must be changed by the user; when the user then changes it, exactly that account
  gets a hash that verifies the new password, and the obligation is gone.
\<close>

theorem password_lifecycle:
  assumes "services_ok S" and "users_ok (users d)"
    and "modify_user S flt salt c name r perms act (Some pw1) d = (Inr (), d1)"
    and "u \<in> set (users d1)" and "u_username u = name"
    and "change_password S flt' salt' (u_id u) pw2 d1 = (Inr (), d2)"
  shows "argon_verify S (u_password_hash u) pw1 \<and> u_password_must_be_changed u = 1 \<and>
    (\<exists>h. argon_verify S h pw2 \<and>
       set (users d2) = insert (u\<lparr>u_password_hash := h, u_password_must_be_changed := 0\<rparr>)
         (set (users d1) - {u}))"
proof -
  obtain h1 where h1: "users d1 = map (\<lambda>u. if u_username u = name
      then u\<lparr>u_role := role_as_str r, u_action_permissions := uint perms, u_is_active := act,
          u_password_hash := (case h1 of None \<Rightarrow> u_password_hash u | Some h \<Rightarrow> h),
          u_password_must_be_changed := (if h1 = None then u_password_must_be_changed u else 1)\<rparr>
      else u) (users d)"
    and hash1: "h1 \<noteq> None" "argon_hash S salt pw1 = Inr (the h1)"
    by (rule modify_user_Inr [OF assms(3)]) auto
  have "u_password_hash u = the h1 \<and> u_password_must_be_changed u = 1"
  proof -
    obtain u0 where "u = (if u_username u0 = name
      then u0\<lparr>u_role := role_as_str r, u_action_permissions := uint perms, u_is_active := act,
          u_password_hash := (case h1 of None \<Rightarrow> u_password_hash u0 | Some h \<Rightarrow> h),
          u_password_must_be_changed := (if h1 = None then u_password_must_be_changed u0 else 1)\<rparr>
      else u0)"
      using assms(4) unfolding h1 set_map by (rule imageE)
    with assms(5) hash1(1) show ?thesis by (cases "u_username u0 = name") auto
  qed
  moreover have "argon_verify S (the h1) pw1"
    using assms(1) hash1(2) by (simp add: services_ok_def)
  ultimately have 1: "argon_verify S (u_password_hash u) pw1 \<and> u_password_must_be_changed u = 1"
    by simp
  obtain h2 where h2: "argon_hash S salt' pw2 = Inr h2"
    "users d2 = map (\<lambda>v. if u_id v = u_id u
       then v\<lparr>u_password_hash := h2, u_password_must_be_changed := 0\<rparr> else v) (users d1)"
    by (rule change_password_Inr [OF assms(6)])
  have "users_ok (users d1)"
    using modify_op.preserves [of S d flt salt c name r perms act "Some pw1"] assms(1-3)
    by (simp add: accounts_ok_def)
  then have id: "v = u" if "v \<in> set (users d1)" "u_id v = u_id u" for v
    using that assms(4) by (auto simp: users_ok_def unique_key_def distinct_map inj_on_def)
  have "set (users d2) = insert (u\<lparr>u_password_hash := h2, u_password_must_be_changed := 0\<rparr>)
      (set (users d1) - {u})"
    unfolding h2(2) by (rule set_map_single) (use id assms(4) in blast)+
  moreover have "argon_verify S h2 pw2" using assms(1) h2(1) by (simp add: services_ok_def)
  ultimately show ?thesis using 1 by blast
qed

definition sample_admin :: caller_context where
  "sample_admin = \<lparr>caller_role = Admin, caller_permissions = 7\<rparr>"

definition sample_database :: database where
  "sample_database = empty_database\<lparr>users :=
     [\<lparr>u_id = 1, u_username = ''admin'', u_password_hash = ''$first password'', u_role = ''admin'',
       u_action_permissions = 7, u_password_must_be_changed = 0, u_is_active = 1, u_last_login_at = None\<rparr>]\<rparr>"

lemma sample_users_ok: "users_ok (users sample_database)"
  by (simp add: users_ok_def unique_key_def sample_database_def user_check_def)

theorem password_lifecycle_witness:
  "\<exists>d1 u d2. modify_user ref_services no_faults ''s'' sample_admin ''admin'' Admin 7 1
       (Some ''second password'') sample_database = (Inr (), d1) \<and>
     change_password ref_services no_faults ''s'' 1 ''third password'' d1 = (Inr (), d2) \<and>
     argon_verify ref_services (u_password_hash u) ''second password'' \<and>
     u_password_must_be_changed u = 1 \<and> u \<in> set (users d1)"
proof -
  let ?m = "modify_user ref_services no_faults ''s'' sample_admin ''admin'' Admin 7 1
       (Some ''second password'') sample_database"
  let ?u = "\<lparr>u_id = 1, u_username = ''admin'', u_password_hash = ''$second password'', u_role = ''admin'',
       u_action_permissions = 7, u_password_must_be_changed = 1, u_is_active = 1, u_last_login_at = None\<rparr>"
  let ?d1 = "sample_database\<lparr>users := [?u]\<rparr>"
  have m: "?m = (Inr (), ?d1)" by code_simp
  moreover have "\<exists>d2. change_password ref_services no_faults ''s'' 1 ''third password'' ?d1 = (Inr (), d2)"
    by (rule exI, code_simp)
  then obtain d2 where c: "change_password ref_services no_faults ''s'' (u_id ?u) ''third password'' ?d1 = (Inr (), d2)"
    by auto
  ultimately show ?thesis
    using password_lifecycle [OF services_ok_ref sample_users_ok m, of ?u] by (intro exI conjI) auto
qed

text \<open>
  The bootstrap never locks itself out and never reopens an account: on an empty table, if its
  statements run, it creates exactly one active administrator with all permissions whose password
  must be changed, and on a table with a user it changes nothing; running it again has no effect.
\<close>

theorem bootstrap_once:
  assumes "\<not> flt CountUsers" and "\<not> flt InsertUser"
    and "argon_hash S salt DEFAULT_ADMIN_PASSWORD = Inr h"
    and "bootstrap_default_admin S flt salt now d = (r, d')"
  shows "r = Inr () \<and>
    users d' = (if users d = [] then
      [\<lparr>u_id = new_rowid S [], u_username = ''admin'', u_password_hash = h, u_role = ''admin'',
        u_action_permissions = 7, u_password_must_be_changed = 1, u_is_active = 1,
        u_last_login_at = None\<rparr>] else users d) \<and>
    snd (bootstrap_default_admin S flt' salt' now' d') = d'"
proof -
  have "r = Inr () \<and> users d' = (if users d = [] then
      [\<lparr>u_id = new_rowid S [], u_username = ''admin'', u_password_hash = h, u_role = ''admin'',
        u_action_permissions = 7, u_password_must_be_changed = 1, u_is_active = 1,
        u_last_login_at = None\<rparr>] else users d)"
    using assms
    by (auto simp: bootstrap_default_admin_def create_default_admin_def internal_insert_user_def
        insert_user_row_def hash_password_def Let_def user_check_def permissions_all_eq
        DEFAULT_ADMIN_USERNAME_def split: if_splits)
  moreover from this have "users d' \<noteq> []" by auto
  ultimately show ?thesis by (auto simp: bootstrap_default_admin_def)
qed

theorem bootstrap_once_witness:
  "u_password_must_be_changed (hd (users (snd
     (bootstrap_default_admin ref_services no_faults ''s'' 5 empty_database)))) = 1"
proof -
  have "argon_hash ref_services ''s'' DEFAULT_ADMIN_PASSWORD = Inr (''$'' @ DEFAULT_ADMIN_PASSWORD)"
    by (simp add: ref_services_def)
  from bootstrap_once [OF _ _ this, of no_faults 5 empty_database] show ?thesis
    by (metis empty_database_def database.select_convs(1) list.sel(1) no_faults_simp prod.collapse
        user_row.select_convs(6))
qed

end
