(* ===== verification/Auth.thy ===== *)
theory Auth
  imports Http Db_Users_Props
begin

text \<open>
  Authentication and sessions (oxidrop/src/auth.rs). \<open>authenticate\<close> and \<open>get_user\<close> are the backend
  of the session library (axum-login): the first checks credentials, the second re-reads the user of
  a session on every request. What the library hands to a handler is the user of the session,
  \<open>None\<close> when there is none; whether it can create or end a session is an argument of the handlers
  that ask for it (\<open>login_ok\<close>, \<open>logout_ok\<close>). A handler that changes the session returns its new user.
\<close>

section \<open>The session backend\<close>

definition row_role :: "string \<Rightarrow> roles_user" where
  "row_role role = (if role = ''admin'' then Admin else Viewer)"

definition row_to_user :: "user_row \<Rightarrow> app_user" where
  "row_to_user u =
     \<lparr>au_id = u_id u, au_username = u_username u, au_role = row_role (u_role u),
      au_permissions = permissions_truncate (word_of_int (u_action_permissions u)),
      au_password_hash = u_password_hash u,
      au_password_must_be_changed = (u_password_must_be_changed u \<noteq> 0)\<rparr>"

text \<open>\<open>now\<close> is the time in seconds.\<close>

definition authenticate ::
    "services \<Rightarrow> sql_faults \<Rightarrow> int \<Rightarrow> string \<Rightarrow> string \<Rightarrow> database \<Rightarrow>
     (user_error, app_user option) result \<times> database" where
  "authenticate S flt now username password d =
     (if flt SelectUserByName then (Inl (Database SqlFailed), d)
      else case sql_row u_username (users d) username of
        None \<Rightarrow> (Inl InvalidCredentials, d)
      | Some u \<Rightarrow>
          if u_is_active u = 0 then (Inl InvalidCredentials, d)
          else if \<not> phc_valid S (u_password_hash u)
          then (Inl (Internal ''Invalid hash stored in DB''), d)
          else if \<not> argon_verify S (u_password_hash u) password then (Inl InvalidCredentials, d)
          else case update_users flt UpdateLastLogin (\<lambda>v. u_id v = u_id u)
                      (\<lambda>v. v\<lparr>u_last_login_at := Some now\<rparr>) d of
            (Inl e, d') \<Rightarrow> (Inl (Database e), d')
          | (Inr _, d') \<Rightarrow> (Inr (Some (row_to_user u)), d'))"

definition get_user :: "sql_faults \<Rightarrow> int \<Rightarrow> database \<Rightarrow> (user_error, app_user option) result" where
  "get_user flt user_id d =
     (if flt SelectUserById then Inl (Database SqlFailed)
      else case find (\<lambda>u. u_id u = user_id \<and> u_is_active u = 1) (users d) of
        None \<Rightarrow> Inr None
      | Some u \<Rightarrow> Inr (Some (row_to_user u)))"

definition get_all_permissions :: "app_user \<Rightarrow> permission set" where
  "get_all_permissions u =
     (if flags_contains (au_permissions u) CREATE then {Create} else {}) \<union>
     (if flags_contains (au_permissions u) MODIFY then {Modify} else {}) \<union>
     (if flags_contains (au_permissions u) DELETE then {Delete} else {})"

section \<open>Endpoints\<close>

text \<open>\<open>session\<close> is the session's user before the request, the result has the one after it.\<close>

definition login ::
    "services \<Rightarrow> sql_faults \<Rightarrow> int \<Rightarrow> bool \<Rightarrow> string \<Rightarrow> string \<Rightarrow> string \<Rightarrow> app_user option \<Rightarrow> database \<Rightarrow>
     response \<times> app_user option \<times> database" where
  "login S flt now login_ok client_ip username password session d =
     (case authenticate S flt now username password d of
        (Inr (Some user), d') \<Rightarrow>
          (if \<not> login_ok then ((S_INTERNAL_SERVER_ERROR, NoBody), session, d')
           else ((S_OK, NoBody), Some user, d'))
      | (Inr None, d') \<Rightarrow>
          ((S_UNAUTHORIZED, NoBody), session,
           snd (record_log S flt now ''WARN'' ''Invalid credentials'' (Some client_ip) d'))
      | (Inl _, d') \<Rightarrow>
          ((S_UNAUTHORIZED, NoBody), session,
           snd (record_log S flt now ''WARN'' ''Invalid credentials'' (Some client_ip) d')))"

definition logout :: "bool \<Rightarrow> app_user option \<Rightarrow> response \<times> app_user option" where
  "logout logout_ok session =
     (if logout_ok then ((S_SEE_OTHER, RedirectTo ''/login''), None)
      else ((S_INTERNAL_SERVER_ERROR, NoBody), session))"

definition get_user_endpoint :: "app_user option \<Rightarrow> response" where
  "get_user_endpoint session =
     (case session of Some user \<Rightarrow> (S_OK, UserJson user) | None \<Rightarrow> (S_UNAUTHORIZED, NoBody))"

definition get_role_and_permissions :: "app_user option \<Rightarrow> response" where
  "get_role_and_permissions session =
     (case session of
        None \<Rightarrow> (S_UNAUTHORIZED, NoBody)
      | Some user \<Rightarrow> (S_OK, RoleJson (role_to_string (au_role user)) (get_all_permissions user)))"

section \<open>The time a login takes\<close>

text \<open>
  \<open>dummy_password_hash\<close>: a hash of a fixed password, made once with a random salt; \<open>None\<close> when making it
  fails, where the code panics.
\<close>

definition dummy_password_hash :: "services \<Rightarrow> string \<Rightarrow> string option" where
  "dummy_password_hash S salt =
     (case argon_hash S salt ''correct horse battery staple'' of Inl _ \<Rightarrow> None | Inr h \<Rightarrow> Some h)"

text \<open>The number of password verifications, which dominate the time: in \<open>burn_verify_time\<close>, in \<open>authenticate\<close>.\<close>

definition burn_verify_time :: "services \<Rightarrow> string \<Rightarrow> nat" where
  "burn_verify_time S dummy = (if phc_valid S dummy then 1 else 0)"

definition authenticate_verifications :: "services \<Rightarrow> sql_faults \<Rightarrow> string \<Rightarrow> string \<Rightarrow> database \<Rightarrow> nat" where
  "authenticate_verifications S flt dummy username d =
     (if flt SelectUserByName then 0
      else case sql_row u_username (users d) username of
        None \<Rightarrow> burn_verify_time S dummy
      | Some u \<Rightarrow>
          if u_is_active u = 0 then 0
          else if \<not> phc_valid S (u_password_hash u) then 0
          else 1)"

section \<open>Facts\<close>

lemma find_id_active:
  assumes "unique_key u_id us" and "u \<in> set us"
  shows "find (\<lambda>v. u_id v = u_id u \<and> u_is_active v = 1) us = (if u_is_active u = 1 then Some u else None)"
proof (cases "find (\<lambda>v. u_id v = u_id u \<and> u_is_active v = 1) us")
  case None
  with assms(2) show ?thesis by (auto simp: find_None_iff)
next
  case (Some v)
  then have "v \<in> set us" "u_id v = u_id u" "u_is_active v = 1"
    by (auto simp: find_Some_iff)
  with assms have "v = u" by (auto simp: unique_key_def distinct_map inj_on_def)
  with Some \<open>u_is_active v = 1\<close> show ?thesis by simp
qed

lemma update_last_login:
  assumes "users_ok (users d)"
  shows "update_users flt UpdateLastLogin (\<lambda>v. u_id v = i) (\<lambda>v. v\<lparr>u_last_login_at := Some now\<rparr>) d =
    (if flt UpdateLastLogin then (Inl SqlFailed, d)
     else (Inr (length (filter (\<lambda>v. u_id v = i) (users d))),
           d\<lparr>users := map (\<lambda>v. if u_id v = i then v\<lparr>u_last_login_at := Some now\<rparr> else v) (users d)\<rparr>))"
proof -
  let ?us = "map (\<lambda>v. if u_id v = i then v\<lparr>u_last_login_at := Some now\<rparr> else v) (users d)"
  have "map u_username ?us = map u_username (users d)" by simp
  then have "unique_key u_username ?us" using assms by (simp add: users_ok_def unique_key_def del: map_map)
  moreover have "\<forall>u \<in> set (users d). user_check (u\<lparr>u_last_login_at := Some now\<rparr>)"
    using assms by (simp add: users_ok_def user_check_def)
  ultimately show ?thesis by (auto simp: update_users_def Let_def)
qed

lemma row_to_user_login [simp]: "row_to_user (u\<lparr>u_last_login_at := t\<rparr>) = row_to_user u"
  by (simp add: row_to_user_def)

lemma authenticate_Inr:
  assumes "authenticate S flt now name pw d = (Inr r, d')"
  obtains u where "r = Some (row_to_user u)" and "sql_row u_username (users d) name = Some u"
    and "u_is_active u \<noteq> 0" and "phc_valid S (u_password_hash u)"
    and "argon_verify S (u_password_hash u) pw" and "\<not> flt SelectUserByName"
    and "\<exists>n. update_users flt UpdateLastLogin (\<lambda>v. u_id v = u_id u)
                      (\<lambda>v. v\<lparr>u_last_login_at := Some now\<rparr>) d = (Inr n, d')"
  using assms by (auto simp: authenticate_def split: if_splits option.splits prod.splits sum.splits)

lemma authenticate_ok:
  assumes "users_ok (users d)"
  shows "users_ok (users (snd (authenticate S flt now name pw d)))"
  using assms
  by (auto simp: authenticate_def elim!: update_users_ok dest: update_users_Inl
      split: option.split prod.split sum.split)

lemma authenticate_frame: "same_policy d (snd (authenticate S flt now name pw d))"
  by (auto simp: authenticate_def dest: same_policy_update split: option.split prod.split sum.split)

lemma users_okD:
  assumes "users_ok us"
  shows "unique_key u_id us" "unique_key u_username us" "u \<in> set us \<Longrightarrow> user_check u"
  using assms by (auto simp: users_ok_def)

text \<open>The user whom a login would find: active, under the name, with a hash of the password.\<close>

definition valid_login :: "services \<Rightarrow> string \<Rightarrow> string \<Rightarrow> database \<Rightarrow> user_row \<Rightarrow> bool" where
  "valid_login S name pw d u \<longleftrightarrow>
     u \<in> set (users d) \<and> u_username u = name \<and> u_is_active u \<noteq> 0 \<and>
     phc_valid S (u_password_hash u) \<and> argon_verify S (u_password_hash u) pw"

lemma authenticate_iff:
  assumes "users_ok (users d)"
  shows "fst (authenticate S flt now name pw d) = Inr (Some a) \<longleftrightarrow>
    \<not> flt SelectUserByName \<and> \<not> flt UpdateLastLogin \<and> (\<exists>u. valid_login S name pw d u \<and> a = row_to_user u)"
proof -
  have v: "valid_login S name pw d u \<longleftrightarrow> sql_row u_username (users d) name = Some u \<and>
      u_is_active u \<noteq> 0 \<and> phc_valid S (u_password_hash u) \<and> argon_verify S (u_password_hash u) pw" for u
    using sql_row_Some_iff [OF users_okD(2) [OF assms], of name u] by (auto simp: valid_login_def)
  show ?thesis
    by (cases "sql_row u_username (users d) name")
      (auto simp: authenticate_def update_last_login [OF assms] v)
qed

lemma authenticate_not_None: "fst (authenticate S flt now name pw d) \<noteq> Inr None"
  by (auto simp: authenticate_def split: option.split prod.split sum.split)

lemma get_user_of_row:
  "users_ok (users d) \<Longrightarrow> u \<in> set (users d) \<Longrightarrow> get_user no_faults (u_id u) d =
     Inr (if u_is_active u = 1 then Some (row_to_user u) else None)"
  by (simp add: get_user_def find_id_active users_okD(1))

lemma login_cases:
  obtains (success) a d' where "authenticate S flt now name pw d = (Inr (Some a), d')"
    "login S flt now ok ip name pw session d =
       (if ok then ((S_OK, NoBody), Some a, d') else ((S_INTERNAL_SERVER_ERROR, NoBody), session, d'))"
  | (refused) e d' d'' where "authenticate S flt now name pw d = (Inl e, d')"
    "login S flt now ok ip name pw session d = ((S_UNAUTHORIZED, NoBody), session, d'')"
proof -
  obtain r d' where a: "authenticate S flt now name pw d = (r, d')" by fastforce
  then show thesis
    using authenticate_not_None [of S flt now name pw d] success refused
    by (cases r; cases "projr r") (auto simp: login_def)
qed

lemma authenticate_lookup:
  assumes "users_ok (users d)" and "authenticate S flt now name pw d = (Inr (Some a), d1)"
  obtains u where "valid_login S name pw d u" and "a = row_to_user u"
    and "get_user no_faults (u_id u) d1 = Inr (Some a)"
    and "\<not> flt SelectUserByName" and "\<not> flt UpdateLastLogin"
proof -
  from assms(2) have "fst (authenticate S flt now name pw d) = Inr (Some a)" by simp
  then obtain u where flt: "\<not> flt SelectUserByName" "\<not> flt UpdateLastLogin"
    and u: "valid_login S name pw d u" "a = row_to_user u"
    unfolding authenticate_iff [OF assms(1)] by blast
  have row: "sql_row u_username (users d) name = Some u"
    using u(1) sql_row_Some_iff [OF users_okD(2) [OF assms(1)]] by (auto simp: valid_login_def)
  have d1: "d1 = d\<lparr>users := map (\<lambda>v. if u_id v = u_id u then v\<lparr>u_last_login_at := Some now\<rparr> else v) (users d)\<rparr>"
    using assms(2) row flt u(1)
    by (auto simp: authenticate_def update_last_login [OF assms(1)] valid_login_def)
  let ?u = "u\<lparr>u_last_login_at := Some now\<rparr>"
  have "users_ok (users d1)"
    using authenticate_ok [OF assms(1), of S flt now name pw] assms(2) by simp
  moreover have "?u \<in> set (users d1)" using u(1) by (auto simp: d1 valid_login_def)
  moreover have "u_is_active u = 1"
    using u(1) users_okD(3) [OF assms(1), of u] by (auto simp: valid_login_def user_check_def)
  ultimately have "get_user no_faults (u_id u) d1 = Inr (Some a)"
    using get_user_of_row [of d1 ?u] u(2) by simp
  from that [OF u this flt] show thesis .
qed

text \<open>
  C23: A login succeeds exactly for the name and password of an active account (with its statements
  running and the session store accepting), and then the session is that account, with its stored
  role and permissions, as the per-request lookup returns it; in every other case the session is
  left as it was.
\<close>

theorem login_iff_valid_account:
  assumes "users_ok (users d)"
    and "login S flt now login_ok ip name pw session d = ((status, body), session', d')"
  shows "(status = S_OK \<longleftrightarrow> login_ok \<and> \<not> flt SelectUserByName \<and> \<not> flt UpdateLastLogin \<and>
      (\<exists>u. valid_login S name pw d u)) \<and>
    (status = S_OK \<longrightarrow> (\<exists>u. valid_login S name pw d u \<and> session' = Some (row_to_user u) \<and>
      get_user no_faults (u_id u) d' = Inr session')) \<and>
    (status \<noteq> S_OK \<longrightarrow> session' = session)"
proof (cases rule: login_cases [of S flt now name pw d login_ok ip session])
  case (success a d1)
  obtain u where u: "valid_login S name pw d u" "a = row_to_user u"
    "get_user no_faults (u_id u) d1 = Inr (Some a)" "\<not> flt SelectUserByName" "\<not> flt UpdateLastLogin"
    by (rule authenticate_lookup [OF assms(1) success(1)])
  with success(2) assms(2) show ?thesis by (auto split: if_splits)
next
  case (refused e d1 d2)
  have "\<not> (\<not> flt SelectUserByName \<and> \<not> flt UpdateLastLogin \<and> (\<exists>u. valid_login S name pw d u))"
    using authenticate_iff [OF assms(1), of S flt now name pw] refused(1) by auto
  with refused(2) assms(2) show ?thesis by auto
qed

theorem login_iff_valid_account_witness:
  "fst (fst (login ref_services no_faults 9 True ''127.0.0.1'' ''admin'' ''first password'' None
     (empty_database\<lparr>users := [\<lparr>u_id = 1, u_username = ''admin'', u_password_hash = ''$first password'',
        u_role = ''admin'', u_action_permissions = 7, u_password_must_be_changed = 0,
        u_is_active = 1, u_last_login_at = None\<rparr>]\<rparr>))) = S_OK"
proof -
  let ?u = "\<lparr>u_id = 1, u_username = ''admin'', u_password_hash = ''$first password'',
        u_role = ''admin'', u_action_permissions = 7, u_password_must_be_changed = 0,
        u_is_active = 1, u_last_login_at = None\<rparr>"
  let ?d = "empty_database\<lparr>users := [?u]\<rparr>"
  have ok: "users_ok (users ?d)" by (simp add: users_ok_def unique_key_def user_check_def)
  obtain status body session' d' where l: "login ref_services no_faults 9 True ''127.0.0.1'' ''admin''
      ''first password'' None ?d = ((status, body), session', d')"
    by (metis prod.collapse)
  have "valid_login ref_services ''admin'' ''first password'' ?d ?u"
    by (simp add: valid_login_def ref_services_def)
  with login_iff_valid_account [OF ok l] l show ?thesis by auto
qed

text \<open>
  A created account can log in: right after a successful creation, the name and the password
  of the request authenticate as an account with the requested role and permissions.
\<close>

theorem created_user_can_log_in:
  assumes "services_ok S" and "users_ok (users d)"
    and "create_user S flt salt c name pw r perms must d = (Inr (), d')"
  shows "\<exists>a. fst (authenticate S no_faults now name pw d') = Inr (Some a) \<and>
    au_username a = name \<and> au_role a = r \<and> au_permissions a = perms \<and>
    au_password_must_be_changed a = must"
proof -
  obtain h where h: "argon_hash S salt pw = Inr h"
    and ins: "insert_user_row S flt \<lparr>u_id = 0, u_username = name, u_password_hash = h,
      u_role = role_as_str r, u_action_permissions = uint perms,
      u_password_must_be_changed = (if must then 1 else 0), u_is_active = 1,
      u_last_login_at = None\<rparr> d = (Inr (), d')"
    using assms(3) by (auto simp: create_user_def internal_insert_user_def hash_password_def
        split: if_splits sum.splits prod.splits sql_error.splits)
  let ?u = "\<lparr>u_id = new_rowid S (map u_id (users d)), u_username = name, u_password_hash = h,
      u_role = role_as_str r, u_action_permissions = uint perms,
      u_password_must_be_changed = (if must then 1 else 0), u_is_active = 1, u_last_login_at = None\<rparr>"
  have u: "users d' = users d @ [?u]" "uint perms \<le> 7"
    using ins by (auto simp: insert_user_row_def user_check_def split: if_splits)
  have ok: "users_ok (users d')"
    using insert_user_ok [OF assms(1,2)] ins by (metis snd_conv)
  have "valid_login S name pw d' ?u"
    using assms(1) h u by (simp add: valid_login_def services_ok_def)
  then have "fst (authenticate S no_faults now name pw d') = Inr (Some (row_to_user ?u))"
    unfolding authenticate_iff [OF ok] by auto
  moreover have "perms AND 7 = perms"
  proof -
    have "uint perms < 2 ^ 3" using u(2) by simp
    then have "unat perms < 2 ^ 3" unfolding uint_less_pow .
    then have "take_bit 3 perms = perms"
      by (simp add: word_unat_eq_iff unsigned_take_bit_eq take_bit_nat_eq_self)
    moreover have "(7 :: u8) = mask 3" by (simp add: mask_eq_exp_minus_1)
    ultimately show ?thesis by (simp add: take_bit_eq_mask)
  qed
  ultimately show ?thesis
    by (intro exI [of _ "row_to_user ?u"])
      (cases r; simp add: row_to_user_def row_role_def permissions_truncate_def permissions_all_eq)
qed

theorem created_user_can_log_in_witness:
  "\<exists>a. fst (authenticate ref_services no_faults 9 ''eve'' ''correct horse battery''
     (snd (create_user ref_services no_faults ''s'' \<lparr>caller_role = Admin, caller_permissions = 7\<rparr>
        ''eve'' ''correct horse battery'' Viewer 0 True empty_database))) = Inr (Some a) \<and>
     au_role a = Viewer"
proof -
  have "users_ok (users empty_database)" by (simp add: users_ok_def unique_key_def empty_database_def)
  moreover have "create_user ref_services no_faults ''s'' \<lparr>caller_role = Admin, caller_permissions = 7\<rparr>
      ''eve'' ''correct horse battery'' Viewer 0 True empty_database =
    (Inr (), snd (create_user ref_services no_faults ''s'' \<lparr>caller_role = Admin, caller_permissions = 7\<rparr>
      ''eve'' ''correct horse battery'' Viewer 0 True empty_database))"
    by code_simp
  ultimately show ?thesis using created_user_can_log_in [OF services_ok_ref] by blast
qed

lemma modified_rows:
  assumes "modify_user S flt salt c name r perms act new_pw d = (Inr (), d')"
  shows "\<exists>f. users d' = map (\<lambda>u. if u_username u = name then f u else u) (users d) \<and>
    (\<forall>u. u_username (f u) = u_username u \<and> u_is_active (f u) = act) \<and>
    name \<in> u_username ` set (users d)"
  by (rule modify_user_Inr [OF assms]) (intro exI conjI, assumption, simp_all)

text \<open>
  Deactivating an account takes effect at once: after a successful modification with the active
  flag 0, the lookup that every request of its sessions makes finds no user, and no password, not
  even the one set by the same request, lets it log in.
\<close>

theorem deactivation_is_immediate:
  assumes "services_ok S" and "users_ok (users d)"
    and "modify_user S flt salt c name r perms 0 new_pw d = (Inr (), d')"
  shows "(\<exists>u \<in> set (users d'). u_username u = name) \<and>
    (\<forall>u \<in> set (users d'). u_username u = name \<longrightarrow> get_user no_faults (u_id u) d' = Inr None) \<and>
    (\<forall>flt' now pw a. fst (authenticate S flt' now name pw d') \<noteq> Inr (Some a))"
proof -
  have ok: "users_ok (users d')"
    using modify_op.preserves [of S d flt salt c name r perms 0 new_pw] assms by (simp add: accounts_ok_def)
  obtain f where us: "users d' = map (\<lambda>u. if u_username u = name then f u else u) (users d)"
    and f: "\<And>u. u_username (f u) = u_username u \<and> u_is_active (f u) = 0"
    and name: "name \<in> u_username ` set (users d)"
    using modified_rows [OF assms(3)] by blast
  have inactive: "u_is_active u = 0" if "u \<in> set (users d')" "u_username u = name" for u
  proof -
    note u = that
    obtain u0 where "u = (if u_username u0 = name then f u0 else u0)"
      using u(1) unfolding us set_map by (rule imageE)
    with u(2) f show ?thesis by (cases "u_username u0 = name") simp_all
  qed
  obtain u0 where "u0 \<in> set (users d)" "u_username u0 = name" using name by blast
  with f have "f u0 \<in> set (users d')" "u_username (f u0) = name" unfolding us by force+
  then have "\<exists>u \<in> set (users d'). u_username u = name" by blast
  moreover have "\<forall>u \<in> set (users d'). u_username u = name \<longrightarrow> get_user no_faults (u_id u) d' = Inr None"
    using get_user_of_row [OF ok] inactive by simp
  moreover have "\<not> valid_login S name pw d' u" for pw u
    using inactive by (auto simp: valid_login_def)
  then have "\<forall>flt' now pw a. fst (authenticate S flt' now name pw d') \<noteq> Inr (Some a)"
    by (simp add: authenticate_iff [OF ok])
  ultimately show ?thesis by blast
qed

theorem deactivation_is_immediate_witness:
  "\<exists>d'. modify_user ref_services no_faults ''s'' sample_admin ''admin'' Admin 7 0 None sample_database = (Inr (), d') \<and>
     get_user no_faults 1 d' = Inr None"
proof -
  let ?u = "\<lparr>u_id = 1, u_username = ''admin'', u_password_hash = ''$first password'', u_role = ''admin'',
       u_action_permissions = 7, u_password_must_be_changed = 0, u_is_active = 0, u_last_login_at = None\<rparr>"
  have m: "modify_user ref_services no_faults ''s'' sample_admin ''admin'' Admin 7 0 None sample_database =
      (Inr (), sample_database\<lparr>users := [?u]\<rparr>)" by code_simp
  from deactivation_is_immediate [OF services_ok_ref sample_users_ok m] m show ?thesis by simp
qed

text \<open>
  C24: What the time of a login tells: with intact hashes, a login costs one verification when the name is
  unknown and one when the account is active, right or wrong password alike, so it does not tell which
  names exist; but it costs none when the account is deactivated, so it tells which names are.
\<close>

theorem login_time:
  assumes "services_ok S" and "users_ok (users d)" and "\<forall>u \<in> set (users d). phc_valid S (u_password_hash u)"
    and "dummy_password_hash S salt = Some dummy" and "\<not> flt SelectUserByName"
  shows "authenticate_verifications S flt dummy name d =
    (if \<exists>u \<in> set (users d). u_username u = name \<and> u_is_active u = 0 then 0 else 1)"
proof -
  have "phc_valid S dummy"
    using assms(1,4) by (auto simp: dummy_password_hash_def services_ok_def split: sum.splits)
  then have dummy: "burn_verify_time S dummy = 1" by (simp add: burn_verify_time_def)
  have row: "sql_row u_username (users d) name = Some u \<longleftrightarrow> u \<in> set (users d) \<and> u_username u = name" for u
    by (rule sql_row_Some_iff [OF users_okD(2) [OF assms(2)]])
  show ?thesis
  proof (cases "\<exists>u \<in> set (users d). u_username u = name")
    case True
    then obtain u where u: "u \<in> set (users d)" "u_username u = name" by blast
    then have r: "sql_row u_username (users d) name = Some u" by (simp add: row)
    have "(\<exists>v \<in> set (users d). u_username v = name \<and> u_is_active v = 0) \<longleftrightarrow> u_is_active u = 0"
      using r u by (metis option.inject row)
    with r u(1) assms(3,5) show ?thesis by (simp add: authenticate_verifications_def)
  next
    case False
    then have "sql_row u_username (users d) name = None" by (simp add: sql_row_None_iff)
    with False assms(5) dummy show ?thesis by (auto simp: authenticate_verifications_def)
  qed
qed

theorem login_time_witness:
  "authenticate_verifications ref_services no_faults ''$correct horse battery staple'' ''nobody'' sample_database = 1 \<and>
   authenticate_verifications ref_services no_faults ''$correct horse battery staple'' ''admin'' sample_database = 1"
proof -
  have "dummy_password_hash ref_services ''s'' = Some ''$correct horse battery staple''"
    by (simp add: dummy_password_hash_def ref_services_def)
  moreover have "\<forall>u \<in> set (users sample_database). phc_valid ref_services (u_password_hash u)"
    by (simp add: sample_database_def ref_services_def)
  ultimately show ?thesis
    using login_time [OF services_ok_ref sample_users_ok, of "''s''"] by (simp add: sample_database_def)
qed

end
