(* ===== verification/Ebpf_Program.thy ===== *)
theory Ebpf_Program
  imports Common
begin

text \<open>
  The handle of the loaded eBPF program (\<open>EbpfProgramm\<close> of oxidrop/src/ebpf.rs): which interfaces it
  is attached to. Finding the program in the object and attaching it are the library's (aya): they
  are the arguments \<open>xdp_ok\<close> (the lookup succeeds) and \<open>attach\<close>, which gives the link of an
  interface, from the links held, or an error text. Detaching ignores its result in the code.
\<close>

type_synonym link_id = nat
type_synonym attach_op = "link_id list \<Rightarrow> u32 \<Rightarrow> (string, link_id) result"

record ebpf_programm =
  programm_loaded :: "link_id list"
  outcoming_adapter :: "u32 option"
  incoming_adapter :: "u32 option"

definition new_programm :: ebpf_programm where
  "new_programm = \<lparr>programm_loaded = [], outcoming_adapter = None, incoming_adapter = None\<rparr>"

definition enforcement_active :: "ebpf_programm \<Rightarrow> bool" where
  "enforcement_active e \<longleftrightarrow>
     length (programm_loaded e) = 2 \<and> incoming_adapter e \<noteq> None \<and> outcoming_adapter e \<noteq> None"

definition attached_adapters :: "ebpf_programm \<Rightarrow> u32 option \<times> u32 option" where
  "attached_adapters e = (incoming_adapter e, outcoming_adapter e)"

definition XDP_MISSING :: string where "XDP_MISSING = ''getting ebpf failed''"

text \<open>The links are taken before the lookup that may fail.\<close>

definition shut_down_working_ebpf :: "bool \<Rightarrow> ebpf_programm \<Rightarrow> (string, unit) result \<times> ebpf_programm" where
  "shut_down_working_ebpf xdp_ok e =
     (let e1 = e\<lparr>programm_loaded := []\<rparr> in
      if \<not> xdp_ok then (Inl XDP_MISSING, e1)
      else (Inr (), e1\<lparr>outcoming_adapter := None, incoming_adapter := None\<rparr>))"

text \<open>Attaching one adapter: on failure everything is shut down again.\<close>

definition attach_adapter ::
    "bool \<Rightarrow> attach_op \<Rightarrow> u32 option \<Rightarrow> (u32 \<Rightarrow> ebpf_programm \<Rightarrow> ebpf_programm) \<Rightarrow> ebpf_programm \<Rightarrow>
     (string, unit) result \<times> ebpf_programm" where
  "attach_adapter xdp_ok attach adapter store e =
     (case adapter of
        None \<Rightarrow> (Inr (), e)
      | Some if_index \<Rightarrow>
          if \<not> xdp_ok then (Inl XDP_MISSING, e)
          else case attach (programm_loaded e) if_index of
            Inl error \<Rightarrow>
              (case shut_down_working_ebpf xdp_ok e of
                 (Inl e1, e') \<Rightarrow> (Inl e1, e')
               | (Inr _, e') \<Rightarrow> (Inl error, e'))
          | Inr link \<Rightarrow>
              (Inr (), (store if_index e)\<lparr>programm_loaded := programm_loaded e @ [link]\<rparr>))"

definition reboot ::
    "bool \<Rightarrow> attach_op \<Rightarrow> firewall_config \<Rightarrow> ebpf_programm \<Rightarrow> (string, unit) result \<times> ebpf_programm" where
  "reboot xdp_ok attach config e =
     (case shut_down_working_ebpf xdp_ok e of
        (Inl err, e1) \<Rightarrow> (Inl err, e1)
      | (Inr _, e1) \<Rightarrow>
          (case attach_adapter xdp_ok attach (incoming_ethernet_adapter config)
                  (\<lambda>i. incoming_adapter_update (\<lambda>_. Some i)) e1 of
             (Inl err, e2) \<Rightarrow> (Inl err, e2)
           | (Inr _, e2) \<Rightarrow>
               attach_adapter xdp_ok attach (output_ethernet_adapter config)
                 (\<lambda>i. outcoming_adapter_update (\<lambda>_. Some i)) e2))"

text \<open>The handle agrees with itself: as many links as adapters.\<close>

definition ebpf_inv :: "ebpf_programm \<Rightarrow> bool" where
  "ebpf_inv e \<longleftrightarrow>
     length (programm_loaded e) =
       (if incoming_adapter e = None then 0 else 1) + (if outcoming_adapter e = None then 0 else 1)"

lemma ebpf_inv_new: "ebpf_inv new_programm"
  by (simp add: ebpf_inv_def new_programm_def)

text \<open>
  A reboot is all or nothing, from any earlier state: when it succeeds the program is attached
  to exactly the configured adapters, and enforcement is active exactly when both are configured;
  when it fails (and the program object is there) nothing is attached and enforcement is off.
\<close>

theorem reboot_all_or_nothing:
  assumes "reboot xdp_ok attach config e = (r, e')"
  shows "(r = Inr () \<longrightarrow>
      attached_adapters e' = (incoming_ethernet_adapter config, output_ethernet_adapter config) \<and>
      ebpf_inv e' \<and>
      (enforcement_active e' \<longleftrightarrow>
         incoming_ethernet_adapter config \<noteq> None \<and> output_ethernet_adapter config \<noteq> None)) \<and>
    (r \<noteq> Inr () \<longrightarrow> programm_loaded e' = [] \<and> \<not> enforcement_active e' \<and>
      (xdp_ok \<longrightarrow> attached_adapters e' = (None, None)))"
  using assms
  by (cases "incoming_ethernet_adapter config"; cases "output_ethernet_adapter config")
    (auto simp: reboot_def attach_adapter_def shut_down_working_ebpf_def Let_def attached_adapters_def
      ebpf_inv_def enforcement_active_def split: if_splits sum.splits)

theorem reboot_all_or_nothing_witness:
  "\<exists>e'. reboot True (\<lambda>links i. if i \<in> {1, 2} then Inr (length links) else Inl ''no such device'')
       (firewall_config_default\<lparr>incoming_ethernet_adapter := Some 2, output_ethernet_adapter := Some 1\<rparr>)
       new_programm = (Inr (), e') \<and> enforcement_active e'"
proof -
  let ?a = "\<lambda>links i. if i \<in> {1 :: u32, 2} then Inr (length (links :: link_id list)) else Inl ''no such device''"
  let ?c = "firewall_config_default\<lparr>incoming_ethernet_adapter := Some 2, output_ethernet_adapter := Some 1\<rparr>"
  obtain r e' where r: "reboot True ?a ?c new_programm = (r, e')" by fastforce
  then have "r = Inr ()"
    by (auto simp: reboot_def attach_adapter_def shut_down_working_ebpf_def Let_def new_programm_def)
  with reboot_all_or_nothing [OF r] r show ?thesis by auto
qed

end
