(* ===== verification/Kernel_Maps.thy ===== *)
theory Kernel_Maps
  imports Common "HOL-Library.Sublist"
begin

text \<open>
  The BPF maps that the eBPF program and the backend share. Their implementation is the
  kernel's (and aya's), so the operations whose outcome the kernel decides are arguments of
  the model, collected in the record \<open>kern\<close>: the insertion into an LRU hash map (which may fail
  and may evict), the three operations of an LPM trie, and the redirect helper. Their
  documented behaviour is stated by the locales \<open>lru_map\<close> and \<open>lpm_trie\<close>; \<open>ref_kern\<close> is an
  executable instance with the capacities the source declares, and interprets both locales.

  The contents of a hash map is an association list in the kernel's iteration order; a trie
  is the table of its prefixes (bit lists) with their actions.
\<close>

section \<open>Hash maps\<close>

type_synonym ('k, 'v) kmap = "('k \<times> 'v) list"
type_synonym ('k, 'v) kmap_insert = "('k, 'v) kmap \<Rightarrow> 'k \<Rightarrow> 'v \<Rightarrow> ('k, 'v) kmap option"

definition kmap_wf :: "('k, 'v) kmap \<Rightarrow> bool" where
  "kmap_wf m \<longleftrightarrow> distinct (map fst m)"

definition kmap_all :: "('k \<Rightarrow> 'v \<Rightarrow> bool) \<Rightarrow> ('k, 'v) kmap \<Rightarrow> bool" where
  "kmap_all P m \<longleftrightarrow> (\<forall>k v. map_of m k = Some v \<longrightarrow> P k v)"

text \<open>A write through the pointer that \<open>get_ptr_mut\<close> returned.\<close>

definition kmap_write :: "'k \<Rightarrow> ('v \<Rightarrow> 'v) \<Rightarrow> ('k, 'v) kmap \<Rightarrow> ('k, 'v) kmap" where
  "kmap_write k f m = map (\<lambda>(k', v). (k', if k' = k then f v else v)) m"

text \<open>\<open>let _ = map.insert(..)\<close>: a failed insertion leaves the map as it was.\<close>

definition put_or_keep :: "('k, 'v) kmap_insert \<Rightarrow> ('k, 'v) kmap \<Rightarrow> 'k \<Rightarrow> 'v \<Rightarrow> ('k, 'v) kmap" where
  "put_or_keep ins m k v = (case ins m k v of None \<Rightarrow> m | Some m' \<Rightarrow> m')"

lemma map_of_kmap_write [map_simps]:
  "map_of (kmap_write k f m) k' = (if k' = k then map_option f (map_of m k) else map_of m k')"
  by (induction m) (auto simp: kmap_write_def)

lemma fst_kmap_write [map_simps]: "map fst (kmap_write k f m) = map fst m"
  by (auto simp: kmap_write_def)

lemma kmap_wf_Nil [simp]: "kmap_wf []"
  by (simp add: kmap_wf_def)

lemma kmap_wf_write [simp]: "kmap_wf (kmap_write k f m) = kmap_wf m"
  by (simp add: kmap_wf_def map_simps)

lemma kmap_wf_del_key [intro]: "kmap_wf m \<Longrightarrow> kmap_wf (del_key k m)"
  by (simp add: kmap_wf_def map_simps)

lemma kmap_wf_del_keys [intro]: "kmap_wf m \<Longrightarrow> kmap_wf (del_keys ks m)"
  by (simp add: kmap_wf_def map_simps)

lemma kmap_all_Nil [simp]: "kmap_all P []"
  by (simp add: kmap_all_def)

lemma kmap_all_del_key [intro]: "kmap_all P m \<Longrightarrow> kmap_all P (del_key k m)"
  by (simp add: kmap_all_def map_simps)

lemma kmap_all_del_keys [intro]: "kmap_all P m \<Longrightarrow> kmap_all P (del_keys ks m)"
  by (simp add: kmap_all_def map_simps)

lemma kmap_all_write [intro]:
  "kmap_all P m \<Longrightarrow> (\<And>v. map_of m k = Some v \<Longrightarrow> P k v \<Longrightarrow> P k (f v)) \<Longrightarrow> kmap_all P (kmap_write k f m)"
  by (auto simp: kmap_all_def map_simps split: if_splits)

text \<open>
  The contract of an insertion into an LRU hash map: on success the key has the new value, no
  other key gains or changes an entry (it may lose it to eviction), keys stay distinct.
\<close>

locale lru_map =
  fixes ins :: "('k, 'v) kmap_insert"
  assumes ins_lookup: "ins m k v = Some m' \<Longrightarrow> map_of m' k = Some v"
    and ins_other: "ins m k v = Some m' \<Longrightarrow> k' \<noteq> k \<Longrightarrow> map_of m' k' = Some w \<Longrightarrow> map_of m k' = Some w"
    and ins_wf: "ins m k v = Some m' \<Longrightarrow> kmap_wf m \<Longrightarrow> kmap_wf m'"
begin

lemma ins_all:
  assumes "ins m k v = Some m'" and "kmap_all P m" and "P k v"
  shows "kmap_all P m'"
  unfolding kmap_all_def
proof (intro allI impI)
  fix k' w
  assume w: "map_of m' k' = Some w"
  show "P k' w"
  proof (cases "k' = k")
    case True
    with w assms(3) ins_lookup [OF assms(1)] show ?thesis by simp
  next
    case False
    with w assms(2) ins_other [OF assms(1)] show ?thesis by (simp add: kmap_all_def)
  qed
qed

lemma put_all: "kmap_all P m \<Longrightarrow> P k v \<Longrightarrow> kmap_all P (put_or_keep ins m k v)"
  by (auto simp: put_or_keep_def intro: ins_all split: option.split)

lemma put_wf: "kmap_wf m \<Longrightarrow> kmap_wf (put_or_keep ins m k v)"
  by (auto simp: put_or_keep_def intro: ins_wf split: option.split)

lemma put_lookup: "ins m k v \<noteq> None \<Longrightarrow> map_of (put_or_keep ins m k v) k = Some v"
  by (auto simp: put_or_keep_def intro: ins_lookup)

lemma put_other:
  "k' \<noteq> k \<Longrightarrow> map_of (put_or_keep ins m k v) k' = Some w \<Longrightarrow> map_of m k' = Some w"
  by (auto simp: put_or_keep_def dest: ins_other split: option.splits)

end

text \<open>A reference map: most recent entry first, the oldest entries evicted beyond the capacity.\<close>

definition lru_put :: "nat \<Rightarrow> ('k, 'v) kmap_insert" where
  "lru_put cap m k v = Some ((k, v) # take (cap - 1) (del_key k m))"

lemma map_of_take: "map_of (take n m) k = Some v \<Longrightarrow> map_of m k = Some v"
  by (induction m arbitrary: n) (auto simp: take_Cons' split: if_splits)

lemma lru_map_lru_put: "lru_map (lru_put cap)"
proof
  fix m :: "('k, 'v) kmap" and k v m' k' w
  assume "lru_put cap m k v = Some m'"
  then have m': "m' = (k, v) # take (cap - 1) (del_key k m)" by (simp add: lru_put_def)
  show "map_of m' k = Some v" by (simp add: m')
  show "kmap_wf m'" if "kmap_wf m"
    using that by (auto simp: m' kmap_wf_def take_map [symmetric] distinct_map_filter del_key_def
        dest!: in_set_takeD)
  show "map_of m k' = Some w" if "k' \<noteq> k" "map_of m' k' = Some w"
    using that map_of_take [of "cap - 1" "del_key k m" k' w] by (auto simp: m' map_simps)
qed

text \<open>The four hash maps are declared with \<open>with_max_entries(1000000, 0)\<close>.\<close>

definition LRU_MAX_ENTRIES :: nat where "LRU_MAX_ENTRIES = 1000000"

interpretation ref_lru: lru_map "lru_put LRU_MAX_ENTRIES"
  by (rule lru_map_lru_put)

section \<open>LPM tries\<close>

type_synonym lpm = "(bool list \<times> action) list"
type_synonym lpm_key = "u32 \<times> u8 list"

text \<open>The bits of network-order bytes, the most significant first.\<close>

definition bits_of_byte :: "u8 \<Rightarrow> bool list" where
  "bits_of_byte b = map (bit b) [7, 6, 5, 4, 3, 2, 1, 0]"

definition bits_of_bytes :: "u8 list \<Rightarrow> bool list" where
  "bits_of_bytes bs = concat (map bits_of_byte bs)"

lemma length_bits_of_bytes [simp]: "length (bits_of_bytes bs) = 8 * length bs"
  by (induction bs) (simp_all add: bits_of_bytes_def bits_of_byte_def)

text \<open>
  A key stands for the prefix of its first \<open>prefix_len\<close> bits: the trie does not compare the
  remaining bits.
\<close>

definition key_prefix :: "lpm_key \<Rightarrow> bool list" where
  "key_prefix key = take (unat (fst key)) (bits_of_bytes (snd key))"

text \<open>
  The contract of a trie of addresses of \<open>width\<close> bits: insertion and removal change the entry of
  the key's prefix and no other, lookup of an address finds the longest prefix that covers it.
\<close>

locale lpm_trie =
  fixes width :: nat
    and get :: "lpm \<Rightarrow> lpm_key \<Rightarrow> action option"
    and ins :: "lpm \<Rightarrow> lpm_key \<Rightarrow> action \<Rightarrow> lpm option"
    and rem :: "lpm \<Rightarrow> lpm_key \<Rightarrow> lpm option"
  assumes get_None: "length bs * 8 = width \<Longrightarrow> unat n = width \<Longrightarrow>
      get t (n, bs) = None \<longleftrightarrow> (\<forall>p. map_of t p \<noteq> None \<longrightarrow> \<not> prefix p (bits_of_bytes bs))"
    and get_Some: "length bs * 8 = width \<Longrightarrow> unat n = width \<Longrightarrow>
      get t (n, bs) = Some a \<Longrightarrow>
      \<exists>p. map_of t p = Some a \<and> prefix p (bits_of_bytes bs) \<and>
        (\<forall>q. map_of t q \<noteq> None \<longrightarrow> prefix q (bits_of_bytes bs) \<longrightarrow> length q \<le> length p)"
    and ins_table: "ins t key a = Some t' \<Longrightarrow> map_of t' = (map_of t)(key_prefix key \<mapsto> a)"
    and rem_table: "rem t key = Some t' \<Longrightarrow> map_of t' = (map_of t)(key_prefix key := None)"
    and rem_absent: "map_of t (key_prefix key) = None \<Longrightarrow> rem t key = None"
begin

lemma get_longest:
  assumes "length bs * 8 = width" and "unat n = width"
    and "map_of t p = Some a" and "prefix p (bits_of_bytes bs)"
    and "\<And>q. map_of t q \<noteq> None \<Longrightarrow> prefix q (bits_of_bytes bs) \<Longrightarrow> length q \<le> length p"
  shows "get t (n, bs) = Some a"
proof -
  from assms get_None [of bs n t] obtain b where b: "get t (n, bs) = Some b"
    by (cases "get t (n, bs)") auto
  with get_Some [of bs n t b] assms(1,2) obtain q where q: "map_of t q = Some b"
    "prefix q (bits_of_bytes bs)"
    "\<And>r. map_of t r \<noteq> None \<Longrightarrow> prefix r (bits_of_bytes bs) \<Longrightarrow> length r \<le> length q"
    by blast
  have "length p = length q"
    using assms(3,4) q assms(5) [of q] by (simp add: le_antisym)
  with assms(4) q(2) have "p = q"
    by (metis prefix_length_prefix prefix_order.antisym order_refl)
  with assms(3) q(1) b show ?thesis by simp
qed

lemma get_iff:
  assumes "length bs * 8 = width" and "unat n = width"
  shows "get t (n, bs) = Some a \<longleftrightarrow>
    (\<exists>p. map_of t p = Some a \<and> prefix p (bits_of_bytes bs) \<and>
      (\<forall>q. map_of t q \<noteq> None \<longrightarrow> prefix q (bits_of_bytes bs) \<longrightarrow> length q \<le> length p))"
  using get_Some [OF assms] get_longest [OF assms] by blast

text \<open>Lookups depend on the table only, so equal tables answer alike.\<close>

lemma get_cong:
  assumes "length bs * 8 = width" and "unat n = width" and "map_of t = map_of t'"
  shows "get t (n, bs) = get t' (n, bs)"
proof -
  have "get t (n, bs) = Some a \<longleftrightarrow> get t' (n, bs) = Some a" for a
    unfolding get_iff [OF assms(1,2)] assms(3) ..
  then show ?thesis by (metis option.exhaust)
qed

end

text \<open>A reference trie of bounded capacity: the lookup tries the prefixes from the longest down.\<close>

fun longest_match :: "lpm \<Rightarrow> bool list \<Rightarrow> nat \<Rightarrow> action option" where
  "longest_match t bs 0 = map_of t []"
| "longest_match t bs (Suc n) =
     (case map_of t (take (Suc n) bs) of Some a \<Rightarrow> Some a | None \<Rightarrow> longest_match t bs n)"

definition lpm_ref_get :: "lpm \<Rightarrow> lpm_key \<Rightarrow> action option" where
  "lpm_ref_get t key = longest_match t (key_prefix key) (length (key_prefix key))"

definition lpm_ref_insert :: "nat \<Rightarrow> nat \<Rightarrow> lpm \<Rightarrow> lpm_key \<Rightarrow> action \<Rightarrow> lpm option" where
  "lpm_ref_insert width cap t key a =
     (if width < unat (fst key) then None
      else if map_of t (key_prefix key) = None \<and> cap \<le> length t then None
      else Some ((key_prefix key, a) # del_key (key_prefix key) t))"

definition lpm_ref_remove :: "nat \<Rightarrow> lpm \<Rightarrow> lpm_key \<Rightarrow> lpm option" where
  "lpm_ref_remove width t key =
     (if width < unat (fst key) \<or> map_of t (key_prefix key) = None then None
      else Some (del_key (key_prefix key) t))"

lemma prefix_take_eq: "prefix q bs \<longleftrightarrow> q = take (length q) bs"
  by (metis append_eq_conv_conj prefixE take_is_prefix)

lemma longest_match_None:
  "longest_match t bs n = None \<longleftrightarrow> (\<forall>i \<le> n. map_of t (take i bs) = None)"
  by (induction n) (auto simp: le_Suc_eq split: option.split)

lemma longest_match_Some:
  "longest_match t bs n = Some a \<Longrightarrow>
   \<exists>i \<le> n. map_of t (take i bs) = Some a \<and> (\<forall>j. i < j \<and> j \<le> n \<longrightarrow> map_of t (take j bs) = None)"
proof (induction n)
  case (Suc n)
  show ?case
  proof (cases "map_of t (take (Suc n) bs)")
    case None
    with Suc obtain i where "i \<le> n" "map_of t (take i bs) = Some a"
      "\<forall>j. i < j \<and> j \<le> n \<longrightarrow> map_of t (take j bs) = None" by auto
    with None show ?thesis by (intro exI [of _ i]) (auto simp: le_Suc_eq)
  next
    case (Some b)
    with Suc.prems show ?thesis by (intro exI [of _ "Suc n"]) auto
  qed
qed auto

lemma lpm_trie_ref: "lpm_trie width lpm_ref_get (lpm_ref_insert width cap) (lpm_ref_remove width)"
proof
  fix bs :: "u8 list" and n :: u32 and t a
  assume w: "length bs * 8 = width" "unat n = width"
  then have kp: "key_prefix (n, bs) = bits_of_bytes bs" "length (bits_of_bytes bs) = width"
    by (simp_all add: key_prefix_def)
  show "lpm_ref_get t (n, bs) = None \<longleftrightarrow>
      (\<forall>p. map_of t p \<noteq> None \<longrightarrow> \<not> prefix p (bits_of_bytes bs))"
    unfolding lpm_ref_get_def kp longest_match_None
    by (metis prefix_take_eq take_is_prefix prefix_length_le kp(2))
  assume "lpm_ref_get t (n, bs) = Some a"
  then obtain i where i: "i \<le> width" "map_of t (take i (bits_of_bytes bs)) = Some a"
    "\<And>j. i < j \<Longrightarrow> j \<le> width \<Longrightarrow> map_of t (take j (bits_of_bytes bs)) = None"
    unfolding lpm_ref_get_def kp by (auto dest!: longest_match_Some)
  have "length q \<le> i" if "map_of t q \<noteq> None" "prefix q (bits_of_bytes bs)" for q
    using that i(3) [of "length q"] prefix_length_le [OF that(2)] kp(2)
    by (metis leI prefix_take_eq)
  with i kp(2) show "\<exists>p. map_of t p = Some a \<and> prefix p (bits_of_bytes bs) \<and>
      (\<forall>q. map_of t q \<noteq> None \<longrightarrow> prefix q (bits_of_bytes bs) \<longrightarrow> length q \<le> length p)"
    by (intro exI [of _ "take i (bits_of_bytes bs)"]) (auto simp: take_is_prefix)
next
  fix t key a t'
  assume "lpm_ref_insert width cap t key a = Some t'"
  then show "map_of t' = (map_of t)(key_prefix key \<mapsto> a)"
    by (auto simp: lpm_ref_insert_def map_simps fun_eq_iff split: if_splits)
next
  fix t key t'
  assume "lpm_ref_remove width t key = Some t'"
  then show "map_of t' = (map_of t)(key_prefix key := None)"
    by (auto simp: lpm_ref_remove_def map_simps split: if_splits)
next
  fix t :: lpm and key
  assume "map_of t (key_prefix key) = None"
  then show "lpm_ref_remove width t key = None" by (simp add: lpm_ref_remove_def)
qed

text \<open>Both tries are declared with \<open>with_max_entries(2048, BPF_F_NO_PREALLOC)\<close>.\<close>

definition LPM_MAX_ENTRIES :: nat where "LPM_MAX_ENTRIES = 2048"

interpretation ref_lpm4:
  lpm_trie 32 lpm_ref_get "lpm_ref_insert 32 LPM_MAX_ENTRIES" "lpm_ref_remove 32"
  by (rule lpm_trie_ref)

interpretation ref_lpm6:
  lpm_trie 128 lpm_ref_get "lpm_ref_insert 128 LPM_MAX_ENTRIES" "lpm_ref_remove 128"
  by (rule lpm_trie_ref)

section \<open>The maps and the kernel's part of their operations\<close>

text \<open>The seven maps, named as in the eBPF program.\<close>

record maps =
  CONFIG :: "firewall_config option"
  ALLOW_LIST_V4 :: "(ipv4_packet, allow_list_state) kmap"
  ALLOW_LIST_V6 :: "(ipv6_packet, allow_list_state) kmap"
  PACKET_COUNTS_V4 :: "(ipv4_packet, token_bucket_state) kmap"
  PACKET_COUNTS_V6 :: "(ipv6_packet, token_bucket_state) kmap"
  SUBNET_MATCHING_V4 :: lpm
  SUBNET_MATCHING_V6 :: lpm

record kern =
  ins_allow_v4 :: "(ipv4_packet, allow_list_state) kmap_insert"
  ins_allow_v6 :: "(ipv6_packet, allow_list_state) kmap_insert"
  ins_counts_v4 :: "(ipv4_packet, token_bucket_state) kmap_insert"
  ins_counts_v6 :: "(ipv6_packet, token_bucket_state) kmap_insert"
  lpm_get_v4 :: "lpm \<Rightarrow> lpm_key \<Rightarrow> action option"
  lpm_ins_v4 :: "lpm \<Rightarrow> lpm_key \<Rightarrow> action \<Rightarrow> lpm option"
  lpm_rem_v4 :: "lpm \<Rightarrow> lpm_key \<Rightarrow> lpm option"
  lpm_get_v6 :: "lpm \<Rightarrow> lpm_key \<Rightarrow> action option"
  lpm_ins_v6 :: "lpm \<Rightarrow> lpm_key \<Rightarrow> action \<Rightarrow> lpm option"
  lpm_rem_v6 :: "lpm \<Rightarrow> lpm_key \<Rightarrow> lpm option"
  bpf_redirect :: "u32 \<Rightarrow> u32"

text \<open>The documented behaviour of the kernel's part, as one hypothesis.\<close>

definition kern_ok :: "kern \<Rightarrow> bool" where
  "kern_ok K \<longleftrightarrow>
     lru_map (ins_allow_v4 K) \<and> lru_map (ins_allow_v6 K) \<and>
     lru_map (ins_counts_v4 K) \<and> lru_map (ins_counts_v6 K) \<and>
     lpm_trie 32 (lpm_get_v4 K) (lpm_ins_v4 K) (lpm_rem_v4 K) \<and>
     lpm_trie 128 (lpm_get_v6 K) (lpm_ins_v6 K) (lpm_rem_v6 K)"

definition XDP_REDIRECT :: u32 where "XDP_REDIRECT = 4"

definition ref_kern :: kern where
  "ref_kern =
     \<lparr>ins_allow_v4 = lru_put LRU_MAX_ENTRIES, ins_allow_v6 = lru_put LRU_MAX_ENTRIES,
      ins_counts_v4 = lru_put LRU_MAX_ENTRIES, ins_counts_v6 = lru_put LRU_MAX_ENTRIES,
      lpm_get_v4 = lpm_ref_get, lpm_ins_v4 = lpm_ref_insert 32 LPM_MAX_ENTRIES,
      lpm_rem_v4 = lpm_ref_remove 32,
      lpm_get_v6 = lpm_ref_get, lpm_ins_v6 = lpm_ref_insert 128 LPM_MAX_ENTRIES,
      lpm_rem_v6 = lpm_ref_remove 128,
      bpf_redirect = (\<lambda>_. XDP_REDIRECT)\<rparr>"

lemma kern_ok_ref: "kern_ok ref_kern"
  by (simp add: kern_ok_def ref_kern_def lru_map_lru_put lpm_trie_ref)

lemma kern_okD:
  assumes "kern_ok K"
  shows "lru_map (ins_allow_v4 K)" "lru_map (ins_allow_v6 K)"
    "lru_map (ins_counts_v4 K)" "lru_map (ins_counts_v6 K)"
    "lpm_trie 32 (lpm_get_v4 K) (lpm_ins_v4 K) (lpm_rem_v4 K)"
    "lpm_trie 128 (lpm_get_v6 K) (lpm_ins_v6 K) (lpm_rem_v6 K)"
  using assms by (auto simp: kern_ok_def)

end
