(* ===== verification/Server.thy ===== *)
theory Server
  imports Auth Ebpf_Program Kernel_Maps
begin

text \<open>
  The state of the backend (\<open>FirewallState\<close> of oxidrop/src/state.rs), what the outside decides during
  one request, and the contract of a handler that needs a permission. The locks of the code make
  each handler's use of a map one step; a handler is a function from the session's user and the
  state to the response and the new state.
\<close>

record server =
  s_db :: database
  s_feed :: "log_row list"
  s_maps :: maps
  s_ebpf :: "ebpf_programm option"

text \<open>
  What the handlers read under /sys/class/net: the readable entries with their names (\<open>None\<close> when not
  UTF-8) and the text of their ifindex files, the text of a counter file, and the name that the
  kernel gives an index.
\<close>

record sysfs =
  net_dir :: "(string option \<times> string option) list option"
  counter_file :: "string \<Rightarrow> string \<Rightarrow> string option"
  index_to_name :: "u32 \<Rightarrow> string option"

text \<open>
  The outside during a request: the external services, the kernel's map operations, the
  statements that fail, the salt drawn, the clock, the boot time, whether the operations on the
  CONFIG array succeed, finding and attaching the eBPF program, the session store, the address
  of the client, /sys, what the session library answers without a user, what the web framework
  answers to a body that does not decode, the frontend's embedded files and their media types.
\<close>

record env =
  e_services :: services
  e_kern :: kern
  e_faults :: sql_faults
  e_salt :: string
  e_now :: int
  e_btime :: "u64 option"
  e_config_get_ok :: bool
  e_config_set_ok :: bool
  e_xdp_ok :: bool
  e_attach :: attach_op
  e_login_ok :: bool
  e_logout_ok :: bool
  e_client_ip :: string
  e_sysfs :: sysfs
  e_login_required :: response
  e_json_rejected :: "string \<Rightarrow> response"
  e_assets :: "string \<Rightarrow> u8 list option"
  e_mime :: "string \<Rightarrow> string"

definition log_event :: "env \<Rightarrow> string \<Rightarrow> string \<Rightarrow> string option \<Rightarrow> server \<Rightarrow> server" where
  "log_event env level message actor s =
     (let st = record_entry (e_services env) (e_faults env) (e_now env) level message actor
                 \<lparr>ls_db = s_db s, ls_feed = s_feed s\<rparr>
      in s\<lparr>s_db := ls_db st, s_feed := ls_feed st\<rparr>)"

text \<open>\<open>state.config.read().await.get(&0, 0)\<close> and \<open>config.set(0, cfg, 0)\<close>.\<close>

definition config_get :: "env \<Rightarrow> server \<Rightarrow> firewall_config option" where
  "config_get env s = (if e_config_get_ok env then CONFIG (s_maps s) else None)"

definition config_set :: "env \<Rightarrow> firewall_config \<Rightarrow> server \<Rightarrow> server option" where
  "config_set env cfg s =
     (if e_config_set_ok env then Some (s\<lparr>s_maps := (s_maps s)\<lparr>CONFIG := Some cfg\<rparr>\<rparr>) else None)"

definition save_config :: "env \<Rightarrow> firewall_config \<Rightarrow> server \<Rightarrow> (sql_error, unit) result \<times> server" where
  "save_config env cfg s =
     (case save_firewall_config (e_faults env) cfg (s_db s) of (r, d') \<Rightarrow> (r, s\<lparr>s_db := d'\<rparr>))"

section \<open>The invariant of the server\<close>

text \<open>
  What every operation of the backend keeps: well-formed accounts and subnet rows, distinct log
  ids, distinct keys of the kernel maps, and an eBPF handle with as many links as adapters.
\<close>

definition db_ok :: "database \<Rightarrow> bool" where
  "db_ok d \<longleftrightarrow> users_ok (users d) \<and> unique_key log_id (firewall_logs d) \<and> subnet_ok_v4 d \<and> subnet_ok_v6 d"

definition tables_ok :: "maps \<Rightarrow> bool" where
  "tables_ok m \<longleftrightarrow> kmap_wf (ALLOW_LIST_V4 m) \<and> kmap_wf (ALLOW_LIST_V6 m) \<and>
     kmap_wf (PACKET_COUNTS_V4 m) \<and> kmap_wf (PACKET_COUNTS_V6 m)"

text \<open>
  There is a valid live configuration; a handle has no link, or one for each adapter it names.
\<close>

definition links_ok :: "ebpf_programm \<Rightarrow> bool" where
  "links_ok e \<longleftrightarrow> programm_loaded e = [] \<or> ebpf_inv e"

definition live_ok :: "firewall_config option \<Rightarrow> ebpf_programm option \<Rightarrow> bool" where
  "live_ok c e \<longleftrightarrow> c \<noteq> None \<and> pred_option config_wf c \<and> pred_option links_ok e"

definition server_ok :: "server \<Rightarrow> bool" where
  "server_ok s \<longleftrightarrow> db_ok (s_db s) \<and> tables_ok (s_maps s) \<and> live_ok (CONFIG (s_maps s)) (s_ebpf s)"

definition env_ok :: "env \<Rightarrow> bool" where
  "env_ok env \<longleftrightarrow> services_ok (e_services env) \<and> kern_ok (e_kern env)"

lemma env_okD: "env_ok env \<Longrightarrow> services_ok (e_services env)" "env_ok env \<Longrightarrow> kern_ok (e_kern env)"
  by (simp_all add: env_ok_def)

lemma db_ok_users [intro]: "db_ok d \<Longrightarrow> users_ok us \<Longrightarrow> db_ok (d\<lparr>users := us\<rparr>)"
  by (simp add: db_ok_def subnet_ok_v4_def subnet_ok_v6_def)

lemma db_ok_config [simp]: "db_ok (d\<lparr>firewall_config_row_1 := r\<rparr>) = db_ok d"
  by (simp add: db_ok_def subnet_ok_v4_def subnet_ok_v6_def)

lemma insert_log_ok:
  assumes "services_ok S" and "db_ok d"
  shows "db_ok (snd (insert_log S flt row d))"
proof -
  have "new_rowid S (map log_id (firewall_logs d)) \<notin> log_id ` set (firewall_logs d)"
    using new_rowid_fresh [OF assms(1), of "map log_id (firewall_logs d)"] by simp
  with assms(2) show ?thesis
    by (auto simp: insert_log_def Let_def db_ok_def unique_key_def subnet_ok_v4_def subnet_ok_v6_def)
qed

lemma record_details_ok:
  "services_ok S \<Longrightarrow> db_ok (ls_db st) \<Longrightarrow>
   db_ok (ls_db (record_details S flt now l m a sip dip sp dp pr act st))"
  using insert_log_ok [of S "ls_db st" flt] unfolding record_details_def
  by (auto split: prod.split sum.split) (metis snd_conv)+

lemma record_log_ok: "services_ok S \<Longrightarrow> db_ok d \<Longrightarrow> db_ok (snd (record_log S flt now l m a d))"
  using insert_log_ok [of S d flt] unfolding record_log_def
  by (auto split: prod.split sum.split) (metis snd_conv)+

lemma db_ok_same:
  assumes "db_ok d" and "same_policy d d'" and "firewall_logs d' = firewall_logs d" and "users_ok (users d')"
  shows "db_ok d'"
  using assms by (simp add: db_ok_def same_policy_def subnet_ok_v4_def subnet_ok_v6_def)

lemma bootstrap_db_ok:
  assumes "services_ok S" and "db_ok d"
  shows "db_ok (snd (bootstrap_default_admin S flt salt now d))"
proof -
  have "db_ok (bootstrap_logged S flt now d)"
    unfolding bootstrap_logged_def by (intro record_log_ok assms)
  from db_ok_same [OF this same_policy_insert internal_insert_logs internal_insert_ok [OF assms(1)]] this
  have "db_ok (snd (internal_insert_user S flt salt DEFAULT_ADMIN_USERNAME DEFAULT_ADMIN_PASSWORD Admin
      permissions_all 1 True (bootstrap_logged S flt now d)))"
    by (simp add: db_ok_def)
  with assms(2) show ?thesis by (simp add: bootstrap_snd)
qed

lemma log_event_ok: "services_ok (e_services env) \<Longrightarrow> server_ok s \<Longrightarrow> server_ok (log_event env l m a s)"
  using record_details_ok [of "e_services env" "\<lparr>ls_db = s_db s, ls_feed = s_feed s\<rparr>"]
  by (simp add: server_ok_def log_event_def record_entry_def Let_def)

lemma log_event_sel [simp]:
  "s_maps (log_event env l m a s) = s_maps s" "s_ebpf (log_event env l m a s) = s_ebpf s"
  by (simp_all add: log_event_def Let_def)

lemma insert_log_frame:
  "users (snd (insert_log S flt row d)) = users d"
  "firewall_config_row_1 (snd (insert_log S flt row d)) = firewall_config_row_1 d"
  "subnet_match_v4 (snd (insert_log S flt row d)) = subnet_match_v4 d"
  "subnet_match_v6 (snd (insert_log S flt row d)) = subnet_match_v6 d"
  by (simp_all add: insert_log_def Let_def)

lemma log_event_db [simp]:
  "users (s_db (log_event env l m a s)) = users (s_db s)"
  "firewall_config_row_1 (s_db (log_event env l m a s)) = firewall_config_row_1 (s_db s)"
  "subnet_match_v4 (s_db (log_event env l m a s)) = subnet_match_v4 (s_db s)"
  "subnet_match_v6 (s_db (log_event env l m a s)) = subnet_match_v6 (s_db s)"
  using insert_log_frame
  by (simp_all add: log_event_def record_entry_def record_details_def Let_def case_prod_unfold
      split: sum.split)

lemma config_set_ok:
  "config_set env cfg s = Some s' \<Longrightarrow> config_wf cfg \<Longrightarrow> server_ok s \<Longrightarrow> server_ok s'"
  by (auto simp: config_set_def server_ok_def tables_ok_def live_ok_def split: if_splits)

lemma save_config_ok: "server_ok s \<Longrightarrow> server_ok (snd (save_config env cfg s))"
  by (auto simp: save_config_def save_firewall_config_def server_ok_def split: sum.split)

lemma save_config_sel [simp]:
  "s_maps (snd (save_config env cfg s)) = s_maps s" "s_ebpf (snd (save_config env cfg s)) = s_ebpf s"
  by (auto simp: save_config_def split: prod.split)

section \<open>The contract of a handler\<close>

text \<open>
  A handler guarded by a permission: without a session it answers 401, to a caller without the
  permission 401 or 403, and in both cases the state is left as it was; it keeps the invariant.
\<close>

locale guarded_handler =
  fixes handle :: "app_user option \<Rightarrow> server \<Rightarrow> response \<times> server"
    and permission :: u8
    and ok :: "server \<Rightarrow> bool"
  assumes anonymous: "handle None s = ((S_UNAUTHORIZED, NoBody), s)"
    and denied: "\<not> may (caller_of u) permission \<Longrightarrow>
      fst (fst (handle (Some u) s)) \<in> {S_UNAUTHORIZED, S_FORBIDDEN} \<and> snd (handle (Some u) s) = s"
    and keeps: "ok s \<Longrightarrow> ok (snd (handle session s))"
begin

lemma change_needs:
  assumes "snd (handle session s) \<noteq> s"
  shows "\<exists>u. session = Some u \<and> may (caller_of u) permission"
  using assms anonymous denied by (cases session) auto

lemma success_needs:
  assumes "fst (fst (handle session s)) \<notin> {S_UNAUTHORIZED, S_FORBIDDEN}"
  shows "\<exists>u. session = Some u \<and> may (caller_of u) permission"
  using assms anonymous denied by (cases session) auto

end

text \<open>The guard of the handlers of state.rs: both refusals are 401.\<close>

definition guarded ::
    "u8 \<Rightarrow> (app_user \<Rightarrow> server \<Rightarrow> response \<times> server) \<Rightarrow> app_user option \<Rightarrow> server \<Rightarrow> response \<times> server" where
  "guarded permission act session s =
     (case session of
        None \<Rightarrow> ((S_UNAUTHORIZED, NoBody), s)
      | Some u \<Rightarrow>
          if may (caller_of u) permission then act u s else ((S_UNAUTHORIZED, NoBody), s))"

definition keeps_ok :: "env \<Rightarrow> server \<Rightarrow> bool" where
  "keeps_ok env s \<longleftrightarrow> env_ok env \<longrightarrow> server_ok s"

lemma guarded_handlerI:
  assumes "\<And>u s. env_ok env \<Longrightarrow> server_ok s \<Longrightarrow> server_ok (snd (act u s))"
  shows "guarded_handler (guarded permission act) permission (keeps_ok env)"
  using assms by unfold_locales (auto simp: guarded_def keeps_ok_def split: option.split)

section \<open>A running server\<close>

text \<open>A reference outside, and a server just started on the default configuration.\<close>

definition ref_env :: env where
  "ref_env = \<lparr>e_services = ref_services, e_kern = ref_kern, e_faults = no_faults, e_salt = ''salt'',
     e_now = 1000, e_btime = Some 500, e_config_get_ok = True, e_config_set_ok = True,
     e_xdp_ok = True, e_attach = (\<lambda>links i. Inr (length links)), e_login_ok = True,
     e_logout_ok = True, e_client_ip = ''127.0.0.1'',
     e_sysfs = \<lparr>net_dir = Some [(Some ''lo'', Some (''1'' @ [CHR 0x0A])), (Some ''eth0'', Some (''2'' @ [CHR 0x0A]))],
       counter_file = (\<lambda>name counter. Some (''17'' @ [CHR 0x0A])),
       index_to_name = (\<lambda>i. if i = 1 then Some ''lo'' else if i = 2 then Some ''eth0'' else None)\<rparr>,
     e_login_required = (S_TEMPORARY_REDIRECT, RedirectTo ''/api/v1/login''),
     e_json_rejected = (\<lambda>msg. (S_UNPROCESSABLE_ENTITY, Text msg)),
     e_assets = [''index.html'' \<mapsto> [0x3C, 0x21]], e_mime = (\<lambda>path. ''text/html'')\<rparr>"

definition empty_maps :: maps where
  "empty_maps = \<lparr>CONFIG = None, ALLOW_LIST_V4 = [], ALLOW_LIST_V6 = [], PACKET_COUNTS_V4 = [],
     PACKET_COUNTS_V6 = [], SUBNET_MATCHING_V4 = [], SUBNET_MATCHING_V6 = []\<rparr>"

definition sample_server :: server where
  "sample_server = \<lparr>s_db = empty_database, s_feed = [],
     s_maps = empty_maps\<lparr>CONFIG := Some firewall_config_default\<rparr>, s_ebpf = Some new_programm\<rparr>"

definition sample_user :: app_user where
  "sample_user = \<lparr>au_id = 1, au_username = ''admin'', au_role = Admin, au_permissions = 7,
     au_password_hash = ''$first password'', au_password_must_be_changed = False\<rparr>"

lemma ref_env_ok: "env_ok ref_env"
  by (simp add: env_ok_def ref_env_def services_ok_ref kern_ok_ref)

lemma sample_server_ok: "server_ok sample_server"
  by (simp add: server_ok_def db_ok_def tables_ok_def live_ok_def sample_server_def empty_maps_def
      empty_database_def users_ok_def unique_key_def subnet_ok_v4_def subnet_ok_v6_def codec_ok_def
      config_wf_default links_ok_def new_programm_def)

lemma sample_user_may: "may (caller_of sample_user) MODIFY" "may (caller_of sample_user) CREATE"
  "may (caller_of sample_user) DELETE"
  by (simp_all add: may_def caller_of_def sample_user_def flags_contains_def MODIFY_def CREATE_def DELETE_def)

end
