(* ===== verification/Api.thy ===== *)
theory Api
  imports Server
begin

text \<open>
  The endpoints of user management (oxidrop/src/api.rs). Each reads the session's user, makes it
  the caller, runs the database operation and maps its outcome to a response; the permission is
  checked by the database operation. \<open>guarded_handler\<close> is interpreted on the four endpoints that
  change accounts.
\<close>

record create_user_req =
  cu_username :: string
  cu_password :: string
  cu_role :: roles_user
  cu_permissions :: u8
  cu_password_must_be_changed :: bool

record modify_user_req =
  mu_target_username :: string
  mu_role :: roles_user
  mu_permissions :: u8
  mu_is_active :: int
  mu_password :: "string option"

record rename_user_req =
  ru_current_username :: string
  ru_new_username :: string

text \<open>\<open>Ok(_) => status.into_response(), Err(e) => e.into_response()\<close>.\<close>

definition respond :: "status \<Rightarrow> (user_error, unit) result \<times> database \<Rightarrow> server \<Rightarrow> response \<times> server" where
  "respond ok outcome s =
     (case outcome of
        (Inr _, d') \<Rightarrow> ((ok, NoBody), s\<lparr>s_db := d'\<rparr>)
      | (Inl e, d') \<Rightarrow> (user_error_response e, s\<lparr>s_db := d'\<rparr>))"

definition create_user_endpoint ::
    "env \<Rightarrow> create_user_req \<Rightarrow> app_user option \<Rightarrow> server \<Rightarrow> response \<times> server" where
  "create_user_endpoint env payload session s =
     (case session of
        None \<Rightarrow> ((S_UNAUTHORIZED, NoBody), s)
      | Some user \<Rightarrow>
          respond S_CREATED
            (create_user (e_services env) (e_faults env) (e_salt env) (caller_of user)
               (cu_username payload) (cu_password payload) (cu_role payload)
               (cu_permissions payload) (cu_password_must_be_changed payload) (s_db s)) s)"

definition modify_user_endpoint ::
    "env \<Rightarrow> modify_user_req \<Rightarrow> app_user option \<Rightarrow> server \<Rightarrow> response \<times> server" where
  "modify_user_endpoint env payload session s =
     (case session of
        None \<Rightarrow> ((S_UNAUTHORIZED, NoBody), s)
      | Some user \<Rightarrow>
          respond S_OK
            (modify_user (e_services env) (e_faults env) (e_salt env) (caller_of user)
               (mu_target_username payload) (mu_role payload) (mu_permissions payload)
               (mu_is_active payload) (mu_password payload) (s_db s)) s)"

definition rename_user_endpoint ::
    "env \<Rightarrow> rename_user_req \<Rightarrow> app_user option \<Rightarrow> server \<Rightarrow> response \<times> server" where
  "rename_user_endpoint env payload session s =
     (case session of
        None \<Rightarrow> ((S_UNAUTHORIZED, NoBody), s)
      | Some user \<Rightarrow>
          respond S_OK
            (change_username (e_faults env) (caller_of user) (ru_current_username payload)
               (ru_new_username payload) (s_db s)) s)"

definition delete_user_endpoint ::
    "env \<Rightarrow> string \<Rightarrow> app_user option \<Rightarrow> server \<Rightarrow> response \<times> server" where
  "delete_user_endpoint env target_username session s =
     (case session of
        None \<Rightarrow> ((S_UNAUTHORIZED, NoBody), s)
      | Some user \<Rightarrow>
          respond S_NO_CONTENT
            (delete_user (e_faults env) target_username (caller_of user) (s_db s)) s)"

definition list_users :: "env \<Rightarrow> app_user option \<Rightarrow> server \<Rightarrow> response" where
  "list_users env session s =
     (case session of
        None \<Rightarrow> (S_UNAUTHORIZED, NoBody)
      | Some user \<Rightarrow>
          if au_role user \<noteq> Admin then (S_FORBIDDEN, NoBody)
          else case get_all_users (e_faults env) (s_db s) of
            Inr rows \<Rightarrow> (S_OK, UsersJson rows)
          | Inl _ \<Rightarrow> (S_INTERNAL_SERVER_ERROR, NoBody))"

text \<open>
  The change of one's own password: the session is renewed for the re-read user, because the stored
  hash binds a session to the password.
\<close>

definition change_password_endpoint ::
    "env \<Rightarrow> string \<Rightarrow> app_user option \<Rightarrow> server \<Rightarrow> response \<times> app_user option \<times> server" where
  "change_password_endpoint env password session s =
     (case session of
        None \<Rightarrow> ((S_UNAUTHORIZED, NoBody), session, s)
      | Some current_user \<Rightarrow>
          (case change_password (e_services env) (e_faults env) (e_salt env) (au_id current_user)
                  password (s_db s) of
             (Inl e, d') \<Rightarrow> (user_error_response e, session, s\<lparr>s_db := d'\<rparr>)
           | (Inr _, d') \<Rightarrow>
               (case get_user (e_faults env) (au_id current_user) d' of
                  Inr (Some refreshed_user) \<Rightarrow>
                    (if e_login_ok env
                     then ((S_NO_CONTENT, NoBody), Some refreshed_user, s\<lparr>s_db := d'\<rparr>)
                     else ((S_CONFLICT, Text ''Password changed. Please sign in again.''), session,
                           s\<lparr>s_db := d'\<rparr>))
                | Inr None \<Rightarrow> ((S_UNAUTHORIZED, NoBody), session, s\<lparr>s_db := d'\<rparr>)
                | Inl _ \<Rightarrow> ((S_INTERNAL_SERVER_ERROR, NoBody), session, s\<lparr>s_db := d'\<rparr>))))"

section \<open>Interpretations\<close>

lemma update_users_logs: "update_users flt stmt sel f d = (r, d') \<Longrightarrow> firewall_logs d' = firewall_logs d"
  by (auto simp: update_users_def Let_def split: if_splits)

lemma account_logs [simp]:
  "firewall_logs (snd (create_user S flt salt c name pw r perms must d)) = firewall_logs d"
  "firewall_logs (snd (modify_user S flt salt c name r perms act new_pw d)) = firewall_logs d"
  "firewall_logs (snd (change_username flt c old new d)) = firewall_logs d"
  "firewall_logs (snd (delete_user flt name c d)) = firewall_logs d"
  "firewall_logs (snd (change_password S flt salt uid pw d)) = firewall_logs d"
proof -
  show "firewall_logs (snd (create_user S flt salt c name pw r perms must d)) = firewall_logs d"
    using internal_insert_snd [of S flt salt name pw r perms "if must then 1 else 0" False d]
    by (auto simp: create_user_def insert_user_row_def)
  show "firewall_logs (snd (modify_user S flt salt c name r perms act new_pw d)) = firewall_logs d"
    by (cases rule: modify_user_steps [of c S flt salt name r perms act new_pw d])
      (auto dest: update_users_logs)
  show "firewall_logs (snd (change_username flt c old new d)) = firewall_logs d"
    by (cases rule: rename_cases [of c flt old new d]) (auto dest: update_users_logs)
  show "firewall_logs (snd (delete_user flt name c d)) = firewall_logs d"
    by (simp add: delete_user_def Let_def)
  show "firewall_logs (snd (change_password S flt salt uid pw d)) = firewall_logs d"
    by (auto simp: change_password_def dest: update_users_logs split: sum.split prod.split)
qed

lemma respond_snd [simp]: "snd (respond st outcome s) = s\<lparr>s_db := snd outcome\<rparr>"
  by (auto simp: respond_def split: prod.split sum.split)

lemma respond_denied: "outcome = (Inl LackingPermission, s_db s) \<Longrightarrow>
    fst (fst (respond st outcome s)) = S_FORBIDDEN \<and> snd (respond st outcome s) = s"
  by (simp add: respond_def)

text \<open>The four endpoints inherit the contract from the database operations they call.\<close>

lemma account_endpoint:
  assumes op: "guarded_op oper permission (accounts_ok (e_services env))"
    and logs: "\<And>c d. firewall_logs (snd (oper c d)) = firewall_logs d"
    and def: "\<And>session s. handle session s =
      (case session of None \<Rightarrow> ((S_UNAUTHORIZED, NoBody), s)
       | Some u \<Rightarrow> respond st (oper (caller_of u) (s_db s)) s)"
  shows "guarded_handler handle permission (keeps_ok env)"
proof
  show "handle None s = ((S_UNAUTHORIZED, NoBody), s)" for s by (simp add: def)
  show "fst (fst (handle (Some u) s)) \<in> {S_UNAUTHORIZED, S_FORBIDDEN} \<and> snd (handle (Some u) s) = s"
    if "\<not> may (caller_of u) permission" for u s
    using respond_denied [OF guarded_op.denied [OF op that]] by (simp add: def)
  show "keeps_ok env (snd (handle session s))" if "keeps_ok env s" for session s
  proof (cases session)
    case (Some u)
    have "db_ok (snd (oper (caller_of u) (s_db s)))" if "env_ok env" "server_ok s"
    proof (rule db_ok_same [OF _ guarded_op.frame [OF op] logs])
      show "db_ok (s_db s)" using that by (simp add: server_ok_def)
      show "users_ok (users (snd (oper (caller_of u) (s_db s))))"
        using guarded_op.preserves [OF op, of "s_db s" "caller_of u"] that
        by (simp add: accounts_ok_def env_ok_def server_ok_def db_ok_def)
    qed
    with \<open>keeps_ok env s\<close> show ?thesis by (simp add: Some def keeps_ok_def server_ok_def)
  qed (use that in \<open>simp add: def\<close>)
qed

interpretation create_handler: guarded_handler "create_user_endpoint env payload" CREATE "keeps_ok env"
  for env payload
  by (rule account_endpoint [OF create_op.guarded_op_axioms])
    (auto simp: create_user_endpoint_def intro: create_op.guarded_op_axioms)

interpretation modify_handler: guarded_handler "modify_user_endpoint env payload" MODIFY "keeps_ok env"
  for env payload
  by (rule account_endpoint [OF modify_op.guarded_op_axioms])
    (auto simp: modify_user_endpoint_def)

interpretation rename_handler: guarded_handler "rename_user_endpoint env payload" MODIFY "keeps_ok env"
  for env payload
  by (rule account_endpoint [OF rename_op.guarded_op_axioms])
    (auto simp: rename_user_endpoint_def)

interpretation delete_handler: guarded_handler "delete_user_endpoint env target" DELETE "keeps_ok env"
  for env target
  by (rule account_endpoint [OF delete_op.guarded_op_axioms])
    (auto simp: delete_user_endpoint_def)

section \<open>Properties\<close>

lemma get_user_Some:
  assumes "get_user flt i d = Inr (Some a)"
  obtains u where "u \<in> set (users d)" and "u_id u = i" and "a = row_to_user u"
proof -
  from assms obtain u where f: "find (\<lambda>u. u_id u = i \<and> u_is_active u = 1) (users d) = Some u"
    and a: "a = row_to_user u"
    by (auto simp: get_user_def split: if_splits option.splits)
  from f have "u \<in> set (users d)" "u_id u = i" by (auto simp: find_Some_iff)
  with a that show thesis by blast
qed

text \<open>
  Changing one's own password: when it succeeds, the session continues as the same account with
  the new hash, which verifies the new password, and without the obligation to change it; the
  password passed validation, and the rows of all other accounts are untouched.
\<close>

theorem own_password_change:
  assumes "services_ok (e_services env)"
    and "change_password_endpoint env pw session s = ((S_NO_CONTENT, b), session', s')"
  shows "\<exists>u v. session = Some u \<and> session' = Some v \<and> au_id v = au_id u \<and>
    \<not> au_password_must_be_changed v \<and>
    argon_verify (e_services env) (au_password_hash v) pw \<and> validate_password pw = Inr () \<and>
    (\<forall>x \<in> set (users (s_db s)). u_id x \<noteq> au_id u \<longrightarrow> x \<in> set (users (s_db s')))"
proof -
  obtain u where u: "session = Some u" using assms(2) by (cases session) (auto simp: change_password_endpoint_def)
  obtain r d' where c: "change_password (e_services env) (e_faults env) (e_salt env) (au_id u) pw (s_db s) = (r, d')"
    by fastforce
  have r: "r = Inr ()"
  proof (cases r)
    case (Inl e)
    with assms(2) u c have "fst (user_error_response e) = S_NO_CONTENT"
      by (auto simp: change_password_endpoint_def)
    with user_error_response_not_success [of e] show ?thesis by simp
  qed simp
  then obtain v where v: "get_user (e_faults env) (au_id u) d' = Inr (Some v)"
    and s': "session' = Some v" "s' = s\<lparr>s_db := d'\<rparr>"
    using assms(2) u c
    by (auto simp: change_password_endpoint_def split: sum.splits option.splits if_splits)
  obtain h where h: "argon_hash (e_services env) (e_salt env) pw = Inr h" "validate_password pw = Inr ()"
    and us: "users d' = map (\<lambda>x. if u_id x = au_id u
           then x\<lparr>u_password_hash := h, u_password_must_be_changed := 0\<rparr> else x) (users (s_db s))"
    by (rule change_password_Inr [OF c [unfolded r]])
  obtain row where row: "row \<in> set (users d')" "u_id row = au_id u" "v = row_to_user row"
    by (rule get_user_Some [OF v])
  obtain x where "row = (if u_id x = au_id u
      then x\<lparr>u_password_hash := h, u_password_must_be_changed := 0\<rparr> else x)"
    using row(1) unfolding us set_map by (rule imageE)
  with row(2) have "u_password_hash row = h" "u_password_must_be_changed row = 0"
    by (cases "u_id x = au_id u"; simp)+
  moreover have "x \<in> set (users d')" if "x \<in> set (users (s_db s))" "u_id x \<noteq> au_id u" for x
    using that unfolding us set_map by (intro image_eqI [of _ _ x]) simp_all
  ultimately show ?thesis
    using u s' row h assms(1) by (simp add: row_to_user_def services_ok_def)
qed

theorem own_password_change_witness:
  "\<exists>v s'. change_password_endpoint ref_env ''third password'' (Some sample_user)
       (sample_server\<lparr>s_db := sample_database\<rparr>) = ((S_NO_CONTENT, NoBody), Some v, s') \<and>
     argon_verify ref_services (au_password_hash v) ''third password''"
proof -
  let ?d' = "sample_database\<lparr>users := [\<lparr>u_id = 1, u_username = ''admin'', u_password_hash = ''$third password'',
       u_role = ''admin'', u_action_permissions = 7, u_password_must_be_changed = 0, u_is_active = 1,
       u_last_login_at = None\<rparr>]\<rparr>"
  have "change_password ref_services no_faults ''salt'' 1 ''third password'' sample_database = (Inr (), ?d')"
    by code_simp
  then obtain v where e: "change_password_endpoint ref_env ''third password'' (Some sample_user)
      (sample_server\<lparr>s_db := sample_database\<rparr>) =
    ((S_NO_CONTENT, NoBody), Some v, sample_server\<lparr>s_db := ?d'\<rparr>)"
    by (simp add: change_password_endpoint_def ref_env_def sample_user_def get_user_def)
  from own_password_change [OF _ e] e show ?thesis by (auto simp: ref_env_def services_ok_ref)
qed

end
