(* ===== verification/Status_Handlers.thy ===== *)
theory Status_Handlers
  imports Server
begin

text \<open>
  The handlers that only read: the log (\<open>get_logs\<close>, \<open>log_websocket\<close>, \<open>stream_logs\<close>), the traffic counters
  (\<open>interface_name\<close>, \<open>read_interface_counter\<close>, \<open>get_traffic_stats\<close>) of oxidrop/src/state.rs, and the
  adapters (\<open>resolve_iface\<close>, \<open>get_ebpf_adapters\<close> of oxidrop/src/ebpf.rs). The files under /sys are an
  argument (\<open>sysfs\<close>); their text is ASCII.
\<close>

section \<open>Unsigned numbers as text\<close>

text \<open>\<open>trim\<close> and \<open>parse\<close> of an unsigned integer: an optional plus sign, then at least one digit.\<close>

definition is_space :: "char \<Rightarrow> bool" where
  "is_space c \<longleftrightarrow> c \<in> {CHR 0x09, CHR 0x0A, CHR 0x0B, CHR 0x0C, CHR 0x0D, CHR '' ''}"

definition trim :: "string \<Rightarrow> string" where
  "trim s = rev (dropWhile is_space (rev (dropWhile is_space s)))"

definition is_digit :: "char \<Rightarrow> bool" where
  "is_digit c \<longleftrightarrow> 48 \<le> (of_char c :: nat) \<and> (of_char c :: nat) \<le> 57"

definition digits_value :: "string \<Rightarrow> nat" where
  "digits_value s = foldl (\<lambda>n c. n * 10 + (of_char c - 48)) 0 s"

definition strip_plus :: "string \<Rightarrow> string" where
  "strip_plus s = (case s of c # rest \<Rightarrow> if c = CHR ''+'' then rest else s | [] \<Rightarrow> [])"

definition parse_unsigned :: "string \<Rightarrow> 'a::len word option" where
  "parse_unsigned s =
     (let ds = strip_plus s in
      if ds = [] \<or> \<not> list_all is_digit ds then None
      else if digits_value ds < 2 ^ LENGTH('a) then Some (of_nat (digits_value ds)) else None)"

section \<open>The log\<close>

definition is_admin :: "app_user option \<Rightarrow> bool" where
  "is_admin session = (case session of None \<Rightarrow> False | Some user \<Rightarrow> au_role user = Admin)"

definition get_logs :: "env \<Rightarrow> app_user option \<Rightarrow> server \<Rightarrow> response" where
  "get_logs env session s =
     (if \<not> is_admin session then (S_FORBIDDEN, NoBody)
      else if e_faults env SelectLogs then (S_INTERNAL_SERVER_ERROR, NoBody)
      else (S_OK, LogsJson (recent (s_db s))))"

text \<open>The upgrade hands the subscription to \<open>stream_logs\<close>.\<close>

definition log_websocket :: "app_user option \<Rightarrow> response" where
  "log_websocket session =
     (if \<not> is_admin session then (S_FORBIDDEN, NoBody) else (S_SWITCHING_PROTOCOLS, LogStream))"

text \<open>
  The messages that \<open>stream_logs\<close> sends, over what the subscription yields: an entry, with whether
  sending its message succeeds, or an error (the channel is closed, or the reader fell behind), which
  ends the stream. \<open>to_json\<close> is the serialiser; an entry that it refuses is skipped.
\<close>

fun stream_logs :: "('e \<Rightarrow> string option) \<Rightarrow> (unit, 'e \<times> bool) result list \<Rightarrow> string list" where
  "stream_logs to_json [] = []"
| "stream_logs to_json (Inl _ # received) = []"
| "stream_logs to_json (Inr (entry, sent) # received) =
     (case to_json entry of
        None \<Rightarrow> stream_logs to_json received
      | Some message \<Rightarrow> if sent then message # stream_logs to_json received else [])"

text \<open>
  A subscriber sees a prefix of the published entries, in their order and without a gap; all of them
  when no error and no failed sending comes between.
\<close>

lemma stream_logs_prefix:
  "prefix (stream_logs to_json received)
     (List.map_filter (\<lambda>r. case r of Inl _ \<Rightarrow> None | Inr (entry, _) \<Rightarrow> to_json entry) received)"
  by (induction to_json received rule: stream_logs.induct)
    (auto simp: List.map_filter_def split: option.splits)

lemma stream_logs_all:
  "stream_logs to_json (map (\<lambda>entry. Inr (entry, True)) feed) = List.map_filter to_json feed"
  by (induction feed) (auto simp: List.map_filter_def split: option.splits)

section \<open>Interfaces\<close>

definition named_interfaces :: "(string option \<times> string option) list \<Rightarrow> (u32 \<times> string) list" where
  "named_interfaces entries =
     List.map_filter (\<lambda>(name, ifindex).
       Option.bind name (\<lambda>n. Option.bind ifindex (\<lambda>text.
       Option.bind (parse_unsigned (trim text)) (\<lambda>index. Some (index, n))))) entries"

text \<open>The first entry with the index, \<open>Inl\<close> when the directory cannot be read.\<close>

definition interface_name :: "sysfs \<Rightarrow> u32 option \<Rightarrow> (unit, string option) result" where
  "interface_name fs index =
     (case index of
        None \<Rightarrow> Inr None
      | Some i \<Rightarrow>
          (case net_dir fs of
             None \<Rightarrow> Inl ()
           | Some entries \<Rightarrow>
               Inr (map_option snd (find (\<lambda>(ifindex, name). ifindex = i) (named_interfaces entries)))))"

definition read_interface_counter :: "sysfs \<Rightarrow> string \<Rightarrow> string \<Rightarrow> (unit, u64) result" where
  "read_interface_counter fs name counter =
     ok_or () (Option.bind (counter_file fs name counter) (\<lambda>text. parse_unsigned (trim text)))"

text \<open>Packets and bytes, zero for an adapter that is not configured.\<close>

definition read_counters :: "sysfs \<Rightarrow> string option \<Rightarrow> string \<Rightarrow> string \<Rightarrow> (unit, u64 \<times> u64) result" where
  "read_counters fs interface packets bytes =
     (case interface of
        None \<Rightarrow> Inr (0, 0)
      | Some name \<Rightarrow>
          result_bind (read_interface_counter fs name packets) (\<lambda>p.
          result_bind (read_interface_counter fs name bytes) (\<lambda>b. Inr (p, b))))"

definition get_traffic_stats :: "env \<Rightarrow> app_user option \<Rightarrow> server \<Rightarrow> response" where
  "get_traffic_stats env session s =
     (let fs = e_sysfs env; unavailable = (S_SERVICE_UNAVAILABLE, NoBody) in
      if session = None then (S_UNAUTHORIZED, NoBody)
      else case config_get env s of
        None \<Rightarrow> (S_INTERNAL_SERVER_ERROR, NoBody)
      | Some config \<Rightarrow>
          (case interface_name fs (incoming_ethernet_adapter config) of
             Inl _ \<Rightarrow> unavailable
           | Inr incoming \<Rightarrow>
               (case interface_name fs (output_ethernet_adapter config) of
                  Inl _ \<Rightarrow> unavailable
                | Inr outgoing \<Rightarrow>
                    if incoming_ethernet_adapter config \<noteq> None \<and> incoming = None then unavailable
                    else if output_ethernet_adapter config \<noteq> None \<and> outgoing = None then unavailable
                    else case read_counters fs incoming ''rx_packets'' ''rx_bytes'' of
                      Inl _ \<Rightarrow> unavailable
                    | Inr rx \<Rightarrow>
                        (case read_counters fs outgoing ''tx_packets'' ''tx_bytes'' of
                           Inl _ \<Rightarrow> unavailable
                         | Inr tx \<Rightarrow> (S_OK, TrafficJson rx tx)))))"

definition resolve_iface :: "sysfs \<Rightarrow> u32 \<Rightarrow> u32 \<times> string" where
  "resolve_iface fs index =
     (index, case index_to_name fs index of Some name \<Rightarrow> name | None \<Rightarrow> ''unknown_or_down'')"

definition get_ebpf_adapters :: "env \<Rightarrow> app_user option \<Rightarrow> server \<Rightarrow> response" where
  "get_ebpf_adapters env session s =
     (let fs = e_sysfs env;
          available = sort_key fst (case net_dir fs of None \<Rightarrow> [] | Some entries \<Rightarrow> named_interfaces entries)
      in if session = None then (S_UNAUTHORIZED, NoBody)
         else case s_ebpf s of
           None \<Rightarrow> (S_OK, AdaptersJson available None None False)
         | Some e \<Rightarrow>
             (case attached_adapters e of (incoming, output) \<Rightarrow>
                (S_OK, AdaptersJson available (map_option (resolve_iface fs) incoming)
                  (map_option (resolve_iface fs) output) (enforcement_active e))))"

section \<open>Numbers survive the text\<close>

lemma digit_char_digit: "d < 10 \<Longrightarrow> is_digit (digit_char d) \<and> of_char (digit_char d) = 48 + d"
  by (simp add: is_digit_def digit_char_def)

lemma digits_value_append: "digits_value (s @ [c]) = digits_value s * 10 + (of_char c - 48)"
  by (simp add: digits_value_def)

lemma show_nat_digits: "list_all is_digit (show_nat n) \<and> digits_value (show_nat n) = n"
proof (induction n rule: show_nat.induct)
  case (1 n)
  show ?case
  proof (cases "n < 10")
    case True
    with digit_char_digit [of n] show ?thesis
      by (subst (1 2) show_nat.simps) (simp add: digits_value_def)
  next
    case False
    with 1 digit_char_digit [of "n mod 10"] show ?thesis
      by (subst (1 2) show_nat.simps) (simp add: digits_value_append)
  qed
qed

lemma digit_not_special: "is_digit c \<Longrightarrow> \<not> is_space c \<and> c \<noteq> CHR ''+''"
  by (auto simp: is_digit_def is_space_def)

text \<open>The text the kernel gives a number: its digits and a newline.\<close>

definition kernel_text :: "'a::len word \<Rightarrow> string" where
  "kernel_text w = show_nat (unat w) @ [CHR 0x0A]"

lemma trim_kernel_text [simp]: "trim (kernel_text w) = show_nat (unat w)"
proof -
  let ?ds = "show_nat (unat w)"
  have d: "\<not> is_space c" if "c \<in> set ?ds" for c
    using that show_nat_digits [of "unat w"] digit_not_special by (auto simp: list_all_iff)
  have keep: "dropWhile is_space xs = xs" if "xs \<noteq> []" "\<forall>c \<in> set xs. \<not> is_space c" for xs
    using that by (cases xs) simp_all
  have "?ds @ [CHR 0x0A] = hd ?ds # (tl ?ds @ [CHR 0x0A])" by simp
  moreover have "hd ?ds \<in> set ?ds" by simp
  ultimately have "dropWhile is_space (?ds @ [CHR 0x0A]) = ?ds @ [CHR 0x0A]"
    using d by (metis dropWhile.simps(2))
  moreover have "dropWhile is_space (rev ?ds) = rev ?ds" using d by (intro keep) simp_all
  ultimately show ?thesis by (simp add: trim_def kernel_text_def is_space_def)
qed

lemma parse_show_nat [simp]: "parse_unsigned (show_nat (unat (w :: 'a::len word))) = Some w"
proof -
  let ?ds = "show_nat (unat w)"
  have "hd ?ds \<noteq> CHR ''+''"
    using show_nat_digits [of "unat w"] digit_not_special by (auto simp: list_all_iff)
  then have "strip_plus ?ds = ?ds" by (cases ?ds) (simp_all add: strip_plus_def)
  then show ?thesis
    using show_nat_digits [of "unat w"] by (simp add: parse_unsigned_def Let_def unsigned_less)
qed

section \<open>Properties\<close>

text \<open>The counters of an adapter, in an interface list with its counters.\<close>

definition adapter_counters ::
    "(u32 \<times> string) list \<Rightarrow> (string \<Rightarrow> string \<Rightarrow> u64) \<Rightarrow> string \<Rightarrow> string \<Rightarrow> u32 option \<Rightarrow> (u64 \<times> u64) option" where
  "adapter_counters ifs count packets bytes adapter =
     (case adapter of
        None \<Rightarrow> Some (0, 0)
      | Some i \<Rightarrow> map_option (\<lambda>name. (count name packets, count name bytes)) (map_of ifs i))"

lemma named_interfaces_kernel:
  "named_interfaces (map (\<lambda>(i, name). (Some name, Some (kernel_text i))) ifs) = ifs"
  by (induction ifs) (auto simp: named_interfaces_def List.map_filter_def)

lemma find_map_of: "map_option snd (find (\<lambda>(i, name). i = k) ifs) = map_of ifs k"
  by (induction ifs) auto

text \<open>
  The traffic counters are those of the configured adapters: over the interfaces and counters as
  the kernel prints them, a signed-in request gets the receive counters of the incoming adapter and
  the transmit counters of the outgoing one, zeros for an adapter that is not configured, and 503
  exactly when a configured adapter does not exist.
\<close>

theorem traffic_stats_spec:
  assumes "session \<noteq> None" and "config_get env s = Some cfg"
    and "net_dir (e_sysfs env) = Some (map (\<lambda>(i, name). (Some name, Some (kernel_text i))) ifs)"
    and "\<And>name c. counter_file (e_sysfs env) name c = Some (kernel_text (count name c))"
  shows "get_traffic_stats env session s =
    (case (adapter_counters ifs count ''rx_packets'' ''rx_bytes'' (incoming_ethernet_adapter cfg),
           adapter_counters ifs count ''tx_packets'' ''tx_bytes'' (output_ethernet_adapter cfg)) of
       (Some rx, Some tx) \<Rightarrow> (S_OK, TrafficJson rx tx)
     | _ \<Rightarrow> (S_SERVICE_UNAVAILABLE, NoBody))"
proof -
  let ?fs = "e_sysfs env"
  have name: "interface_name ?fs a = Inr (Option.bind a (map_of ifs))" for a
    by (cases a) (simp_all add: interface_name_def assms(3) named_interfaces_kernel find_map_of)
  have counter: "read_interface_counter ?fs n c = Inr (count n c)" for n c
    by (simp add: read_interface_counter_def assms(4))
  show ?thesis
    using assms(1,2)
    by (cases "incoming_ethernet_adapter cfg"; cases "output_ethernet_adapter cfg")
      (auto simp: get_traffic_stats_def Let_def name counter read_counters_def adapter_counters_def
        split: option.split)
qed

theorem traffic_stats_spec_witness:
  "get_traffic_stats ref_env (Some sample_user) (sample_server\<lparr>s_maps := empty_maps\<lparr>CONFIG := Some
     (firewall_config_default\<lparr>incoming_ethernet_adapter := Some 2\<rparr>)\<rparr>\<rparr>) =
   (S_OK, TrafficJson (17, 17) (0, 0))"
proof -
  let ?s = "sample_server\<lparr>s_maps := empty_maps\<lparr>CONFIG := Some
     (firewall_config_default\<lparr>incoming_ethernet_adapter := Some 2\<rparr>)\<rparr>\<rparr>"
  have cfg: "config_get ref_env ?s = Some (firewall_config_default\<lparr>incoming_ethernet_adapter := Some 2\<rparr>)"
    by (simp add: config_get_def ref_env_def)
  have "show_nat 1 = ''1''" "show_nat 2 = ''2''" "show_nat 17 = ''17''"
    by code_simp+
  then have dir: "net_dir (e_sysfs ref_env) = Some (map (\<lambda>(i, name). (Some name, Some (kernel_text i)))
      [(1 :: u32, ''lo''), (2, ''eth0'')])"
    and count: "counter_file (e_sysfs ref_env) name c = Some (kernel_text (17 :: u64))" for name c
    by (simp_all add: ref_env_def kernel_text_def)
  show ?thesis
    using traffic_stats_spec [OF _ cfg dir, of "Some sample_user" "\<lambda>_ _. 17"] count
    by (simp add: adapter_counters_def firewall_config_default_def)
qed

end
