(* ===== verification/Config_Handlers.thy ===== *)
theory Config_Handlers
  imports Server
begin

text \<open>
  Reading and changing the configuration, and shutting down and restarting the eBPF program
  (\<open>ConfigPatch\<close>, \<open>get_config\<close>, \<open>update_config\<close>, \<open>authorized_ebpf_action\<close>, \<open>shutdown_ebpf\<close>,
  \<open>restart_ebpf\<close> of oxidrop/src/state.rs). The live configuration is the CONFIG array of the eBPF
  program, the persisted one the row of the database.
\<close>

section \<open>The patch\<close>

text \<open>
  A JSON body names each field or not, and a named field may be null: \<open>None\<close>, \<open>Some None\<close>, or
  \<open>Some (Some v)\<close>. Parsing the JSON itself is the library's.
\<close>

record json_patch =
  j_tcp_profile :: "rate_profile option option"
  j_udp_profile :: "rate_profile option option"
  j_icmp_profile :: "rate_profile option option"
  j_default_profile :: "rate_profile option option"
  j_protocol_allowed :: "u16 option option"
  j_ddos_activated :: "bool option option"
  j_subnet_activated :: "bool option option"
  j_incoming_ethernet_adapter :: "u32 option option"
  j_output_ethernet_adapter :: "u32 option option"

record config_patch =
  p_tcp_profile :: "rate_profile option"
  p_udp_profile :: "rate_profile option"
  p_icmp_profile :: "rate_profile option"
  p_default_profile :: "rate_profile option"
  p_protocol_allowed :: "u16 option"
  p_ddos_activated :: "bool option"
  p_subnet_activated :: "bool option"
  p_incoming_ethernet_adapter :: "u32 option option"
  p_output_ethernet_adapter :: "u32 option option"

text \<open>The two deserialisers of the code, on the value of a named field.\<close>

definition deserialize_optional_optional :: "'a option \<Rightarrow> (string, 'a option option) result" where
  "deserialize_optional_optional value = Inr (Some value)"

definition deserialize_protocol_patch :: "u16 option \<Rightarrow> (string, u16 option) result" where
  "deserialize_protocol_patch value =
     (case value of
        None \<Rightarrow> Inr None
      | Some bits \<Rightarrow>
          result_bind (ok_or (''unknown protocol mask: '' @ show_nat (unat bits)) (activater_from_bits bits))
            (\<lambda>types. Inr (Some types)))"

text \<open>\<open>#[serde(default)]\<close>: a field that is not named is \<open>None\<close>.\<close>

definition named_field :: "('a option \<Rightarrow> (string, 'b option) result) \<Rightarrow> 'a option option \<Rightarrow> (string, 'b option) result" where
  "named_field deserialize field = (case field of None \<Rightarrow> Inr None | Some value \<Rightarrow> deserialize value)"

definition config_patch_of_json :: "json_patch \<Rightarrow> (string, config_patch) result" where
  "config_patch_of_json j =
     result_bind (named_field Inr (j_tcp_profile j)) (\<lambda>tcp.
     result_bind (named_field Inr (j_udp_profile j)) (\<lambda>udp.
     result_bind (named_field Inr (j_icmp_profile j)) (\<lambda>icmp.
     result_bind (named_field Inr (j_default_profile j)) (\<lambda>def_profile.
     result_bind (named_field deserialize_protocol_patch (j_protocol_allowed j)) (\<lambda>types.
     result_bind (named_field Inr (j_ddos_activated j)) (\<lambda>ddos.
     result_bind (named_field Inr (j_subnet_activated j)) (\<lambda>subnet.
     result_bind (named_field deserialize_optional_optional (j_incoming_ethernet_adapter j)) (\<lambda>incoming.
     result_bind (named_field deserialize_optional_optional (j_output_ethernet_adapter j)) (\<lambda>output.
     Inr \<lparr>p_tcp_profile = tcp, p_udp_profile = udp, p_icmp_profile = icmp,
          p_default_profile = def_profile, p_protocol_allowed = types, p_ddos_activated = ddos,
          p_subnet_activated = subnet, p_incoming_ethernet_adapter = incoming,
          p_output_ethernet_adapter = output\<rparr>)))))))))"

definition MAX_RATE_SHIFT :: u64 where "MAX_RATE_SHIFT = 63"

definition patch_validate :: "config_patch \<Rightarrow> (string, unit) result" where
  "patch_validate p =
     (if list_ex (\<lambda>profile. MAX_RATE_SHIFT < rate_shift profile)
           (List.map_filter id [p_tcp_profile p, p_udp_profile p, p_icmp_profile p, p_default_profile p])
      then Inl ''rate_shift must be between 0 and 63'' else Inr ())"

definition patch_apply :: "config_patch \<Rightarrow> firewall_config \<Rightarrow> firewall_config" where
  "patch_apply p cfg =
     \<lparr>tcp_profile = (case p_tcp_profile p of Some v \<Rightarrow> v | None \<Rightarrow> tcp_profile cfg),
      udp_profile = (case p_udp_profile p of Some v \<Rightarrow> v | None \<Rightarrow> udp_profile cfg),
      icmp_profile = (case p_icmp_profile p of Some v \<Rightarrow> v | None \<Rightarrow> icmp_profile cfg),
      default_profile = (case p_default_profile p of Some v \<Rightarrow> v | None \<Rightarrow> default_profile cfg),
      protocol_allowed = (case p_protocol_allowed p of Some v \<Rightarrow> v | None \<Rightarrow> protocol_allowed cfg),
      ddos_activated = (case p_ddos_activated p of Some v \<Rightarrow> v | None \<Rightarrow> ddos_activated cfg),
      subnet_activated = (case p_subnet_activated p of Some v \<Rightarrow> v | None \<Rightarrow> subnet_activated cfg),
      incoming_ethernet_adapter =
        (case p_incoming_ethernet_adapter p of Some v \<Rightarrow> v | None \<Rightarrow> incoming_ethernet_adapter cfg),
      output_ethernet_adapter =
        (case p_output_ethernet_adapter p of Some v \<Rightarrow> v | None \<Rightarrow> output_ethernet_adapter cfg)\<rparr>"

section \<open>Handlers\<close>

definition get_config :: "env \<Rightarrow> server \<Rightarrow> response" where
  "get_config env s =
     (case config_get env s of
        Some cfg \<Rightarrow> (S_OK, ConfigJson cfg)
      | None \<Rightarrow> (S_INTERNAL_SERVER_ERROR, Text ''CONFIG map not initialized''))"

definition no_adapters :: "firewall_config \<Rightarrow> firewall_config" where
  "no_adapters cfg = cfg\<lparr>incoming_ethernet_adapter := None, output_ethernet_adapter := None\<rparr>"

text \<open>A write whose failure is only traced: \<open>if let Err(..) = config.set(..)\<close>.\<close>

definition try_config_set :: "env \<Rightarrow> firewall_config \<Rightarrow> server \<Rightarrow> server" where
  "try_config_set env cfg s = (case config_set env cfg s of Some s' \<Rightarrow> s' | None \<Rightarrow> s)"

definition ebpf_reboot :: "env \<Rightarrow> firewall_config \<Rightarrow> ebpf_programm \<Rightarrow> server \<Rightarrow> (string, unit) result \<times> server" where
  "ebpf_reboot env cfg e s =
     (case reboot (e_xdp_ok env) (e_attach env) cfg e of (r, e') \<Rightarrow> (r, s\<lparr>s_ebpf := Some e'\<rparr>))"

definition attachment_message :: "ebpf_programm \<Rightarrow> string" where
  "attachment_message e =
     (let (incoming, output) = attached_adapters e;
          attached = join '', '' (map (\<lambda>i. show_nat (unat i)) (List.map_filter id [incoming, output]))
      in ''eBPF interface attachment succeeded'' @ (if attached = [] then [] else '': '' @ attached))"

text \<open>The last part of the update: the live configuration first, then the row.\<close>

definition commit_config :: "env \<Rightarrow> app_user \<Rightarrow> firewall_config \<Rightarrow> server \<Rightarrow> response \<times> server" where
  "commit_config env user cfg s =
     (case config_set env cfg s of
        None \<Rightarrow> ((S_INTERNAL_SERVER_ERROR, Text ''Failed to update CONFIG map''), s)
      | Some s1 \<Rightarrow>
          (case save_config env cfg s1 of
             (Inl _, s2) \<Rightarrow>
               ((S_INTERNAL_SERVER_ERROR, Text ''Failed to persist firewall configuration''), s2)
           | (Inr _, s2) \<Rightarrow>
               ((S_OK, ConfigJson cfg),
                log_event env ''INFO'' ''Firewall configuration updated'' (Some (au_username user)) s2)))"

definition update_config :: "env \<Rightarrow> config_patch \<Rightarrow> app_user option \<Rightarrow> server \<Rightarrow> response \<times> server" where
  "update_config env patch = guarded MODIFY (\<lambda>user s.
     case patch_validate patch of
       Inl msg \<Rightarrow> ((S_BAD_REQUEST, Text msg), s)
     | Inr _ \<Rightarrow>
         let adapters_changed =
               p_incoming_ethernet_adapter patch \<noteq> None \<or> p_output_ethernet_adapter patch \<noteq> None
         in case config_get env s of
              None \<Rightarrow> ((S_INTERNAL_SERVER_ERROR, Text ''CONFIG map not initialized''), s)
            | Some cfg0 \<Rightarrow>
                let cfg = patch_apply patch cfg0 in
                case (if adapters_changed then s_ebpf s else None) of
                  None \<Rightarrow> commit_config env user cfg s
                | Some e \<Rightarrow>
                    (case ebpf_reboot env cfg e s of
                       (Inl error, s1) \<Rightarrow>
                         (let cleared = no_adapters cfg;
                              s2 = try_config_set env cleared s1;
                              s3 = snd (save_config env cleared s2)
                          in ((S_INTERNAL_SERVER_ERROR,
                               Text ''Failed to attach eBPF program to the selected adapters''),
                              log_event env ''ERROR'' (''Failed to attach eBPF adapters: '' @ error)
                                (Some (au_username user)) s3))
                     | (Inr _, s1) \<Rightarrow>
                         (case s_ebpf s1 of
                            None \<Rightarrow> commit_config env user cfg s1
                          | Some e1 \<Rightarrow> commit_config env user cfg
                              (log_event env ''INFO'' (attachment_message e1)
                                (Some (au_username user)) s1))))"

text \<open>The guard of the two eBPF actions.\<close>

definition authorized_ebpf_action :: "server \<Rightarrow> app_user option \<Rightarrow> (status, app_user) result" where
  "authorized_ebpf_action s session =
     result_bind (ok_or S_UNAUTHORIZED session) (\<lambda>user.
       if au_role user \<noteq> Admin \<or> \<not> flags_contains (au_permissions user) MODIFY then Inl S_UNAUTHORIZED
       else if s_ebpf s = None then Inl S_SERVICE_UNAVAILABLE
       else Inr user)"

definition with_ebpf_and_config ::
    "env \<Rightarrow> (app_user \<Rightarrow> ebpf_programm \<Rightarrow> firewall_config \<Rightarrow> server \<Rightarrow> response \<times> server) \<Rightarrow>
     app_user option \<Rightarrow> server \<Rightarrow> response \<times> server" where
  "with_ebpf_and_config env act session s =
     (case authorized_ebpf_action s session of
        Inl status \<Rightarrow> ((status, NoBody), s)
      | Inr user \<Rightarrow>
          (case (config_get env s, s_ebpf s) of
             (Some cfg, Some e) \<Rightarrow> act user e cfg s
           | _ \<Rightarrow> ((S_INTERNAL_SERVER_ERROR, Text ''CONFIG map unavailable''), s)))"

definition shutdown_ebpf :: "env \<Rightarrow> app_user option \<Rightarrow> server \<Rightarrow> response \<times> server" where
  "shutdown_ebpf env = with_ebpf_and_config env (\<lambda>user e cfg s.
     case shut_down_working_ebpf (e_xdp_ok env) e of
       (Inl error, e') \<Rightarrow>
         ((S_INTERNAL_SERVER_ERROR, Text ''Failed to shut down eBPF''),
          log_event env ''ERROR'' (''eBPF shutdown failed: '' @ error) (Some (au_username user))
            (s\<lparr>s_ebpf := Some e'\<rparr>))
     | (Inr _, e') \<Rightarrow>
         (let s1 = s\<lparr>s_ebpf := Some e'\<rparr>; cleared = no_adapters cfg in
          case config_set env cleared s1 of
            None \<Rightarrow> ((S_INTERNAL_SERVER_ERROR, Text ''Failed to clear eBPF adapter configuration''), s1)
          | Some s2 \<Rightarrow>
              (case save_config env cleared s2 of
                 (Inl _, s3) \<Rightarrow>
                   ((S_INTERNAL_SERVER_ERROR, Text ''Failed to persist eBPF adapter configuration''), s3)
               | (Inr _, s3) \<Rightarrow>
                   ((S_NO_CONTENT, NoBody),
                    log_event env ''INFO'' ''eBPF program shut down'' (Some (au_username user)) s3))))"

definition restart_ebpf :: "env \<Rightarrow> app_user option \<Rightarrow> server \<Rightarrow> response \<times> server" where
  "restart_ebpf env = with_ebpf_and_config env (\<lambda>user e cfg s.
     if incoming_ethernet_adapter cfg = None \<and> output_ethernet_adapter cfg = None
     then ((S_NO_CONTENT, NoBody), s)
     else case ebpf_reboot env cfg e s of
       (Inl error, s1) \<Rightarrow>
         ((S_INTERNAL_SERVER_ERROR, Text ''Failed to restart eBPF''),
          log_event env ''ERROR'' (''eBPF restart failed: '' @ error) (Some (au_username user)) s1)
     | (Inr _, s1) \<Rightarrow>
         ((S_NO_CONTENT, NoBody),
          log_event env ''INFO'' ''eBPF program restarted'' (Some (au_username user)) s1))"

section \<open>The contract\<close>

definition patch_wf :: "config_patch \<Rightarrow> bool" where
  "patch_wf p \<longleftrightarrow> pred_option activater_valid (p_protocol_allowed p)"

lemma protocol_patch_valid:
  "named_field deserialize_protocol_patch j = Inr types \<Longrightarrow> pred_option activater_valid types"
  by (auto simp: named_field_def deserialize_protocol_patch_def split: option.splits)

lemma patch_of_json_wf:
  assumes "config_patch_of_json j = Inr p"
  shows "patch_wf p"
proof -
  obtain types where "named_field deserialize_protocol_patch (j_protocol_allowed j) = Inr types"
    and "p_protocol_allowed p = types"
    using assms unfolding config_patch_of_json_def result_bind_eq_Inr by fastforce
  then show ?thesis by (simp add: patch_wf_def protocol_patch_valid)
qed

definition patched :: "config_patch \<Rightarrow> rate_profile option list" where
  "patched p = [p_tcp_profile p, p_udp_profile p, p_icmp_profile p, p_default_profile p]"

lemma patch_validate_Inr:
  "patch_validate p = Inr u \<longleftrightarrow> (\<forall>profile. Some profile \<in> set (patched p) \<longrightarrow> rate_shift profile \<le> 63)"
proof -
  have "list_ex P (List.map_filter id xs) \<longleftrightarrow> (\<exists>x. Some x \<in> set xs \<and> P x)"
    for P and xs :: "rate_profile option list"
    by (induction xs) (auto simp: List.map_filter_def)
  then show ?thesis
    by (simp only: patch_validate_def patched_def [symmetric] MAX_RATE_SHIFT_def) (auto simp: not_less)
qed

lemma patch_apply_wf:
  assumes "config_wf cfg" and "patch_wf p" and "patch_validate p = Inr u"
  shows "config_wf (patch_apply p cfg)"
proof -
  have "activater_valid (protocol_allowed (patch_apply p cfg))"
    using assms(1,2)
    by (cases "p_protocol_allowed p") (simp_all add: patch_apply_def patch_wf_def config_wf_def)
  moreover have "rate_shift (case x of Some v \<Rightarrow> v | None \<Rightarrow> d) \<le> 63"
    if "x \<in> set (patched p)" "d \<in> set (profiles cfg)" for x d
  proof (cases x)
    case (Some v)
    with that(1) assms(3) show ?thesis unfolding patch_validate_Inr by simp
  qed (use that(2) assms(1) in \<open>simp add: config_wf_def\<close>)
  ultimately show ?thesis by (simp add: config_wf_def profiles_def patched_def patch_apply_def)
qed

lemma no_adapters_wf [simp]: "config_wf (no_adapters cfg) = config_wf cfg"
  by (simp add: config_wf_def profiles_def no_adapters_def)

lemma no_adapters_sel [simp]:
  "incoming_ethernet_adapter (no_adapters cfg) = None" "output_ethernet_adapter (no_adapters cfg) = None"
  by (simp_all add: no_adapters_def)

lemma live_configI: "config_get env s = Some cfg \<Longrightarrow> server_ok s \<Longrightarrow> config_wf cfg"
  by (auto simp: config_get_def server_ok_def live_ok_def split: if_splits)

lemma reboot_links_ok:
  assumes "reboot xdp attach cfg e = (r, e')"
  shows "links_ok e'"
  using assms
  by (cases "incoming_ethernet_adapter cfg"; cases "output_ethernet_adapter cfg")
    (auto simp: reboot_def attach_adapter_def shut_down_working_ebpf_def Let_def links_ok_def
      ebpf_inv_def split: if_splits sum.splits)

lemma server_ok_ebpf: "server_ok s \<Longrightarrow> links_ok e \<Longrightarrow> server_ok (s\<lparr>s_ebpf := Some e\<rparr>)"
  by (simp add: server_ok_def live_ok_def)

lemma ebpf_reboot_ok: "server_ok s \<Longrightarrow> server_ok (snd (ebpf_reboot env cfg e s))"
  by (auto simp: ebpf_reboot_def intro: server_ok_ebpf reboot_links_ok split: prod.split)

lemma shut_down_links_ok: "links_ok (snd (shut_down_working_ebpf xdp e))"
  by (simp add: shut_down_working_ebpf_def Let_def links_ok_def)

lemma try_config_set_ok: "config_wf cfg \<Longrightarrow> server_ok s \<Longrightarrow> server_ok (try_config_set env cfg s)"
  by (auto simp: try_config_set_def intro: config_set_ok split: option.split)

lemmas server_ok_intros = log_event_ok env_okD config_set_ok save_config_ok try_config_set_ok
  ebpf_reboot_ok server_ok_ebpf shut_down_links_ok

lemma commit_config_ok:
  assumes "env_ok env" and "server_ok s" and "config_wf cfg"
  shows "server_ok (snd (commit_config env user cfg s))"
proof (cases "config_set env cfg s")
  case (Some s1)
  obtain r s2 where r: "save_config env cfg s1 = (r, s2)" by fastforce
  have "server_ok s1" using config_set_ok [OF Some assms(3,2)] .
  then have "server_ok s2" using save_config_ok [of s1 env cfg] r by simp
  then show ?thesis
    using Some r assms(1) by (auto simp: commit_config_def intro: log_event_ok env_okD split: sum.split)
qed (simp add: commit_config_def assms(2))

text \<open>The paths through an update that passed its guards.\<close>

definition adapters_named :: "config_patch \<Rightarrow> bool" where
  "adapters_named p \<longleftrightarrow> p_incoming_ethernet_adapter p \<noteq> None \<or> p_output_ethernet_adapter p \<noteq> None"

lemma update_config_cases:
  assumes "may (caller_of user) MODIFY" and "patch_validate p = Inr u" and "config_get env s = Some cfg0"
  obtains (direct) "\<not> adapters_named p \<or> s_ebpf s = None"
      "update_config env p (Some user) s = commit_config env user (patch_apply p cfg0) s"
  | (attached) e e1 where "adapters_named p" "s_ebpf s = Some e"
      "reboot (e_xdp_ok env) (e_attach env) (patch_apply p cfg0) e = (Inr (), e1)"
      "update_config env p (Some user) s = commit_config env user (patch_apply p cfg0)
         (log_event env ''INFO'' (attachment_message e1) (Some (au_username user)) (s\<lparr>s_ebpf := Some e1\<rparr>))"
  | (failed) e err e1 where "adapters_named p" "s_ebpf s = Some e"
      "reboot (e_xdp_ok env) (e_attach env) (patch_apply p cfg0) e = (Inl err, e1)"
      "update_config env p (Some user) s =
         ((S_INTERNAL_SERVER_ERROR, Text ''Failed to attach eBPF program to the selected adapters''),
          log_event env ''ERROR'' (''Failed to attach eBPF adapters: '' @ err) (Some (au_username user))
            (snd (save_config env (no_adapters (patch_apply p cfg0))
              (try_config_set env (no_adapters (patch_apply p cfg0)) (s\<lparr>s_ebpf := Some e1\<rparr>)))))"
proof (cases "if adapters_named p then s_ebpf s else None")
  case None
  with assms direct show thesis
    by (auto simp: update_config_def guarded_def adapters_named_def Let_def split: if_splits)
next
  case (Some e)
  obtain r e1 where r: "reboot (e_xdp_ok env) (e_attach env) (patch_apply p cfg0) e = (r, e1)" by fastforce
  from Some have e: "adapters_named p" "s_ebpf s = Some e" by (auto split: if_splits)
  show thesis
  proof (cases r)
    case (Inl err)
    with r e assms failed show thesis
      by (simp add: update_config_def guarded_def adapters_named_def Let_def ebpf_reboot_def)
  next
    case (Inr v)
    with r e assms attached show thesis
      by (simp add: update_config_def guarded_def adapters_named_def Let_def ebpf_reboot_def)
  qed
qed

lemma update_config_ok:
  assumes "env_ok env" and "server_ok s" and "patch_wf p"
  shows "server_ok (snd (update_config env p session s))"
proof (cases "\<exists>user u cfg0. session = Some user \<and> may (caller_of user) MODIFY \<and>
    patch_validate p = Inr u \<and> config_get env s = Some cfg0")
  case True
  then obtain user u cfg0 where g: "session = Some user" "may (caller_of user) MODIFY"
    "patch_validate p = Inr u" "config_get env s = Some cfg0" by blast
  have wf: "config_wf (patch_apply p cfg0)"
    using patch_apply_wf [OF live_configI [OF g(4) assms(2)] assms(3) g(3)] .
  show ?thesis unfolding g(1)
    by (cases rule: update_config_cases [OF g(2-4)])
      (use assms wf in \<open>auto intro!: server_ok_intros commit_config_ok reboot_links_ok\<close>)
next
  case False
  then show ?thesis
    using assms(2)
    by (auto simp: update_config_def guarded_def Let_def split: option.split sum.split)
qed

definition keeps_ok_if :: "bool \<Rightarrow> env \<Rightarrow> server \<Rightarrow> bool" where
  "keeps_ok_if valid env s \<longleftrightarrow> valid \<longrightarrow> keeps_ok env s"

interpretation update_config_handler:
  guarded_handler "update_config env p" MODIFY "keeps_ok_if (patch_wf p) env"
  for env p
proof
  show "update_config env p None s = ((S_UNAUTHORIZED, NoBody), s)" for s
    by (simp add: update_config_def guarded_def)
  show "fst (fst (update_config env p (Some u) s)) \<in> {S_UNAUTHORIZED, S_FORBIDDEN} \<and>
      snd (update_config env p (Some u) s) = s" if "\<not> may (caller_of u) MODIFY" for u s
    using that by (simp add: update_config_def guarded_def)
  show "keeps_ok_if (patch_wf p) env (snd (update_config env p session s))"
    if "keeps_ok_if (patch_wf p) env s" for session s
    using that by (auto simp: keeps_ok_if_def keeps_ok_def update_config_ok)
qed

lemma authorized_ebpf_denied:
  "authorized_ebpf_action s None = Inl S_UNAUTHORIZED"
  "\<not> may (caller_of u) MODIFY \<Longrightarrow> authorized_ebpf_action s (Some u) = Inl S_UNAUTHORIZED"
  by (simp_all add: authorized_ebpf_action_def may_def caller_of_def)

lemma authorized_ebpf_Inr:
  "authorized_ebpf_action s session = Inr u \<longleftrightarrow>
     session = Some u \<and> may (caller_of u) MODIFY \<and> s_ebpf s \<noteq> None"
proof (cases session)
  case (Some v)
  have "may (caller_of v) MODIFY \<longleftrightarrow> \<not> (au_role v \<noteq> Admin \<or> \<not> flags_contains (au_permissions v) MODIFY)"
    by (simp add: may_def caller_of_def)
  with Some show ?thesis by (simp add: authorized_ebpf_action_def) blast
qed (simp add: authorized_ebpf_action_def)

lemma ebpf_handlerI:
  assumes act: "\<And>u e cfg s. env_ok env \<Longrightarrow> server_ok s \<Longrightarrow> config_get env s = Some cfg \<Longrightarrow>
    server_ok (snd (act u e cfg s))"
  shows "guarded_handler (with_ebpf_and_config env act) MODIFY (keeps_ok env)"
proof
  fix session s
  assume "keeps_ok env s"
  then show "keeps_ok env (snd (with_ebpf_and_config env act session s))"
    using act [of s] by (auto simp: keeps_ok_def with_ebpf_and_config_def split: sum.split option.split)
qed (simp_all add: with_ebpf_and_config_def authorized_ebpf_denied)

interpretation shutdown_handler: guarded_handler "shutdown_ebpf env" MODIFY "keeps_ok env"
  for env
  unfolding shutdown_ebpf_def
proof (rule ebpf_handlerI, goal_cases)
  case (1 u e cfg s)
  have wf: "config_wf cfg" using live_configI [OF 1(3,2)] .
  obtain r e' where r: "shut_down_working_ebpf (e_xdp_ok env) e = (r, e')" by fastforce
  have s1: "server_ok (s\<lparr>s_ebpf := Some e'\<rparr>)"
    using 1(2) shut_down_links_ok [of "e_xdp_ok env" e] r by (simp add: server_ok_ebpf)
  have "server_ok (snd (save_config env (no_adapters cfg) s2))"
    if "config_set env (no_adapters cfg) (s\<lparr>s_ebpf := Some e'\<rparr>) = Some s2" for s2
    using save_config_ok [OF config_set_ok [OF that _ s1]] wf by simp
  with 1(1) s1 show ?case
    by (auto simp: r Let_def case_prod_unfold intro: log_event_ok env_okD split: sum.split option.split)
qed

interpretation restart_handler: guarded_handler "restart_ebpf env" MODIFY "keeps_ok env"
  for env
  unfolding restart_ebpf_def
proof (rule ebpf_handlerI, goal_cases)
  case (1 u e cfg s)
  obtain r s1 where r: "ebpf_reboot env cfg e s = (r, s1)" by fastforce
  have "server_ok s1" using ebpf_reboot_ok [OF 1(2), of env cfg e] r by simp
  with 1 show ?case
    by (auto simp: r intro: log_event_ok env_okD split: sum.split)
qed

section \<open>Properties\<close>

lemma commit_config_OK:
  assumes "commit_config env user cfg s = ((S_OK, body), s')"
  shows "e_config_set_ok env \<and> body = ConfigJson cfg \<and> CONFIG (s_maps s') = Some cfg \<and>
    s_ebpf s' = s_ebpf s \<and>
    (\<exists>d d'. save_firewall_config (e_faults env) cfg d = (Inr (), d') \<and>
       firewall_config_row_1 (s_db s') = firewall_config_row_1 d')"
  using assms
  by (auto simp: commit_config_def config_set_def save_config_def case_prod_unfold
      split: option.splits sum.splits if_splits) (metis prod.collapse)

lemma load_of_saved:
  assumes "config_wf cfg" and "save_firewall_config flt cfg d = (Inr (), d')"
    and "firewall_config_row_1 d2 = firewall_config_row_1 d'"
  shows "load_firewall_config no_faults d2 = Inr (Some cfg)"
proof -
  obtain row where "config_to_row cfg = Inr row" "firewall_config_row_1 d' = Some row"
    using assms(2) by (auto simp: save_firewall_config_def split: sum.splits if_splits)
  with row_roundtrip [OF assms(1)] assms(3) show ?thesis by (simp add: load_firewall_config_def)
qed

lemma reboot_attached:
  "reboot xdp attach cfg e = (Inr (), e') \<Longrightarrow>
   attached_adapters e' = (incoming_ethernet_adapter cfg, output_ethernet_adapter cfg)"
  by (cases "incoming_ethernet_adapter cfg"; cases "output_ethernet_adapter cfg")
    (auto simp: reboot_def attach_adapter_def shut_down_working_ebpf_def Let_def attached_adapters_def
      split: if_splits sum.splits)

text \<open>What a request that answers 200 went through.\<close>

lemma update_config_OK:
  assumes "update_config env p session s = ((S_OK, body), s')"
  obtains user cfg0 s1 where "session = Some user" and "may (caller_of user) MODIFY"
    and "patch_validate p = Inr ()" and "config_get env s = Some cfg0"
    and "commit_config env user (patch_apply p cfg0) s1 = ((S_OK, body), s')"
    and "\<forall>e. adapters_named p \<longrightarrow> s_ebpf s1 = Some e \<longrightarrow>
      attached_adapters e = (incoming_ethernet_adapter (patch_apply p cfg0),
                             output_ethernet_adapter (patch_apply p cfg0))"
proof -
  have may: "\<exists>user. session = Some user \<and> may (caller_of user) MODIFY"
    using update_config_handler.success_needs [of env p session s] assms by simp
  then obtain user where g: "session = Some user" "may (caller_of user) MODIFY" by blast
  have v: "patch_validate p = Inr ()"
    using assms g by (cases "patch_validate p") (simp_all add: update_config_def guarded_def)
  obtain cfg0 where cfg0: "config_get env s = Some cfg0"
    using assms g v by (cases "config_get env s") (simp_all add: update_config_def guarded_def)
  show thesis
    by (cases rule: update_config_cases [OF g(2) v cfg0])
      (use assms g v cfg0 reboot_attached in \<open>auto intro!: that [OF g v cfg0]\<close>)
qed

text \<open>
  C7: When an update of the configuration answers 200, the live configuration, the persisted one and
  the returned one are the same: the old configuration with exactly the patched fields replaced. It
  is valid, and when the patch named an adapter the program is attached to its adapters. The caller
  was an administrator with the permission to modify.
\<close>

theorem update_config_commits:
  assumes "server_ok s" and "patch_wf p"
    and "update_config env p session s = ((S_OK, body), s')"
  shows "\<exists>user cfg0. session = Some user \<and> may (caller_of user) MODIFY \<and>
    CONFIG (s_maps s) = Some cfg0 \<and> body = ConfigJson (patch_apply p cfg0) \<and>
    CONFIG (s_maps s') = Some (patch_apply p cfg0) \<and>
    load_firewall_config no_faults (s_db s') = Inr (Some (patch_apply p cfg0)) \<and>
    config_wf (patch_apply p cfg0) \<and>
    (\<forall>e. adapters_named p \<longrightarrow> s_ebpf s' = Some e \<longrightarrow>
       attached_adapters e = (incoming_ethernet_adapter (patch_apply p cfg0),
                              output_ethernet_adapter (patch_apply p cfg0)))"
proof -
  obtain user cfg0 s1 where g: "session = Some user" "may (caller_of user) MODIFY"
    "patch_validate p = Inr ()" "config_get env s = Some cfg0"
    and c: "commit_config env user (patch_apply p cfg0) s1 = ((S_OK, body), s')"
    and e: "\<forall>e. adapters_named p \<longrightarrow> s_ebpf s1 = Some e \<longrightarrow>
      attached_adapters e = (incoming_ethernet_adapter (patch_apply p cfg0),
                             output_ethernet_adapter (patch_apply p cfg0))"
    by (rule update_config_OK [OF assms(3)])
  have live: "CONFIG (s_maps s) = Some cfg0" using g(4) by (simp add: config_get_def split: if_splits)
  have wf: "config_wf (patch_apply p cfg0)"
    using patch_apply_wf [OF live_configI [OF g(4) assms(1)] assms(2) g(3)] .
  from commit_config_OK [OF c] obtain d d' where
    c1: "body = ConfigJson (patch_apply p cfg0)" "CONFIG (s_maps s') = Some (patch_apply p cfg0)"
      "s_ebpf s' = s_ebpf s1"
    and d: "save_firewall_config (e_faults env) (patch_apply p cfg0) d = (Inr (), d')"
      "firewall_config_row_1 (s_db s') = firewall_config_row_1 d'" by blast
  show ?thesis
    using g live wf c1 load_of_saved [OF wf d] e by auto
qed

theorem update_config_commits_witness:
  "CONFIG (s_maps (snd (update_config ref_env
     \<lparr>p_tcp_profile = Some \<lparr>rate_shift = 10, burst = 5\<rparr>, p_udp_profile = None, p_icmp_profile = None,
      p_default_profile = None, p_protocol_allowed = Some IPV4, p_ddos_activated = None,
      p_subnet_activated = Some False, p_incoming_ethernet_adapter = Some (Some 2),
      p_output_ethernet_adapter = Some None\<rparr> (Some sample_user) sample_server))) =
   Some (firewall_config_default\<lparr>tcp_profile := \<lparr>rate_shift = 10, burst = 5\<rparr>, protocol_allowed := IPV4,
      subnet_activated := False, incoming_ethernet_adapter := Some 2\<rparr>)"
proof -
  let ?p = "\<lparr>p_tcp_profile = Some \<lparr>rate_shift = 10, burst = 5\<rparr>, p_udp_profile = None, p_icmp_profile = None,
      p_default_profile = None, p_protocol_allowed = Some IPV4, p_ddos_activated = None,
      p_subnet_activated = Some False, p_incoming_ethernet_adapter = Some (Some 2),
      p_output_ethernet_adapter = Some None\<rparr>"
  obtain st b s' where u: "update_config ref_env ?p (Some sample_user) sample_server = ((st, b), s')"
    by (metis prod.collapse)
  have "fst (fst (update_config ref_env ?p (Some sample_user) sample_server)) = S_OK"
    by (simp add: update_config_def guarded_def sample_user_may patch_validate_def MAX_RATE_SHIFT_def
        List.map_filter_def config_get_def ref_env_def sample_server_def ebpf_reboot_def reboot_def
        shut_down_working_ebpf_def attach_adapter_def patch_apply_def firewall_config_default_def
        new_programm_def commit_config_def config_set_def save_config_def save_firewall_config_def
        config_to_row_def sqlite_integer_def Let_def)
  with u have "st = S_OK" by simp
  moreover have "patch_wf ?p"
    by (simp add: patch_wf_def activater_valid_def activater_all_eq activater_defs)
  ultimately show ?thesis
    using update_config_commits [OF sample_server_ok _ u [unfolded \<open>st = S_OK\<close>]] u
    by (auto simp: sample_server_def patch_apply_def firewall_config_default_def)
qed

text \<open>
  C30: The answer of an update tells which guard failed, and the guards come first: 401 exactly
  without the permission, 400 exactly for a rate shift above 63, and neither changes the server. Any
  other failure is a 500.
\<close>

theorem update_config_errors:
  assumes "update_config env p session s = ((status, body), s')"
  shows "status \<in> {S_OK, S_UNAUTHORIZED, S_BAD_REQUEST, S_INTERNAL_SERVER_ERROR} \<and>
    (status = S_UNAUTHORIZED \<longleftrightarrow> \<not> (\<exists>u. session = Some u \<and> may (caller_of u) MODIFY)) \<and>
    (status = S_BAD_REQUEST \<longleftrightarrow> (\<exists>u. session = Some u \<and> may (caller_of u) MODIFY) \<and>
       (\<exists>profile. Some profile \<in> set (patched p) \<and> 63 < rate_shift profile)) \<and>
    (status \<in> {S_UNAUTHORIZED, S_BAD_REQUEST} \<longrightarrow> s' = s)"
proof (cases "\<exists>user. session = Some user \<and> may (caller_of user) MODIFY")
  case False
  with assms show ?thesis
    by (cases session) (auto simp: update_config_def guarded_def)
next
  case True
  then obtain user where g: "session = Some user" "may (caller_of user) MODIFY" by blast
  show ?thesis
  proof (cases "patch_validate p")
    case (Inl e)
    then have "\<not> patch_validate p = Inr ()" by simp
    then have "\<exists>profile. Some profile \<in> set (patched p) \<and> 63 < rate_shift profile"
      unfolding patch_validate_Inr by (auto simp: not_le)
    with assms g Inl show ?thesis by (auto simp: update_config_def guarded_def)
  next
    case (Inr u)
    then have "\<not> (\<exists>profile. Some profile \<in> set (patched p) \<and> 63 < rate_shift profile)"
      unfolding patch_validate_Inr by (auto simp: not_le [symmetric])
    moreover have "status \<in> {S_OK, S_INTERNAL_SERVER_ERROR}"
    proof (cases "config_get env s")
      case None
      with assms g Inr show ?thesis by (auto simp: update_config_def guarded_def)
    next
      case (Some cfg0)
      have commit: "fst (fst (commit_config env user c t)) \<in> {S_OK, S_INTERNAL_SERVER_ERROR}" for c t
        by (auto simp: commit_config_def split: option.split prod.split sum.split)
      show ?thesis
        by (cases rule: update_config_cases [OF g(2) Inr Some])
          (use assms g(1) commit in \<open>metis fst_conv insertCI\<close>)+
    qed
    ultimately show ?thesis using g by auto
  qed
qed

theorem update_config_errors_witness:
  "\<exists>b. update_config ref_env
     \<lparr>p_tcp_profile = Some \<lparr>rate_shift = 64, burst = 5\<rparr>, p_udp_profile = None, p_icmp_profile = None,
      p_default_profile = None, p_protocol_allowed = None, p_ddos_activated = None,
      p_subnet_activated = None, p_incoming_ethernet_adapter = None,
      p_output_ethernet_adapter = None\<rparr> (Some sample_user) sample_server = ((S_BAD_REQUEST, b), sample_server)"
proof -
  let ?p = "\<lparr>p_tcp_profile = Some \<lparr>rate_shift = 64, burst = 5\<rparr>, p_udp_profile = None, p_icmp_profile = None,
      p_default_profile = None, p_protocol_allowed = None, p_ddos_activated = None,
      p_subnet_activated = None, p_incoming_ethernet_adapter = None, p_output_ethernet_adapter = None\<rparr>"
  obtain st b s' where u: "update_config ref_env ?p (Some sample_user) sample_server = ((st, b), s')"
    by (metis prod.collapse)
  have "\<exists>profile. Some profile \<in> set (patched ?p) \<and> 63 < rate_shift profile"
    by (rule exI [of _ "\<lparr>rate_shift = 64, burst = 5\<rparr>"]) (simp add: patched_def)
  with update_config_errors [OF u] u sample_user_may(1) show ?thesis by auto
qed

text \<open>
  C31: When attaching the program fails, the firewall ends up switched off as a whole: nothing is
  attached, and (when the writes succeed) both the live and the persisted configuration are the
  patched one without adapters. The request is answered with 500 although the rest of the patch is
  in force.
\<close>

theorem failed_attach_switches_off:
  assumes "server_ok s" and "patch_wf p" and "may (caller_of user) MODIFY" and "patch_validate p = Inr ()"
    and "config_get env s = Some cfg0" and "adapters_named p" and "s_ebpf s = Some e"
    and "reboot (e_xdp_ok env) (e_attach env) (patch_apply p cfg0) e = (Inl err, e1)"
    and "e_config_set_ok env" and "\<not> e_faults env SaveConfig" and "storable (patch_apply p cfg0)"
    and "update_config env p (Some user) s = ((status, body), s')"
  shows "status = S_INTERNAL_SERVER_ERROR \<and> s_ebpf s' = Some e1 \<and> programm_loaded e1 = [] \<and>
    CONFIG (s_maps s') = Some (no_adapters (patch_apply p cfg0)) \<and>
    load_firewall_config no_faults (s_db s') = Inr (Some (no_adapters (patch_apply p cfg0)))"
proof -
  let ?c = "no_adapters (patch_apply p cfg0)"
  have wf: "config_wf ?c"
    using patch_apply_wf [OF live_configI [OF assms(5,1)] assms(2,4)] by simp
  have "storable ?c" using assms(11) by (simp add: storable_def profiles_def no_adapters_def)
  then obtain row where row: "config_to_row ?c = Inr row" using config_to_row_Inr_iff by blast
  have "programm_loaded e1 = []"
    using assms(8)
    by (cases "incoming_ethernet_adapter (patch_apply p cfg0)";
        cases "output_ethernet_adapter (patch_apply p cfg0)")
      (auto simp: reboot_def attach_adapter_def shut_down_working_ebpf_def Let_def
        split: if_splits sum.splits)
  then show ?thesis
    by (cases rule: update_config_cases [OF assms(3,4,5)])
      (use assms(6-10,12) row row_roundtrip [OF wf row] in \<open>auto simp: try_config_set_def config_set_def
        save_config_def save_firewall_config_def load_firewall_config_def\<close>)
qed

text \<open>
  A patch is in force before it is known to be storable: a valid patch with a burst of at least
  \<open>2 ^ 63\<close>, which no SQLite INTEGER holds, is answered with 500, but the live configuration is the
  patched one and the persisted row is the old one, so a restart silently brings the old limits back.
\<close>

theorem live_before_persisted:
  assumes "may (caller_of user) MODIFY" and "patch_validate p = Inr ()"
    and "config_get env s = Some cfg0" and "\<not> adapters_named p" and "e_config_set_ok env"
    and "\<not> storable (patch_apply p cfg0)"
    and "update_config env p (Some user) s = ((status, body), s')"
  shows "status = S_INTERNAL_SERVER_ERROR \<and> CONFIG (s_maps s') = Some (patch_apply p cfg0) \<and>
    s_db s' = s_db s"
proof -
  obtain err where "config_to_row (patch_apply p cfg0) = Inl err"
    using assms(6) config_to_row_Inr_iff [of "patch_apply p cfg0"]
    by (cases "config_to_row (patch_apply p cfg0)") auto
  then show ?thesis
    by (cases rule: update_config_cases [OF assms(1,2,3)])
      (use assms(4,5,7) in \<open>auto simp: commit_config_def config_set_def save_config_def
        save_firewall_config_def\<close>)
qed

text \<open>
  Shutting down and restarting are not inverse: after a successful shutdown nothing is attached
  and both configurations have lost the adapters, so a restart by the same user answers 204 and
  changes nothing; enforcement stays off until adapters are configured again.
\<close>

theorem restart_after_shutdown:
  assumes "server_ok s" and "shutdown_ebpf env session s = ((S_NO_CONTENT, body), s')"
  shows "restart_ebpf env session s' = ((S_NO_CONTENT, NoBody), s') \<and>
    (\<exists>e cfg. s_ebpf s' = Some e \<and> \<not> enforcement_active e \<and> attached_adapters e = (None, None) \<and>
       CONFIG (s_maps s') = Some cfg \<and> incoming_ethernet_adapter cfg = None \<and>
       output_ethernet_adapter cfg = None \<and>
       load_firewall_config no_faults (s_db s') = Inr (Some cfg))"
proof -
  obtain user where user: "session = Some user" "may (caller_of user) MODIFY"
    using shutdown_handler.success_needs [of env session s] assms(2) by auto
  then obtain e cfg where e: "s_ebpf s = Some e" and cfg: "config_get env s = Some cfg"
    using assms(2)
    by (auto simp: shutdown_ebpf_def with_ebpf_and_config_def authorized_ebpf_action_def may_def
        caller_of_def split: option.splits if_splits)
  have wf: "config_wf (no_adapters cfg)" using live_configI [OF cfg assms(1)] by simp
  have auth: "authorized_ebpf_action s session = Inr user" using user e by (simp add: authorized_ebpf_Inr)
  obtain e' where down: "shut_down_working_ebpf (e_xdp_ok env) e = (Inr (), e')"
    using assms(2) auth e cfg
    by (auto simp: shutdown_ebpf_def with_ebpf_and_config_def split: sum.splits prod.splits)
  let ?s1 = "s\<lparr>s_ebpf := Some e'\<rparr>"
  obtain s2 d' where set: "config_set env (no_adapters cfg) ?s1 = Some s2"
    and save: "save_firewall_config (e_faults env) (no_adapters cfg) (s_db s2) = (Inr (), d')"
    and s': "s' = log_event env ''INFO'' ''eBPF program shut down'' (Some (au_username user)) (s2\<lparr>s_db := d'\<rparr>)"
    using assms(2) auth e cfg down
    by (auto simp: shutdown_ebpf_def with_ebpf_and_config_def Let_def save_config_def
        split: sum.splits prod.splits option.splits)
  have s2: "s_maps s2 = (s_maps s)\<lparr>CONFIG := Some (no_adapters cfg)\<rparr>"
    "s_ebpf s2 = Some e'"
    using set by (auto simp: config_set_def split: if_splits)
  have off: "programm_loaded e' = []" "attached_adapters e' = (None, None)"
    using down by (auto simp: shut_down_working_ebpf_def Let_def attached_adapters_def split: if_splits)
  have "load_firewall_config no_faults (s_db s') = Inr (Some (no_adapters cfg))"
    by (rule load_of_saved [OF wf save]) (simp add: s')
  moreover have live: "s_ebpf s' = Some e'" "CONFIG (s_maps s') = Some (no_adapters cfg)"
    using s2 by (simp_all add: s')
  moreover have "config_get env s' = Some (no_adapters cfg)"
    using cfg live(2) by (simp add: config_get_def split: if_splits)
  moreover have "authorized_ebpf_action s' session = Inr user"
    using user live(1) by (simp add: authorized_ebpf_Inr)
  ultimately show ?thesis
    using off by (simp add: restart_ebpf_def with_ebpf_and_config_def enforcement_active_def)
qed

theorem failed_attach_switches_off_witness:
  "programm_loaded (the (s_ebpf (snd (update_config
     (ref_env\<lparr>e_attach := (\<lambda>links i. if i = 2 then Inr 0 else Inl ''no such device'')\<rparr>)
     \<lparr>p_tcp_profile = None, p_udp_profile = None, p_icmp_profile = None,
      p_default_profile = None, p_protocol_allowed = None, p_ddos_activated = Some False,
      p_subnet_activated = None, p_incoming_ethernet_adapter = Some (Some 2),
      p_output_ethernet_adapter = Some (Some 3)\<rparr> (Some sample_user) sample_server)))) = []"
proof -
  let ?env = "ref_env\<lparr>e_attach := (\<lambda>links i. if i = 2 then Inr 0 else Inl ''no such device'')\<rparr>"
  let ?p = "\<lparr>p_tcp_profile = None, p_udp_profile = None, p_icmp_profile = None,
      p_default_profile = None, p_protocol_allowed = None, p_ddos_activated = Some False,
      p_subnet_activated = None, p_incoming_ethernet_adapter = Some (Some 2),
      p_output_ethernet_adapter = Some (Some 3)\<rparr>"
  obtain st b s' where u: "update_config ?env ?p (Some sample_user) sample_server = ((st, b), s')"
    by (metis prod.collapse)
  obtain e1 where r: "reboot (e_xdp_ok ?env) (e_attach ?env) (patch_apply ?p firewall_config_default) new_programm =
      (Inl ''no such device'', e1)"
    by (simp add: reboot_def attach_adapter_def shut_down_working_ebpf_def patch_apply_def
        new_programm_def ref_env_def)
  have "patch_wf ?p" "patch_validate ?p = Inr ()" "adapters_named ?p"
    "config_get ?env sample_server = Some firewall_config_default" "s_ebpf sample_server = Some new_programm"
    "e_config_set_ok ?env" "\<not> e_faults ?env SaveConfig" "storable (patch_apply ?p firewall_config_default)"
    by (simp_all add: patch_wf_def patch_validate_def List.map_filter_def adapters_named_def config_get_def
        sample_server_def ref_env_def storable_def profiles_def patch_apply_def firewall_config_default_def)
  then show ?thesis
    using failed_attach_switches_off [OF sample_server_ok _ sample_user_may(1) _ _ _ _ r _ _ _ u] u by simp
qed

theorem live_before_persisted_witness:
  "CONFIG (s_maps (snd (update_config ref_env
     \<lparr>p_tcp_profile = Some \<lparr>rate_shift = 10, burst = 2 ^ 63\<rparr>, p_udp_profile = None, p_icmp_profile = None,
      p_default_profile = None, p_protocol_allowed = None, p_ddos_activated = None,
      p_subnet_activated = None, p_incoming_ethernet_adapter = None,
      p_output_ethernet_adapter = None\<rparr> (Some sample_user) sample_server))) =
   Some (firewall_config_default\<lparr>tcp_profile := \<lparr>rate_shift = 10, burst = 2 ^ 63\<rparr>\<rparr>)"
proof -
  let ?p = "\<lparr>p_tcp_profile = Some \<lparr>rate_shift = 10, burst = 2 ^ 63\<rparr>, p_udp_profile = None, p_icmp_profile = None,
      p_default_profile = None, p_protocol_allowed = None, p_ddos_activated = None,
      p_subnet_activated = None, p_incoming_ethernet_adapter = None,
      p_output_ethernet_adapter = None\<rparr>"
  obtain st b s' where u: "update_config ref_env ?p (Some sample_user) sample_server = ((st, b), s')"
    by (metis prod.collapse)
  have "patch_validate ?p = Inr ()" "\<not> adapters_named ?p" "e_config_set_ok ref_env"
    "config_get ref_env sample_server = Some firewall_config_default"
    "\<not> storable (patch_apply ?p firewall_config_default)"
    by (simp_all add: patch_validate_def MAX_RATE_SHIFT_def List.map_filter_def adapters_named_def
        config_get_def sample_server_def ref_env_def storable_def profiles_def patch_apply_def)
  from live_before_persisted [OF sample_user_may(1) this(1,4,2,3,5) u] u show ?thesis
    by (simp add: patch_apply_def firewall_config_default_def)
qed

theorem restart_after_shutdown_witness:
  "\<exists>body s'. shutdown_ebpf ref_env (Some sample_user) sample_server = ((S_NO_CONTENT, body), s') \<and>
     restart_ebpf ref_env (Some sample_user) s' = ((S_NO_CONTENT, NoBody), s')"
proof -
  obtain st body s' where u: "shutdown_ebpf ref_env (Some sample_user) sample_server = ((st, body), s')"
    by (metis prod.collapse)
  have "authorized_ebpf_action sample_server (Some sample_user) = Inr sample_user"
    using sample_user_may(1) by (simp add: authorized_ebpf_Inr sample_server_def)
  then have "fst (fst (shutdown_ebpf ref_env (Some sample_user) sample_server)) = S_NO_CONTENT"
    by (simp add: shutdown_ebpf_def with_ebpf_and_config_def config_get_def shut_down_working_ebpf_def
        ref_env_def sample_server_def Let_def config_set_def save_config_def save_firewall_config_def
        config_to_row_def sqlite_integer_def no_adapters_def firewall_config_default_def)
  with u have "st = S_NO_CONTENT" by simp
  with restart_after_shutdown [OF sample_server_ok] u show ?thesis by blast
qed

end
