(* ===== verification/Packet.thy ===== *)
theory Packet
  imports Common
begin

text \<open>
  Access to the packet's memory (\<open>ptr_at\<close> of oxidrop-ebpf/src/main.rs) and the headers the
  program reads. The header types belong to the packet library \<open>network_types\<close>: their sizes and
  accessors are the fields of the record \<open>net\<close>, an argument of the model. \<open>wire_net\<close> is the
  instance with the layouts of the wire formats.

  A raw read is checked against the packet's bounds in the model: a read outside them is
  \<open>MemFault\<close>, an outcome that the program must never have.
\<close>

section \<open>The packet library\<close>

datatype ip_proto =
  IpTcp | IpUdp | IpIcmp | IpHopOpt | IpIpv6Route | IpIpv6Opts | IpIpv6Frag | IpAh | IpIpv6Icmp
  | IpOther u8

record net =
  EthHdr_LEN :: nat
  Ipv6Hdr_LEN :: nat
  size_EthHdr :: nat
  size_Ipv4Hdr :: nat
  size_Ipv6Hdr :: nat
  size_TcpHdr :: nat
  size_UdpHdr :: nat
  eth_ether_type :: "u8 list \<Rightarrow> ether_type option"
  ipv4_src_addr :: "u8 list \<Rightarrow> u8 list"
  ipv4_dst_addr :: "u8 list \<Rightarrow> u8 list"
  ipv4_proto :: "u8 list \<Rightarrow> ip_proto option"
  ipv4_ihl :: "u8 list \<Rightarrow> u8"
  ipv6_src_addr :: "u8 list \<Rightarrow> u8 list"
  ipv6_dst_addr :: "u8 list \<Rightarrow> u8 list"
  ipv6_next_hdr :: "u8 list \<Rightarrow> ip_proto option"
  tcp_fin :: "u8 list \<Rightarrow> u16"
  tcp_rst :: "u8 list \<Rightarrow> u16"
  tcp_source :: "u8 list \<Rightarrow> u8 list"
  tcp_dest :: "u8 list \<Rightarrow> u8 list"
  udp_src_port :: "u8 list \<Rightarrow> u16"
  udp_dst_port :: "u8 list \<Rightarrow> u16"
  proto_from_u8 :: "u8 \<Rightarrow> ip_proto option"
  proto_into_u8 :: "ip_proto \<Rightarrow> u8"

text \<open>
  What the code relies on: the addresses the accessors return are arrays of four and sixteen
  bytes.
\<close>

definition net_ok :: "net \<Rightarrow> bool" where
  "net_ok N \<longleftrightarrow>
     (\<forall>h. length (ipv4_src_addr N h) = 4 \<and> length (ipv4_dst_addr N h) = 4) \<and>
     (\<forall>h. length (ipv6_src_addr N h) = 16 \<and> length (ipv6_dst_addr N h) = 16)"

section \<open>Packet memory\<close>

text \<open>\<open>XdpContext\<close>: the address of the first byte, the packet's bytes, the ingress interface.\<close>

record xdp_ctx =
  ctx_data :: nat
  ctx_packet :: "u8 list"
  ctx_ingress_ifindex :: u32

definition ctx_data_end :: "xdp_ctx \<Rightarrow> nat" where
  "ctx_data_end ctx = ctx_data ctx + length (ctx_packet ctx)"

datatype xdp_stop = Fw firewall_error | MemFault

definition ptr_at :: "xdp_ctx \<Rightarrow> nat \<Rightarrow> nat \<Rightarrow> (unit, nat) result" where
  "ptr_at ctx len offset =
     (let start = ctx_data ctx; stop = ctx_data_end ctx
      in if start + offset + len > stop then Inl () else Inr (start + offset))"

text \<open>Dereferencing a raw pointer to \<open>len\<close> bytes.\<close>

definition deref :: "xdp_ctx \<Rightarrow> nat \<Rightarrow> nat \<Rightarrow> (xdp_stop, u8 list) result" where
  "deref ctx len p =
     (if ctx_data ctx \<le> p \<and> p + len \<le> ctx_data_end ctx
      then Inr (take len (drop (p - ctx_data ctx) (ctx_packet ctx)))
      else Inl MemFault)"

text \<open>\<open>ptr_at(&ctx, offset).map_err(|_| FirewallError::OutOfBounds)?\<close>, then the read.\<close>

definition read_hdr :: "xdp_ctx \<Rightarrow> nat \<Rightarrow> nat \<Rightarrow> (xdp_stop, u8 list) result" where
  "read_hdr ctx len offset =
     (case ptr_at ctx len offset of
        Inl _ \<Rightarrow> Inl (Fw OutOfBounds)
      | Inr p \<Rightarrow> deref ctx len p)"

lemma ptr_at_Inr: "ptr_at ctx len off = Inr p \<longleftrightarrow> p = ctx_data ctx + off \<and> off + len \<le> length (ctx_packet ctx)"
  by (auto simp: ptr_at_def ctx_data_end_def Let_def)

lemma read_hdr_eq:
  "read_hdr ctx len off =
     (if off + len \<le> length (ctx_packet ctx) then Inr (take len (drop off (ctx_packet ctx)))
      else Inl (Fw OutOfBounds))"
  by (auto simp: read_hdr_def ptr_at_def deref_def ctx_data_end_def Let_def)

lemma read_hdr_no_fault [simp]: "read_hdr ctx len off \<noteq> Inl MemFault"
  by (simp add: read_hdr_eq)

lemma read_hdr_length: "read_hdr ctx len off = Inr bs \<Longrightarrow> length bs = len"
  by (auto simp: read_hdr_eq split: if_splits)

text \<open>The only failure of a header read is \<open>OutOfBounds\<close>.\<close>

lemma read_hdr_Inl [simp]:
  "read_hdr ctx len off = Inl e \<longleftrightarrow> e = Fw OutOfBounds \<and> length (ctx_packet ctx) < off + len"
  by (auto simp: read_hdr_eq)

section \<open>The wire formats\<close>

definition wire_ether_type :: "u8 list \<Rightarrow> ether_type option" where
  "wire_ether_type h =
     (let t = from_be_bytes16 (take 2 (drop 12 h)) in
      if t = 0x0800 then Some EtIpv4
      else if t = 0x86DD then Some EtIpv6
      else if t = 0x0806 then Some EtArp
      else if t = 0x8100 then Some EtIeee8021q
      else if t = 0x88A8 then Some EtIeee8021ad
      else if t = 0x0060 then Some EtLoop
      else if t \<in> {0x8906, 0x8915, 0x9000} then Some (EtOther t)
      else None)"

fun wire_proto_number :: "ip_proto \<Rightarrow> u8" where
  "wire_proto_number IpTcp = 6"
| "wire_proto_number IpUdp = 17"
| "wire_proto_number IpIcmp = 1"
| "wire_proto_number IpHopOpt = 0"
| "wire_proto_number IpIpv6Route = 43"
| "wire_proto_number IpIpv6Opts = 60"
| "wire_proto_number IpIpv6Frag = 44"
| "wire_proto_number IpAh = 51"
| "wire_proto_number IpIpv6Icmp = 58"
| "wire_proto_number (IpOther n) = n"

definition wire_proto :: "u8 \<Rightarrow> ip_proto option" where
  "wire_proto n = Some
     (if n = 6 then IpTcp else if n = 17 then IpUdp else if n = 1 then IpIcmp
      else if n = 0 then IpHopOpt else if n = 43 then IpIpv6Route else if n = 60 then IpIpv6Opts
      else if n = 44 then IpIpv6Frag else if n = 51 then IpAh else if n = 58 then IpIpv6Icmp
      else IpOther n)"

text \<open>\<open>take_pad n\<close> is an array of \<open>n\<close> bytes, whatever the list it is cut from.\<close>

definition take_pad :: "nat \<Rightarrow> u8 list \<Rightarrow> u8 list" where
  "take_pad n bs = take n (bs @ replicate n 0)"

lemma length_take_pad [simp]: "length (take_pad n bs) = n"
  by (simp add: take_pad_def)

definition wire_net :: net where
  "wire_net =
     \<lparr>EthHdr_LEN = 14, Ipv6Hdr_LEN = 40,
      size_EthHdr = 14, size_Ipv4Hdr = 20, size_Ipv6Hdr = 40, size_TcpHdr = 20, size_UdpHdr = 8,
      eth_ether_type = wire_ether_type,
      ipv4_src_addr = (\<lambda>h. take_pad 4 (drop 12 h)),
      ipv4_dst_addr = (\<lambda>h. take_pad 4 (drop 16 h)),
      ipv4_proto = (\<lambda>h. wire_proto (h ! 9)),
      ipv4_ihl = (\<lambda>h. push_bit 2 (h ! 0 AND 15)),
      ipv6_src_addr = (\<lambda>h. take_pad 16 (drop 8 h)),
      ipv6_dst_addr = (\<lambda>h. take_pad 16 (drop 24 h)),
      ipv6_next_hdr = (\<lambda>h. wire_proto (h ! 6)),
      tcp_fin = (\<lambda>h. if bit (h ! 13) 0 then 1 else 0),
      tcp_rst = (\<lambda>h. if bit (h ! 13) 2 then 1 else 0),
      tcp_source = (\<lambda>h. take 2 h),
      tcp_dest = (\<lambda>h. take 2 (drop 2 h)),
      udp_src_port = (\<lambda>h. from_be_bytes16 (take 2 h)),
      udp_dst_port = (\<lambda>h. from_be_bytes16 (take 2 (drop 2 h))),
      proto_from_u8 = wire_proto,
      proto_into_u8 = wire_proto_number\<rparr>"

lemma net_ok_wire: "net_ok wire_net"
  by (simp add: net_ok_def wire_net_def)

end
