(* ===== verification/Datapath.thy ===== *)
theory Datapath
  imports Packet Kernel_Maps Token_Bucket
begin

text \<open>
  The eBPF program (oxidrop-ebpf/src/main.rs): one packet, from the Ethernet header to the XDP
  verdict, over the maps of \<open>Kernel_Maps\<close>. Each arm of \<open>xdp_firewall\<close> is split at its own steps:
  the transport header, the flow key, the subnet check, the connection tracking and the rate
  limit; \<open>xdp_ipv4\<close> and \<open>xdp_ipv6\<close> compose them in the order of the code. \<open>N\<close> is the packet
  library, \<open>K\<close> the kernel's part of the map operations; \<open>t1\<close> and \<open>t2\<close> are the times that the
  two calls of \<open>bpf_ktime_get_ns\<close> return, for the connection entry and for the bucket.
\<close>

section \<open>Configuration\<close>

definition XDP_ABORTED :: u32 where "XDP_ABORTED = 0"
definition XDP_DROP :: u32 where "XDP_DROP = 1"

definition DEFAULT_CONFIG :: firewall_config where
  "DEFAULT_CONFIG =
     \<lparr>tcp_profile = \<lparr>rate_shift = 20, burst = 1000\<rparr>,
      udp_profile = \<lparr>rate_shift = 19, burst = 2000\<rparr>,
      icmp_profile = \<lparr>rate_shift = 26, burst = 10\<rparr>,
      default_profile = \<lparr>rate_shift = 23, burst = 100\<rparr>,
      protocol_allowed = IPV4 OR IPV6,
      ddos_activated = True,
      subnet_activated = True,
      incoming_ethernet_adapter = None,
      output_ethernet_adapter = None\<rparr>"

definition current_config :: "maps \<Rightarrow> firewall_config" where
  "current_config m = (case CONFIG m of None \<Rightarrow> DEFAULT_CONFIG | Some c \<Rightarrow> c)"

definition traffic_direction :: "firewall_config \<Rightarrow> u32 \<Rightarrow> trafic_direction" where
  "traffic_direction config ingress_ifindex =
     (if incoming_ethernet_adapter config = Some ingress_ifindex then Incoming
      else if output_ethernet_adapter config = Some ingress_ifindex then Outgoing
      else Incoming)"

definition active_profile :: "firewall_config \<Rightarrow> ip_proto \<Rightarrow> rate_profile" where
  "active_profile config proto =
     (if proto = IpTcp then tcp_profile config
      else if proto = IpUdp then udp_profile config
      else if proto = IpIcmp then icmp_profile config
      else default_profile config)"

definition redirect_target :: "firewall_config \<Rightarrow> trafic_direction \<Rightarrow> u32 option" where
  "redirect_target config dir =
     (case dir of Incoming \<Rightarrow> output_ethernet_adapter config
      | Outgoing \<Rightarrow> incoming_ethernet_adapter config)"

definition redirect_or_pass :: "kern \<Rightarrow> firewall_config \<Rightarrow> trafic_direction \<Rightarrow> u32" where
  "redirect_or_pass K config dir =
     (case redirect_target config dir of
        None \<Rightarrow> XDP_PASS
      | Some ifindex \<Rightarrow> bpf_redirect K ifindex)"

section \<open>IPv6 addresses and extension headers\<close>

definition ipv6_words :: "u8 list \<Rightarrow> (firewall_error, words4) result" where
  "ipv6_words octets =
     (case as_chunks4 octets of
        ([first, second, third, fourth], remainder) \<Rightarrow>
          if remainder \<noteq> [] then Inl OutOfBounds
          else Inr (from_be_bytes32 first, from_be_bytes32 second,
                    from_be_bytes32 third, from_be_bytes32 fourth)
      | _ \<Rightarrow> Inl OutOfBounds)"

text \<open>
  The bounded walk over the extension headers: \<open>n\<close> iterations are left. The result is the offset
  reached, the protocol there, and whether a transport header was found.
\<close>

fun walk_headers ::
    "net \<Rightarrow> xdp_ctx \<Rightarrow> nat \<Rightarrow> nat \<Rightarrow> ip_proto \<Rightarrow> (xdp_stop, nat \<times> ip_proto \<times> bool) result" where
  "walk_headers N ctx 0 off next_proto = Inr (off, next_proto, False)"
| "walk_headers N ctx (Suc n) off next_proto =
     (if next_proto \<in> {IpTcp, IpUdp, IpIpv6Icmp} then Inr (off, next_proto, True)
      else if next_proto \<in> {IpHopOpt, IpIpv6Route, IpIpv6Opts} then
        result_bind (read_hdr ctx 2 off) (\<lambda>ext.
          case proto_from_u8 N (ext ! 0) of
            None \<Rightarrow> Inr (off, next_proto, False)
          | Some parsed \<Rightarrow> walk_headers N ctx n (off + (unat (ext ! 1) + 1) * 8) parsed)
      else if next_proto = IpIpv6Frag then
        result_bind (read_hdr ctx 2 off) (\<lambda>ext.
          case proto_from_u8 N (ext ! 0) of
            None \<Rightarrow> Inr (off, next_proto, False)
          | Some parsed \<Rightarrow> walk_headers N ctx n (off + 8) parsed)
      else if next_proto = IpAh then
        result_bind (read_hdr ctx 2 off) (\<lambda>ext.
          case proto_from_u8 N (ext ! 0) of
            None \<Rightarrow> Inr (off, next_proto, False)
          | Some parsed \<Rightarrow> walk_headers N ctx n (off + (unat (ext ! 1) + 2) * 4) parsed)
      else Inr (off, next_proto, False))"

section \<open>Transport headers and flow keys\<close>

text \<open>The ports and whether the packet ends its connection (FIN or RST).\<close>

definition tcp_ports :: "net \<Rightarrow> xdp_ctx \<Rightarrow> nat \<Rightarrow> (xdp_stop, u16 \<times> u16 \<times> bool) result" where
  "tcp_ports N ctx off =
     result_bind (read_hdr ctx (size_TcpHdr N) off) (\<lambda>h.
       let is_fin = tcp_fin N h \<noteq> 0; is_rst = tcp_rst N h \<noteq> 0
       in Inr (from_be_bytes16 (tcp_source N h), from_be_bytes16 (tcp_dest N h), is_rst \<or> is_fin))"

definition udp_ports :: "net \<Rightarrow> xdp_ctx \<Rightarrow> nat \<Rightarrow> (xdp_stop, u16 \<times> u16 \<times> bool) result" where
  "udp_ports N ctx off =
     result_bind (read_hdr ctx (size_UdpHdr N) off) (\<lambda>h.
       Inr (udp_src_port N h, udp_dst_port N h, False))"

definition l4_ports_v4 :: "net \<Rightarrow> xdp_ctx \<Rightarrow> ip_proto \<Rightarrow> nat \<Rightarrow> (xdp_stop, u16 \<times> u16 \<times> bool) result" where
  "l4_ports_v4 N ctx proto ihl =
     (if proto = IpTcp then tcp_ports N ctx (EthHdr_LEN N + ihl)
      else if proto = IpUdp then udp_ports N ctx (EthHdr_LEN N + ihl)
      else Inr (0, 0, False))"

definition l4_ports_v6 ::
    "net \<Rightarrow> xdp_ctx \<Rightarrow> bool \<Rightarrow> ip_proto \<Rightarrow> nat \<Rightarrow> (xdp_stop, u16 \<times> u16 \<times> bool) result" where
  "l4_ports_v6 N ctx found_l4 next_proto off =
     (if found_l4 \<and> next_proto = IpTcp then tcp_ports N ctx off
      else if found_l4 \<and> next_proto = IpUdp then udp_ports N ctx off
      else Inr (0, 0, False))"

text \<open>The key of a flow as the inside sees it: an incoming packet is keyed by its reverse.\<close>

definition flow_key_v4 ::
    "net \<Rightarrow> trafic_direction \<Rightarrow> u8 list \<Rightarrow> u8 list \<Rightarrow> u16 \<Rightarrow> u16 \<Rightarrow> ip_proto \<Rightarrow> ipv4_packet" where
  "flow_key_v4 N dir src dst sport dport proto =
     (case dir of
        Incoming \<Rightarrow> ipv4_packet_new (from_be_bytes32 dst) (from_be_bytes32 src) dport sport
                      (proto_into_u8 N proto)
      | Outgoing \<Rightarrow> ipv4_packet_new (from_be_bytes32 src) (from_be_bytes32 dst) sport dport
                      (proto_into_u8 N proto))"

definition flow_key_v6 ::
    "net \<Rightarrow> trafic_direction \<Rightarrow> words4 \<Rightarrow> words4 \<Rightarrow> u16 \<Rightarrow> u16 \<Rightarrow> ip_proto \<Rightarrow> ipv6_packet" where
  "flow_key_v6 N dir src dst sport dport proto =
     (case dir of
        Incoming \<Rightarrow> ipv6_packet_new dst src dport sport (proto_into_u8 N proto)
      | Outgoing \<Rightarrow> ipv6_packet_new src dst sport dport (proto_into_u8 N proto))"

definition external_addr :: "trafic_direction \<Rightarrow> 'a \<Rightarrow> 'a \<Rightarrow> 'a" where
  "external_addr dir src dst = (case dir of Incoming \<Rightarrow> src | Outgoing \<Rightarrow> dst)"

section \<open>Policy: subnets, connections, rate\<close>

definition subnet_denies_v4 :: "kern \<Rightarrow> firewall_config \<Rightarrow> maps \<Rightarrow> u8 list \<Rightarrow> bool" where
  "subnet_denies_v4 K config m octets \<longleftrightarrow>
     subnet_activated config \<and> lpm_get_v4 K (SUBNET_MATCHING_V4 m) (32, octets) \<noteq> Some Allow"

definition subnet_denies_v6 :: "kern \<Rightarrow> firewall_config \<Rightarrow> maps \<Rightarrow> u8 list \<Rightarrow> bool" where
  "subnet_denies_v6 K config m octets \<longleftrightarrow>
     subnet_activated config \<and> lpm_get_v6 K (SUBNET_MATCHING_V6 m) (128, octets) \<noteq> Some Allow"

definition track_v4 ::
    "kern \<Rightarrow> u64 \<Rightarrow> trafic_direction \<Rightarrow> ipv4_packet \<Rightarrow> maps \<Rightarrow> (xdp_stop, unit) result \<times> maps" where
  "track_v4 K now dir key m =
     (let refreshed = m\<lparr>ALLOW_LIST_V4 := kmap_write key (\<lambda>s. s\<lparr>last_seen := now\<rparr>) (ALLOW_LIST_V4 m)\<rparr>
      in case dir of
        Incoming \<Rightarrow>
          (case map_of (ALLOW_LIST_V4 m) key of
             Some s \<Rightarrow> if als_action s = Allow then (Inr (), refreshed)
                       else (Inl (Fw DeniedByPolicy), m)
           | None \<Rightarrow> (Inl (Fw DeniedByPolicy), m))
      | Outgoing \<Rightarrow>
          (case map_of (ALLOW_LIST_V4 m) key of
             Some s \<Rightarrow> (Inr (), refreshed)
           | None \<Rightarrow>
               (Inr (), m\<lparr>ALLOW_LIST_V4 := put_or_keep (ins_allow_v4 K) (ALLOW_LIST_V4 m) key
                            \<lparr>als_action = Allow, last_seen = now\<rparr>\<rparr>)))"

definition track_v6 ::
    "kern \<Rightarrow> u64 \<Rightarrow> trafic_direction \<Rightarrow> ipv6_packet \<Rightarrow> maps \<Rightarrow> (xdp_stop, unit) result \<times> maps" where
  "track_v6 K now dir key m =
     (let refreshed = m\<lparr>ALLOW_LIST_V6 := kmap_write key (\<lambda>s. s\<lparr>last_seen := now\<rparr>) (ALLOW_LIST_V6 m)\<rparr>
      in case dir of
        Incoming \<Rightarrow>
          (case map_of (ALLOW_LIST_V6 m) key of
             Some s \<Rightarrow> if als_action s = Allow then (Inr (), refreshed)
                       else (Inl (Fw DeniedByPolicy), m)
           | None \<Rightarrow> (Inl (Fw DeniedByPolicy), m))
      | Outgoing \<Rightarrow>
          (case map_of (ALLOW_LIST_V6 m) key of
             Some s \<Rightarrow> (Inr (), refreshed)
           | None \<Rightarrow>
               (Inr (), m\<lparr>ALLOW_LIST_V6 := put_or_keep (ins_allow_v6 K) (ALLOW_LIST_V6 m) key
                            \<lparr>als_action = Allow, last_seen = now\<rparr>\<rparr>)))"

text \<open>A FIN or RST forgets the flow: its connection entry and its bucket.\<close>

definition forget_v4 :: "ipv4_packet \<Rightarrow> maps \<Rightarrow> maps" where
  "forget_v4 key m = m\<lparr>ALLOW_LIST_V4 := del_key key (ALLOW_LIST_V4 m),
                       PACKET_COUNTS_V4 := del_key key (PACKET_COUNTS_V4 m)\<rparr>"

definition forget_v6 :: "ipv6_packet \<Rightarrow> maps \<Rightarrow> maps" where
  "forget_v6 key m = m\<lparr>ALLOW_LIST_V6 := del_key key (ALLOW_LIST_V6 m),
                       PACKET_COUNTS_V6 := del_key key (PACKET_COUNTS_V6 m)\<rparr>"

definition flow_bucket :: "('k, token_bucket_state) kmap \<Rightarrow> 'k \<Rightarrow> rate_profile \<Rightarrow> u64 \<Rightarrow> token_bucket_state" where
  "flow_bucket counts key p now =
     (case map_of counts key of Some b \<Rightarrow> b | None \<Rightarrow> fresh_bucket p now)"

definition ddos_and_bucket_ending_v4 ::
    "kern \<Rightarrow> firewall_config \<Rightarrow> token_bucket_state \<Rightarrow> u64 \<Rightarrow> rate_profile \<Rightarrow> ipv4_packet \<Rightarrow>
     trafic_direction \<Rightarrow> maps \<Rightarrow> (xdp_stop, u32) result \<times> maps" where
  "ddos_and_bucket_ending_v4 K config bucket now p key dir m =
     (if ddos_activated config then
        (let (r, bucket') = evaluate_bucket bucket p now;
             m' = m\<lparr>PACKET_COUNTS_V4 := put_or_keep (ins_counts_v4 K) (PACKET_COUNTS_V4 m) key bucket'\<rparr>
         in case r of
              Inr _ \<Rightarrow> (Inr (redirect_or_pass K config dir), m')
            | Inl _ \<Rightarrow> (Inl (Fw RateLimited), m'))
      else (Inr (redirect_or_pass K config dir), m))"

definition ddos_and_bucket_ending_v6 ::
    "kern \<Rightarrow> firewall_config \<Rightarrow> token_bucket_state \<Rightarrow> u64 \<Rightarrow> rate_profile \<Rightarrow> ipv6_packet \<Rightarrow>
     trafic_direction \<Rightarrow> maps \<Rightarrow> (xdp_stop, u32) result \<times> maps" where
  "ddos_and_bucket_ending_v6 K config bucket now p key dir m =
     (if ddos_activated config then
        (let (r, bucket') = evaluate_bucket bucket p now;
             m' = m\<lparr>PACKET_COUNTS_V6 := put_or_keep (ins_counts_v6 K) (PACKET_COUNTS_V6 m) key bucket'\<rparr>
         in case r of
              Inr _ \<Rightarrow> (Inr (redirect_or_pass K config dir), m')
            | Inl _ \<Rightarrow> (Inl (Fw RateLimited), m'))
      else (Inr (redirect_or_pass K config dir), m))"

section \<open>The IPv4 and the IPv6 arm\<close>

text \<open>\<open>?\<close> on a result of a helper that fails with a firewall error.\<close>

definition lift_fw :: "(firewall_error, 'a) result \<Rightarrow> (xdp_stop, 'a) result" where
  "lift_fw r = (case r of Inl e \<Rightarrow> Inl (Fw e) | Inr a \<Rightarrow> Inr a)"

text \<open>
  What the policy needs to know of a packet: the flow key, the octets of the external address,
  the protocol that selects the profile, and whether the packet ends its connection.
\<close>

definition parse_v4 ::
    "net \<Rightarrow> xdp_ctx \<Rightarrow> trafic_direction \<Rightarrow>
     (xdp_stop, ipv4_packet \<times> u8 list \<times> ip_proto \<times> bool) result" where
  "parse_v4 N ctx dir =
     result_bind (read_hdr ctx (size_Ipv4Hdr N) (EthHdr_LEN N)) (\<lambda>ip.
       let source_addr = ipv4_src_addr N ip; dest_addr = ipv4_dst_addr N ip in
       result_bind (ok_or (Fw OutOfBounds) (ipv4_proto N ip)) (\<lambda>proto.
       result_bind (l4_ports_v4 N ctx proto (unat (ipv4_ihl N ip)))
         (\<lambda>(source_port, dest_port, remove_from_hashmap).
         Inr (flow_key_v4 N dir source_addr dest_addr source_port dest_port proto,
              external_addr dir source_addr dest_addr, proto, remove_from_hashmap))))"

definition parse_v6 ::
    "net \<Rightarrow> xdp_ctx \<Rightarrow> trafic_direction \<Rightarrow>
     (xdp_stop, ipv6_packet \<times> u8 list \<times> ip_proto \<times> bool) result" where
  "parse_v6 N ctx dir =
     result_bind (read_hdr ctx (size_Ipv6Hdr N) (EthHdr_LEN N)) (\<lambda>ip.
       let src_octets = ipv6_src_addr N ip; dst_octets = ipv6_dst_addr N ip in
       result_bind (lift_fw (ipv6_words src_octets)) (\<lambda>src_array.
       result_bind (lift_fw (ipv6_words dst_octets)) (\<lambda>dst_array.
       result_bind (ok_or (Fw OutOfBounds) (ipv6_next_hdr N ip)) (\<lambda>protocol_first.
       result_bind (walk_headers N ctx 6 (EthHdr_LEN N + Ipv6Hdr_LEN N) protocol_first)
         (\<lambda>(current_offset, next_proto, found_l4).
       result_bind (l4_ports_v6 N ctx found_l4 next_proto current_offset)
         (\<lambda>(source_port, dest_port, remove_from_hashmap).
         Inr (flow_key_v6 N dir src_array dst_array source_port dest_port next_proto,
              external_addr dir src_octets dst_octets, next_proto, remove_from_hashmap)))))))"

definition filter_v4 ::
    "kern \<Rightarrow> firewall_config \<Rightarrow> u64 \<Rightarrow> u64 \<Rightarrow> trafic_direction \<Rightarrow>
     ipv4_packet \<times> u8 list \<times> ip_proto \<times> bool \<Rightarrow> maps \<Rightarrow> (xdp_stop, u32) result \<times> maps" where
  "filter_v4 K config t1 t2 dir = (\<lambda>(key, ext, proto, remove_from_hashmap) m.
     if subnet_denies_v4 K config m ext then (Inl (Fw DeniedByPolicy), m)
     else if \<not> remove_from_hashmap then
       (case track_v4 K t1 dir key m of
          (Inl e, m1) \<Rightarrow> (Inl e, m1)
        | (Inr _, m1) \<Rightarrow>
            (let p = active_profile config proto;
                 bucket = flow_bucket (PACKET_COUNTS_V4 m1) key p t2
             in ddos_and_bucket_ending_v4 K config bucket t2 p key dir m1))
     else (Inr (redirect_or_pass K config dir), forget_v4 key m))"

definition filter_v6 ::
    "kern \<Rightarrow> firewall_config \<Rightarrow> u64 \<Rightarrow> u64 \<Rightarrow> trafic_direction \<Rightarrow>
     ipv6_packet \<times> u8 list \<times> ip_proto \<times> bool \<Rightarrow> maps \<Rightarrow> (xdp_stop, u32) result \<times> maps" where
  "filter_v6 K config t1 t2 dir = (\<lambda>(key, ext, proto, remove_from_hashmap) m.
     if subnet_denies_v6 K config m ext then (Inl (Fw DeniedByPolicy), m)
     else if \<not> remove_from_hashmap then
       (case track_v6 K t1 dir key m of
          (Inl e, m1) \<Rightarrow> (Inl e, m1)
        | (Inr _, m1) \<Rightarrow>
            (let p = active_profile config proto;
                 bucket = flow_bucket (PACKET_COUNTS_V6 m1) key p t2
             in ddos_and_bucket_ending_v6 K config bucket t2 p key dir m1))
     else (Inr (redirect_or_pass K config dir), forget_v6 key m))"

definition xdp_ipv4 ::
    "net \<Rightarrow> kern \<Rightarrow> u64 \<Rightarrow> u64 \<Rightarrow> xdp_ctx \<Rightarrow> firewall_config \<Rightarrow> trafic_direction \<Rightarrow> maps \<Rightarrow>
     (xdp_stop, u32) result \<times> maps" where
  "xdp_ipv4 N K t1 t2 ctx config dir m =
     (case parse_v4 N ctx dir of
        Inl e \<Rightarrow> (Inl e, m)
      | Inr parsed \<Rightarrow> filter_v4 K config t1 t2 dir parsed m)"

definition xdp_ipv6 ::
    "net \<Rightarrow> kern \<Rightarrow> u64 \<Rightarrow> u64 \<Rightarrow> xdp_ctx \<Rightarrow> firewall_config \<Rightarrow> trafic_direction \<Rightarrow> maps \<Rightarrow>
     (xdp_stop, u32) result \<times> maps" where
  "xdp_ipv6 N K t1 t2 ctx config dir m =
     (case parse_v6 N ctx dir of
        Inl e \<Rightarrow> (Inl e, m)
      | Inr parsed \<Rightarrow> filter_v6 K config t1 t2 dir parsed m)"

section \<open>The program\<close>

definition xdp_firewall ::
    "net \<Rightarrow> kern \<Rightarrow> u64 \<Rightarrow> u64 \<Rightarrow> xdp_ctx \<Rightarrow> maps \<Rightarrow> (xdp_stop, u32) result \<times> maps" where
  "xdp_firewall N K t1 t2 ctx m =
     (case read_hdr ctx (size_EthHdr N) 0 of
        Inl e \<Rightarrow> (Inl e, m)
      | Inr ethhdr \<Rightarrow>
          (let config = current_config m;
               dir = traffic_direction config (ctx_ingress_ifindex ctx)
           in case eth_ether_type N ethhdr of
                None \<Rightarrow> (Inl (Fw UnsupportedProtocol), m)
              | Some x \<Rightarrow>
                  if x = EtIpv4 \<and> flags_contains (protocol_allowed config) IPV4
                  then xdp_ipv4 N K t1 t2 ctx config dir m
                  else if x = EtIpv6 then xdp_ipv6 N K t1 t2 ctx config dir m
                  else if x = EtArp then (Inr XDP_PASS, m)
                  else if flags_contains (protocol_allowed config) (activater_from_ether_type x)
                  then (Inr XDP_PASS, m)
                  else (Inl (Fw UnsupportedProtocol), m)))"

text \<open>The verdict; \<open>None\<close> is the undefined behaviour of a read outside the packet.\<close>

definition oxidrop :: "net \<Rightarrow> kern \<Rightarrow> u64 \<Rightarrow> u64 \<Rightarrow> xdp_ctx \<Rightarrow> maps \<Rightarrow> u32 option \<times> maps" where
  "oxidrop N K t1 t2 ctx m =
     (case xdp_firewall N K t1 t2 ctx m of
        (Inr ret, m') \<Rightarrow> (Some ret, m')
      | (Inl (Fw OutOfBounds), m') \<Rightarrow> (Some XDP_ABORTED, m')
      | (Inl (Fw RateLimited), m') \<Rightarrow> (Some XDP_DROP, m')
      | (Inl (Fw DeniedByPolicy), m') \<Rightarrow> (Some XDP_DROP, m')
      | (Inl (Fw UnsupportedProtocol), m') \<Rightarrow> (Some XDP_DROP, m')
      | (Inl MemFault, m') \<Rightarrow> (None, m'))"

end
