(* ===== verification/Datapath_Facts.thy ===== *)
theory Datapath_Facts
  imports Datapath
begin

text \<open>
  What the eBPF program guarantees: memory safety of its packet reads, the functional behaviour
  of each stage, the policy (subnet gate, connection tracking, rate limit), and the invariants
  of the maps that every packet preserves.
\<close>

section \<open>Memory safety\<close>

lemma lift_fw_simps [simp]: "lift_fw (Inl e) = Inl (Fw e)" "lift_fw (Inr a) = Inr a"
  by (simp_all add: lift_fw_def)

lemma lift_fw_eq [simp]:
  "lift_fw r = Inl s \<longleftrightarrow> (\<exists>e. r = Inl e \<and> s = Fw e)" "lift_fw r = Inr a \<longleftrightarrow> r = Inr a"
  by (cases r; auto)+

lemma walk_headers_no_fault [simp]: "walk_headers N ctx n off proto \<noteq> Inl MemFault"
  by (induction N ctx n off proto rule: walk_headers.induct) (auto split: option.splits)

lemma tcp_ports_no_fault [simp]: "tcp_ports N ctx off \<noteq> Inl MemFault"
  by (auto simp: tcp_ports_def Let_def)

lemma udp_ports_no_fault [simp]: "udp_ports N ctx off \<noteq> Inl MemFault"
  by (auto simp: udp_ports_def)

lemma parse_v4_no_fault [simp]: "parse_v4 N ctx dir \<noteq> Inl MemFault"
  by (auto simp: parse_v4_def l4_ports_v4_def Let_def split: prod.splits if_splits)

lemma parse_v6_no_fault [simp]: "parse_v6 N ctx dir \<noteq> Inl MemFault"
  by (auto simp: parse_v6_def l4_ports_v6_def Let_def split: prod.splits if_splits)

lemma track_v4_Inl: "track_v4 K now dir key m = (Inl e, m') \<Longrightarrow> e = Fw DeniedByPolicy \<and> m' = m"
  by (auto simp: track_v4_def Let_def split: trafic_direction.splits option.splits if_splits)

lemma track_v6_Inl: "track_v6 K now dir key m = (Inl e, m') \<Longrightarrow> e = Fw DeniedByPolicy \<and> m' = m"
  by (auto simp: track_v6_def Let_def split: trafic_direction.splits option.splits if_splits)

lemma ending_v4_no_fault [simp]: "fst (ddos_and_bucket_ending_v4 K c b t p key dir m) \<noteq> Inl MemFault"
  by (auto simp: ddos_and_bucket_ending_v4_def Let_def split: prod.split sum.split)

lemma ending_v6_no_fault [simp]: "fst (ddos_and_bucket_ending_v6 K c b t p key dir m) \<noteq> Inl MemFault"
  by (auto simp: ddos_and_bucket_ending_v6_def Let_def split: prod.split sum.split)

lemma filter_v4_error:
  "fst (filter_v4 K c t1 t2 dir x m) = Inl e \<Longrightarrow> e = Fw DeniedByPolicy \<or> e = Fw RateLimited"
  by (cases x) (auto simp: filter_v4_def ddos_and_bucket_ending_v4_def Let_def dest: track_v4_Inl
      split: prod.splits sum.splits if_splits)

lemma filter_v4_no_fault [simp]: "fst (filter_v4 K c t1 t2 dir x m) \<noteq> Inl MemFault"
  by (auto dest: filter_v4_error)

lemma filter_v6_error:
  "fst (filter_v6 K c t1 t2 dir x m) = Inl e \<Longrightarrow> e = Fw DeniedByPolicy \<or> e = Fw RateLimited"
  by (cases x) (auto simp: filter_v6_def ddos_and_bucket_ending_v6_def Let_def dest: track_v6_Inl
      split: prod.splits sum.splits if_splits)

lemma filter_v6_no_fault [simp]: "fst (filter_v6 K c t1 t2 dir x m) \<noteq> Inl MemFault"
  by (auto dest: filter_v6_error)

lemma xdp_firewall_no_fault: "fst (xdp_firewall N K t1 t2 ctx m) \<noteq> Inl MemFault"
  by (auto simp: xdp_firewall_def xdp_ipv4_def xdp_ipv6_def Let_def split: sum.split option.split)

text \<open>
  C22: No packet makes the program read outside its bounds: every header access is inside the
  packet or answered with \<open>OutOfBounds\<close>, so the program always returns a verdict, whatever the
  packet, the maps and the packet library's accessors.
\<close>

theorem oxidrop_memory_safe: "fst (oxidrop N K t1 t2 ctx m) \<noteq> None"
  using xdp_firewall_no_fault [of N K t1 t2 ctx m]
  by (auto simp: oxidrop_def split: prod.split sum.split xdp_stop.split firewall_error.split)

section \<open>Which maps a packet writes\<close>

text \<open>\<open>v4_only m m'\<close>: nothing but the IPv4 connection table and the IPv4 buckets may differ.\<close>

definition v4_only :: "maps \<Rightarrow> maps \<Rightarrow> bool" where
  "v4_only m m' \<longleftrightarrow> m' = m\<lparr>ALLOW_LIST_V4 := ALLOW_LIST_V4 m', PACKET_COUNTS_V4 := PACKET_COUNTS_V4 m'\<rparr>"

definition v6_only :: "maps \<Rightarrow> maps \<Rightarrow> bool" where
  "v6_only m m' \<longleftrightarrow> m' = m\<lparr>ALLOW_LIST_V6 := ALLOW_LIST_V6 m', PACKET_COUNTS_V6 := PACKET_COUNTS_V6 m'\<rparr>"

lemma v_only_refl [simp]: "v4_only m m" "v6_only m m"
  by (simp_all add: v4_only_def v6_only_def)

lemma v4_only_fields:
  assumes "v4_only m m'"
  shows "CONFIG m' = CONFIG m" "SUBNET_MATCHING_V4 m' = SUBNET_MATCHING_V4 m"
    "SUBNET_MATCHING_V6 m' = SUBNET_MATCHING_V6 m" "ALLOW_LIST_V6 m' = ALLOW_LIST_V6 m"
    "PACKET_COUNTS_V6 m' = PACKET_COUNTS_V6 m"
  using assms unfolding v4_only_def by (metis maps.select_convs maps.simps maps.surjective)+

lemma v6_only_fields:
  assumes "v6_only m m'"
  shows "CONFIG m' = CONFIG m" "SUBNET_MATCHING_V4 m' = SUBNET_MATCHING_V4 m"
    "SUBNET_MATCHING_V6 m' = SUBNET_MATCHING_V6 m" "ALLOW_LIST_V4 m' = ALLOW_LIST_V4 m"
    "PACKET_COUNTS_V4 m' = PACKET_COUNTS_V4 m"
  using assms unfolding v6_only_def by (metis maps.select_convs maps.simps maps.surjective)+

lemma v4_only_trans: "v4_only m m1 \<Longrightarrow> v4_only m1 m2 \<Longrightarrow> v4_only m m2"
  by (cases m; cases m1; cases m2) (simp add: v4_only_def)

lemma v6_only_trans: "v6_only m m1 \<Longrightarrow> v6_only m1 m2 \<Longrightarrow> v6_only m m2"
  by (cases m; cases m1; cases m2) (simp add: v6_only_def)

lemma track_v4_frame: "v4_only m (snd (track_v4 K t dir key m))"
  by (auto simp: track_v4_def Let_def v4_only_def split: trafic_direction.split option.split)

lemma track_v6_frame: "v6_only m (snd (track_v6 K t dir key m))"
  by (auto simp: track_v6_def Let_def v6_only_def split: trafic_direction.split option.split)

lemma ending_v4_frame: "v4_only m (snd (ddos_and_bucket_ending_v4 K c b t p key dir m))"
  by (auto simp: ddos_and_bucket_ending_v4_def Let_def v4_only_def split: prod.split sum.split)

lemma ending_v6_frame: "v6_only m (snd (ddos_and_bucket_ending_v6 K c b t p key dir m))"
  by (auto simp: ddos_and_bucket_ending_v6_def Let_def v6_only_def split: prod.split sum.split)

lemma forget_v4_frame: "v4_only m (forget_v4 key m)"
  by (simp add: forget_v4_def v4_only_def)

lemma forget_v6_frame: "v6_only m (forget_v6 key m)"
  by (simp add: forget_v6_def v6_only_def)

lemma filter_v4_frame: "v4_only m (snd (filter_v4 K c t1 t2 dir x m))"
proof -
  obtain key ext proto fin where x: "x = (key, ext, proto, fin)" by (cases x)
  show ?thesis
    using track_v4_frame [of m K t1 dir key] forget_v4_frame
    by (auto simp: x filter_v4_def Let_def split: prod.split sum.split
        intro: v4_only_trans [OF _ ending_v4_frame])
qed

lemma filter_v6_frame: "v6_only m (snd (filter_v6 K c t1 t2 dir x m))"
proof -
  obtain key ext proto fin where x: "x = (key, ext, proto, fin)" by (cases x)
  show ?thesis
    using track_v6_frame [of m K t1 dir key] forget_v6_frame
    by (auto simp: x filter_v6_def Let_def split: prod.split sum.split
        intro: v6_only_trans [OF _ ending_v6_frame])
qed

section \<open>The arms of the program\<close>

definition packet_direction :: "xdp_ctx \<Rightarrow> maps \<Rightarrow> trafic_direction" where
  "packet_direction ctx m = traffic_direction (current_config m) (ctx_ingress_ifindex ctx)"

text \<open>The EtherType of a packet that has an Ethernet header.\<close>

definition packet_ether_type :: "net \<Rightarrow> xdp_ctx \<Rightarrow> ether_type option" where
  "packet_ether_type N ctx =
     (case read_hdr ctx (size_EthHdr N) 0 of Inl _ \<Rightarrow> None | Inr h \<Rightarrow> eth_ether_type N h)"

definition arm_v4 :: "net \<Rightarrow> xdp_ctx \<Rightarrow> maps \<Rightarrow> bool" where
  "arm_v4 N ctx m \<longleftrightarrow> packet_ether_type N ctx = Some EtIpv4 \<and>
     flags_contains (protocol_allowed (current_config m)) IPV4"

lemma snd_xdp_firewall:
  "snd (xdp_firewall N K t1 t2 ctx m) =
     (if arm_v4 N ctx m then snd (xdp_ipv4 N K t1 t2 ctx (current_config m) (packet_direction ctx m) m)
      else if packet_ether_type N ctx = Some EtIpv6
      then snd (xdp_ipv6 N K t1 t2 ctx (current_config m) (packet_direction ctx m) m)
      else m)"
  by (cases "read_hdr ctx (size_EthHdr N) 0")
    (auto simp: xdp_firewall_def packet_ether_type_def arm_v4_def packet_direction_def Let_def
      simp del: read_hdr_Inl split: option.split)

lemma snd_oxidrop: "snd (oxidrop N K t1 t2 ctx m) = snd (xdp_firewall N K t1 t2 ctx m)"
  by (auto simp: oxidrop_def split: prod.split sum.split xdp_stop.split firewall_error.split)

text \<open>
  Every outcome of the program is one of three: the maps are left alone, or the packet was
  filtered as IPv4, or as IPv6. The properties of single packets and the invariants use this
  case rule.
\<close>

lemma oxidrop_cases [case_names same v4 v6]:
  obtains "snd (oxidrop N K t1 t2 ctx m) = m"
  | x where "snd (oxidrop N K t1 t2 ctx m) =
      snd (filter_v4 K (current_config m) t1 t2 (packet_direction ctx m) x m)"
    and "parse_v4 N ctx (packet_direction ctx m) = Inr x"
  | x where "snd (oxidrop N K t1 t2 ctx m) =
      snd (filter_v6 K (current_config m) t1 t2 (packet_direction ctx m) x m)"
    and "parse_v6 N ctx (packet_direction ctx m) = Inr x"
proof -
  consider "arm_v4 N ctx m" | "\<not> arm_v4 N ctx m" "packet_ether_type N ctx = Some EtIpv6"
    | "\<not> arm_v4 N ctx m" "packet_ether_type N ctx \<noteq> Some EtIpv6" by blast
  then show thesis
  proof cases
    case 1
    then have "snd (oxidrop N K t1 t2 ctx m) =
        snd (xdp_ipv4 N K t1 t2 ctx (current_config m) (packet_direction ctx m) m)"
      by (simp add: snd_oxidrop snd_xdp_firewall)
    then show thesis
      by (cases "parse_v4 N ctx (packet_direction ctx m)")
        (auto simp: xdp_ipv4_def intro: that(1) that(2))
  next
    case 2
    then have "snd (oxidrop N K t1 t2 ctx m) =
        snd (xdp_ipv6 N K t1 t2 ctx (current_config m) (packet_direction ctx m) m)"
      by (simp add: snd_oxidrop snd_xdp_firewall)
    then show thesis
      by (cases "parse_v6 N ctx (packet_direction ctx m)")
        (auto simp: xdp_ipv6_def intro: that(1) that(3))
  next
    case 3
    then have "snd (oxidrop N K t1 t2 ctx m) = m" by (simp add: snd_oxidrop snd_xdp_firewall)
    then show thesis by (rule that(1))
  qed
qed

text \<open>
  The program never writes its configuration or the subnet tables, and a packet of one IP
  version never touches the connections or buckets of the other.
\<close>

theorem oxidrop_frame:
  "let m' = snd (oxidrop N K t1 t2 ctx m)
   in (v4_only m m' \<or> v6_only m m') \<and> CONFIG m' = CONFIG m \<and>
      SUBNET_MATCHING_V4 m' = SUBNET_MATCHING_V4 m \<and> SUBNET_MATCHING_V6 m' = SUBNET_MATCHING_V6 m"
proof -
  have "v4_only m (snd (oxidrop N K t1 t2 ctx m)) \<or> v6_only m (snd (oxidrop N K t1 t2 ctx m))"
    by (cases rule: oxidrop_cases [of N K t1 t2 ctx m])
      (metis v_only_refl(1), metis filter_v4_frame, metis filter_v6_frame)
  then show ?thesis by (auto simp: Let_def dest: v4_only_fields v6_only_fields)
qed

lemma oxidrop_v4:
  assumes "arm_v4 N ctx m" and "parse_v4 N ctx (packet_direction ctx m) = Inr x"
  shows "oxidrop N K t1 t2 ctx m =
    (case filter_v4 K (current_config m) t1 t2 (packet_direction ctx m) x m of
       (Inr v, m') \<Rightarrow> (Some v, m') | (Inl _, m') \<Rightarrow> (Some XDP_DROP, m'))"
proof -
  have "xdp_firewall N K t1 t2 ctx m = filter_v4 K (current_config m) t1 t2 (packet_direction ctx m) x m"
    using assms by (auto simp: xdp_firewall_def arm_v4_def packet_ether_type_def packet_direction_def
        xdp_ipv4_def Let_def simp del: read_hdr_Inl split: sum.splits)
  then show ?thesis
    using filter_v4_error [of K "current_config m" t1 t2 "packet_direction ctx m" x m]
    by (auto simp: oxidrop_def split: prod.split sum.split xdp_stop.split firewall_error.split)
qed

lemma oxidrop_v6:
  assumes "packet_ether_type N ctx = Some EtIpv6"
    and "parse_v6 N ctx (packet_direction ctx m) = Inr x"
  shows "oxidrop N K t1 t2 ctx m =
    (case filter_v6 K (current_config m) t1 t2 (packet_direction ctx m) x m of
       (Inr v, m') \<Rightarrow> (Some v, m') | (Inl _, m') \<Rightarrow> (Some XDP_DROP, m'))"
proof -
  have "xdp_firewall N K t1 t2 ctx m = filter_v6 K (current_config m) t1 t2 (packet_direction ctx m) x m"
    using assms by (auto simp: xdp_firewall_def packet_ether_type_def packet_direction_def
        xdp_ipv6_def Let_def simp del: read_hdr_Inl split: sum.splits)
  then show ?thesis
    using filter_v6_error [of K "current_config m" t1 t2 "packet_direction ctx m" x m]
    by (auto simp: oxidrop_def split: prod.split sum.split xdp_stop.split firewall_error.split)
qed

end
