(* ===== verification/Sample_Packets.thy ===== *)
theory Sample_Packets
  imports Datapath_Facts
begin

text \<open>
  Concrete packets and map contents on which the properties of the eBPF program are applied: a TCP
  connection between 10.0.0.1:8080 inside and 1.1.1.1:443 outside (and the same over IPv6, behind
  a hop-by-hop header), seen on interface 1 (inside) and interface 2 (outside). The packets are
  bytes in the wire formats; their parsing is computed by the model.
\<close>

definition tcp_bytes :: "u8 list \<Rightarrow> u8 list \<Rightarrow> u8 \<Rightarrow> u8 list" where
  "tcp_bytes sport dport tcp_flags =
     sport @ dport @ [0, 0, 0, 0, 0, 0, 0, 0, 80, tcp_flags, 0, 0, 0, 0, 0, 0]"

definition tcp_packet4 :: "u8 list \<Rightarrow> u8 list \<Rightarrow> u8 list \<Rightarrow> u8 list \<Rightarrow> u8 \<Rightarrow> u8 list" where
  "tcp_packet4 src dst sport dport tcp_flags =
     replicate 12 0 @ [8, 0] @ [69, 0, 0, 40, 0, 0, 0, 0, 64, 6, 0, 0] @ src @ dst @
     tcp_bytes sport dport tcp_flags"

definition tcp_packet6 :: "u8 list \<Rightarrow> u8 list \<Rightarrow> u8 list \<Rightarrow> u8 list \<Rightarrow> u8 \<Rightarrow> u8 list" where
  "tcp_packet6 src dst sport dport tcp_flags =
     replicate 12 0 @ [134, 221] @ [96, 0, 0, 0, 0, 28, 0, 64] @ src @ dst @
     [6, 0, 0, 0, 0, 0, 0, 0] @ tcp_bytes sport dport tcp_flags"

definition inside4 :: "u8 list" where "inside4 = [10, 0, 0, 1]"
definition outside4 :: "u8 list" where "outside4 = [1, 1, 1, 1]"
definition inside6 :: "u8 list" where "inside6 = [32, 1, 13, 184, 0, 0, 0, 0, 0, 0, 0, 0, 0, 0, 0, 1]"
definition outside6 :: "u8 list" where "outside6 = [32, 1, 13, 184, 0, 1, 0, 0, 0, 0, 0, 0, 0, 0, 0, 2]"

definition ACK :: u8 where "ACK = 16"
definition FIN :: u8 where "FIN = 17"

definition inbound4 :: "u8 \<Rightarrow> xdp_ctx" where
  "inbound4 f = \<lparr>ctx_data = 4096, ctx_packet = tcp_packet4 outside4 inside4 [1, 187] [31, 144] f,
     ctx_ingress_ifindex = 2\<rparr>"

definition outbound4 :: "u8 \<Rightarrow> xdp_ctx" where
  "outbound4 f = \<lparr>ctx_data = 4096, ctx_packet = tcp_packet4 inside4 outside4 [31, 144] [1, 187] f,
     ctx_ingress_ifindex = 1\<rparr>"

definition inbound6 :: "u8 \<Rightarrow> xdp_ctx" where
  "inbound6 f = \<lparr>ctx_data = 4096, ctx_packet = tcp_packet6 outside6 inside6 [1, 187] [31, 144] f,
     ctx_ingress_ifindex = 2\<rparr>"

definition outbound6 :: "u8 \<Rightarrow> xdp_ctx" where
  "outbound6 f = \<lparr>ctx_data = 4096, ctx_packet = tcp_packet6 inside6 outside6 [31, 144] [1, 187] f,
     ctx_ingress_ifindex = 1\<rparr>"

definition sample_key4 :: ipv4_packet where
  "sample_key4 = ipv4_packet_new 0x0A000001 0x01010101 8080 443 6"

definition sample_key6 :: ipv6_packet where
  "sample_key6 = ipv6_packet_new (0x20010DB8, 0, 0, 1) (0x20010DB8, 0x00010000, 0, 2) 8080 443 6"

text \<open>An Ethernet header only, of the given EtherType.\<close>

definition bare_frame :: "u8 list \<Rightarrow> xdp_ctx" where
  "bare_frame et = \<lparr>ctx_data = 0, ctx_packet = replicate 12 0 @ et, ctx_ingress_ifindex = 2\<rparr>"

text \<open>Interface 1 is inside, interface 2 outside; every subnet is allowed; no connection is known.\<close>

definition sample_config :: firewall_config where
  "sample_config = DEFAULT_CONFIG\<lparr>incoming_ethernet_adapter := Some 2, output_ethernet_adapter := Some 1\<rparr>"

definition sample_maps :: maps where
  "sample_maps = \<lparr>CONFIG = Some sample_config, ALLOW_LIST_V4 = [], ALLOW_LIST_V6 = [],
     PACKET_COUNTS_V4 = [], PACKET_COUNTS_V6 = [],
     SUBNET_MATCHING_V4 = [([], Allow)], SUBNET_MATCHING_V6 = [([], Allow)]\<rparr>"

lemmas sample_bytes = tcp_packet4_def tcp_packet6_def tcp_bytes_def
  inside4_def outside4_def inside6_def outside6_def

lemmas sample_parsing = read_hdr_eq wire_net_def wire_proto_def from_be_bytes32_def
  from_be_bytes16_def take_pad_def tcp_ports_def external_addr_def Let_def ACK_def FIN_def

lemma sample_parse_v4:
  "parse_v4 wire_net (inbound4 ACK) Incoming = Inr (sample_key4, outside4, IpTcp, False)"
  "parse_v4 wire_net (inbound4 FIN) Incoming = Inr (sample_key4, outside4, IpTcp, True)"
  "parse_v4 wire_net (outbound4 ACK) Outgoing = Inr (sample_key4, outside4, IpTcp, False)"
  by (simp_all add: parse_v4_def inbound4_def outbound4_def sample_bytes sample_parsing
      l4_ports_v4_def flow_key_v4_def sample_key4_def)

lemma walk_headers_numeral:
  "walk_headers N ctx 6 off p = walk_headers N ctx (Suc (Suc 4)) off p"
  by simp

lemma sample_walk:
  "walk_headers wire_net (inbound6 f) 6 54 IpHopOpt = Inr (62, IpTcp, True)"
  "walk_headers wire_net (outbound6 f) 6 54 IpHopOpt = Inr (62, IpTcp, True)"
  unfolding walk_headers_numeral walk_headers.simps(2)
  by (simp_all add: inbound6_def outbound6_def sample_bytes sample_parsing)

lemma sample_parse_v6:
  "parse_v6 wire_net (inbound6 ACK) Incoming = Inr (sample_key6, outside6, IpTcp, False)"
  "parse_v6 wire_net (inbound6 FIN) Incoming = Inr (sample_key6, outside6, IpTcp, True)"
  "parse_v6 wire_net (outbound6 ACK) Outgoing = Inr (sample_key6, outside6, IpTcp, False)"
proof -
  note defs = sample_parsing l4_ports_v6_def flow_key_v6_def sample_key6_def ipv6_words_def
    lift_fw_def
  show "parse_v6 wire_net (inbound6 ACK) Incoming = Inr (sample_key6, outside6, IpTcp, False)"
    "parse_v6 wire_net (inbound6 FIN) Incoming = Inr (sample_key6, outside6, IpTcp, True)"
    "parse_v6 wire_net (outbound6 ACK) Outgoing = Inr (sample_key6, outside6, IpTcp, False)"
    using sample_walk [unfolded inbound6_def outbound6_def sample_bytes]
    by (simp_all add: defs parse_v6_def inbound6_def outbound6_def sample_bytes)
qed

lemma sample_ether_type:
  "packet_ether_type wire_net (inbound4 f) = Some EtIpv4"
  "packet_ether_type wire_net (outbound4 f) = Some EtIpv4"
  "packet_ether_type wire_net (inbound6 f) = Some EtIpv6"
  "packet_ether_type wire_net (outbound6 f) = Some EtIpv6"
  by (simp_all add: packet_ether_type_def inbound4_def outbound4_def inbound6_def outbound6_def
      sample_bytes sample_parsing wire_ether_type_def)

lemma sample_config_simps [simp]:
  "ddos_activated sample_config" "subnet_activated sample_config"
  "protocol_allowed sample_config = IPV4 OR IPV6"
  "incoming_ethernet_adapter sample_config = Some 2"
  "output_ethernet_adapter sample_config = Some 1"
  "tcp_profile sample_config = \<lparr>rate_shift = 20, burst = 1000\<rparr>"
  by (simp_all add: sample_config_def DEFAULT_CONFIG_def)

lemma sample_maps_simps [simp]:
  "CONFIG sample_maps = Some sample_config" "current_config sample_maps = sample_config"
  "ALLOW_LIST_V4 sample_maps = []" "ALLOW_LIST_V6 sample_maps = []"
  "PACKET_COUNTS_V4 sample_maps = []" "PACKET_COUNTS_V6 sample_maps = []"
  "SUBNET_MATCHING_V4 sample_maps = [([], Allow)]" "SUBNET_MATCHING_V6 sample_maps = [([], Allow)]"
  by (simp_all add: sample_maps_def current_config_def)

lemma sample_direction:
  assumes "current_config m = sample_config"
  shows "packet_direction (inbound4 f) m = Incoming" "packet_direction (outbound4 f) m = Outgoing"
    "packet_direction (inbound6 f) m = Incoming" "packet_direction (outbound6 f) m = Outgoing"
  using assms by (simp_all add: packet_direction_def traffic_direction_def inbound4_def outbound4_def
      inbound6_def outbound6_def)

lemma sample_arm_v4:
  assumes "current_config m = sample_config"
  shows "arm_v4 wire_net (inbound4 f) m" "arm_v4 wire_net (outbound4 f) m"
  using assms by (simp_all add: arm_v4_def sample_ether_type flags_contains_def activater_defs)

lemma ref_kern_sel [simp]:
  "ins_allow_v4 ref_kern = lru_put LRU_MAX_ENTRIES" "ins_allow_v6 ref_kern = lru_put LRU_MAX_ENTRIES"
  "ins_counts_v4 ref_kern = lru_put LRU_MAX_ENTRIES" "ins_counts_v6 ref_kern = lru_put LRU_MAX_ENTRIES"
  "lpm_get_v4 ref_kern = lpm_ref_get" "lpm_get_v6 ref_kern = lpm_ref_get"
  "bpf_redirect ref_kern i = XDP_REDIRECT"
  by (simp_all add: ref_kern_def)

lemma sample_subnet_allowed [simp]:
  "lpm_ref_get [([], Allow)] key = Some Allow"
proof -
  have "longest_match [([], Allow)] bs n = Some Allow" for bs n
    by (induction n) (auto split: option.split)
  then show ?thesis by (simp add: lpm_ref_get_def)
qed

end
