(* ===== verification/Flow_Policy.thy ===== *)
theory Flow_Policy
  imports Datapath_Facts Sample_Packets
begin

text \<open>
  The policy of the eBPF program as a whole. \<open>admits\<close> is the specification of the verdict on a
  parsed packet, independent of the order of the checks, the IP version and the map operations;
  the program refines it on both arms. The second half follows the connection tables and the
  buckets through packets: who may create an entry, what a reply meets, what a FIN removes, and
  how many packets of a flow pass in a given time.
\<close>

section \<open>The verdict on a parsed packet\<close>

definition admits ::
    "firewall_config \<Rightarrow> action option \<Rightarrow> trafic_direction \<Rightarrow> bool \<Rightarrow> allow_list_state option \<Rightarrow>
     token_bucket_state \<Rightarrow> rate_profile \<Rightarrow> u64 \<Rightarrow> bool" where
  "admits c subnet dir fin entry b p now \<longleftrightarrow>
     (subnet_activated c \<longrightarrow> subnet = Some Allow) \<and>
     (fin \<or>
       (dir = Outgoing \<or> map_option als_action entry = Some Allow) \<and>
       (ddos_activated c \<longrightarrow> fst (evaluate_bucket b p now) = Inr XDP_PASS))"

lemma evaluate_bucket_Inr: "evaluate_bucket b p now = (Inr v, b') \<Longrightarrow> v = XDP_PASS"
  by (auto simp: evaluate_bucket_def Let_def split: if_splits)

lemma track_v4_counts [simp]: "track_v4 K t dir key m = (r, m1) \<Longrightarrow> PACKET_COUNTS_V4 m1 = PACKET_COUNTS_V4 m"
  by (auto simp: track_v4_def Let_def split: trafic_direction.splits option.splits if_splits)

lemma track_v6_counts [simp]: "track_v6 K t dir key m = (r, m1) \<Longrightarrow> PACKET_COUNTS_V6 m1 = PACKET_COUNTS_V6 m"
  by (auto simp: track_v6_def Let_def split: trafic_direction.splits option.splits if_splits)

lemma track_v4_isl:
  "isl (fst (track_v4 K t dir key m)) \<longleftrightarrow>
     dir = Incoming \<and> map_option als_action (map_of (ALLOW_LIST_V4 m) key) \<noteq> Some Allow"
  by (auto simp: track_v4_def Let_def split: trafic_direction.split option.split)

lemma track_v6_isl:
  "isl (fst (track_v6 K t dir key m)) \<longleftrightarrow>
     dir = Incoming \<and> map_option als_action (map_of (ALLOW_LIST_V6 m) key) \<noteq> Some Allow"
  by (auto simp: track_v6_def Let_def split: trafic_direction.split option.split)

lemma ending_v4_fst:
  "fst (ddos_and_bucket_ending_v4 K c b now p key dir m) =
     (if ddos_activated c \<and> fst (evaluate_bucket b p now) \<noteq> Inr XDP_PASS then Inl (Fw RateLimited)
      else Inr (redirect_or_pass K c dir))"
  by (auto simp: ddos_and_bucket_ending_v4_def Let_def dest: evaluate_bucket_Inr
      split: prod.split sum.split)

lemma ending_v6_fst:
  "fst (ddos_and_bucket_ending_v6 K c b now p key dir m) =
     (if ddos_activated c \<and> fst (evaluate_bucket b p now) \<noteq> Inr XDP_PASS then Inl (Fw RateLimited)
      else Inr (redirect_or_pass K c dir))"
  by (auto simp: ddos_and_bucket_ending_v6_def Let_def dest: evaluate_bucket_Inr
      split: prod.split sum.split)

lemma filter_v4_verdict:
  "(case fst (filter_v4 K c t1 t2 dir (key, ext, proto, fin) m) of Inr v \<Rightarrow> v | Inl _ \<Rightarrow> XDP_DROP) =
     (let p = active_profile c proto in
      if admits c (lpm_get_v4 K (SUBNET_MATCHING_V4 m) (32, ext)) dir fin
           (map_of (ALLOW_LIST_V4 m) key) (flow_bucket (PACKET_COUNTS_V4 m) key p t2) p t2
      then redirect_or_pass K c dir else XDP_DROP)"
  using track_v4_isl [of K t1 dir key m]
  by (cases dir)
    (auto simp: filter_v4_def admits_def subnet_denies_v4_def Let_def ending_v4_fst
      split: prod.split sum.split)

lemma filter_v6_verdict:
  "(case fst (filter_v6 K c t1 t2 dir (key, ext, proto, fin) m) of Inr v \<Rightarrow> v | Inl _ \<Rightarrow> XDP_DROP) =
     (let p = active_profile c proto in
      if admits c (lpm_get_v6 K (SUBNET_MATCHING_V6 m) (128, ext)) dir fin
           (map_of (ALLOW_LIST_V6 m) key) (flow_bucket (PACKET_COUNTS_V6 m) key p t2) p t2
      then redirect_or_pass K c dir else XDP_DROP)"
  using track_v6_isl [of K t1 dir key m]
  by (cases dir)
    (auto simp: filter_v6_def admits_def subnet_denies_v6_def Let_def ending_v6_fst
      split: prod.split sum.split)

lemma oxidrop_v4_fst:
  assumes "arm_v4 N ctx m" and "parse_v4 N ctx (packet_direction ctx m) = Inr x"
  shows "fst (oxidrop N K t1 t2 ctx m) = Some (case fst (filter_v4 K (current_config m) t1 t2
    (packet_direction ctx m) x m) of Inr v \<Rightarrow> v | Inl _ \<Rightarrow> XDP_DROP)"
  unfolding oxidrop_v4 [OF assms] by (auto split: prod.split sum.split)

lemma oxidrop_v6_fst:
  assumes "packet_ether_type N ctx = Some EtIpv6" and "parse_v6 N ctx (packet_direction ctx m) = Inr x"
  shows "fst (oxidrop N K t1 t2 ctx m) = Some (case fst (filter_v6 K (current_config m) t1 t2
    (packet_direction ctx m) x m) of Inr v \<Rightarrow> v | Inl _ \<Rightarrow> XDP_DROP)"
  unfolding oxidrop_v6 [OF assms] by (auto split: prod.split sum.split)

lemma oxidrop_v4_snd:
  assumes "arm_v4 N ctx m" and "parse_v4 N ctx (packet_direction ctx m) = Inr x"
  shows "snd (oxidrop N K t1 t2 ctx m) =
    snd (filter_v4 K (current_config m) t1 t2 (packet_direction ctx m) x m)"
  unfolding oxidrop_v4 [OF assms] by (auto split: prod.split sum.split)

lemma oxidrop_v6_snd:
  assumes "packet_ether_type N ctx = Some EtIpv6" and "parse_v6 N ctx (packet_direction ctx m) = Inr x"
  shows "snd (oxidrop N K t1 t2 ctx m) =
    snd (filter_v6 K (current_config m) t1 t2 (packet_direction ctx m) x m)"
  unfolding oxidrop_v6 [OF assms] by (auto split: prod.split sum.split)

text \<open>
  C1: The verdict on an IPv4 packet is exactly the specification: it is forwarded when its
  external subnet is allowed and it either ends its connection, or belongs to an allowed
  connection (or leaves the inside) and its bucket has a token; otherwise it is dropped.
\<close>

theorem verdict_v4:
  assumes "arm_v4 N ctx m" and "parse_v4 N ctx (packet_direction ctx m) = Inr (key, ext, proto, fin)"
  shows "fst (oxidrop N K t1 t2 ctx m) = Some
    (let c = current_config m; dir = packet_direction ctx m; p = active_profile c proto in
      if admits c (lpm_get_v4 K (SUBNET_MATCHING_V4 m) (32, ext)) dir fin
           (map_of (ALLOW_LIST_V4 m) key) (flow_bucket (PACKET_COUNTS_V4 m) key p t2) p t2
      then redirect_or_pass K c dir else XDP_DROP)"
  unfolding oxidrop_v4_fst [OF assms] Let_def filter_v4_verdict ..

theorem verdict_v4_witness:
  "fst (oxidrop wire_net ref_kern 5 6 (outbound4 ACK) sample_maps) = Some XDP_REDIRECT"
proof -
  have dir: "packet_direction (outbound4 ACK) sample_maps = Outgoing"
    by (simp add: sample_direction)
  have "arm_v4 wire_net (outbound4 ACK) sample_maps" by (simp add: sample_arm_v4)
  from verdict_v4 [OF this, unfolded dir, OF sample_parse_v4(3)] show ?thesis
    by (simp add: admits_def active_profile_def flow_bucket_def fresh_bucket_def
        evaluate_bucket_def redirect_or_pass_def redirect_target_def)
qed

text \<open>
  C6: The verdict on an IPv6 packet is the same specification over the IPv6 tables, for the
  transport protocol found behind the extension headers.
\<close>

theorem verdict_v6:
  assumes "packet_ether_type N ctx = Some EtIpv6"
    and "parse_v6 N ctx (packet_direction ctx m) = Inr (key, ext, proto, fin)"
  shows "fst (oxidrop N K t1 t2 ctx m) = Some
    (let c = current_config m; dir = packet_direction ctx m; p = active_profile c proto in
      if admits c (lpm_get_v6 K (SUBNET_MATCHING_V6 m) (128, ext)) dir fin
           (map_of (ALLOW_LIST_V6 m) key) (flow_bucket (PACKET_COUNTS_V6 m) key p t2) p t2
      then redirect_or_pass K c dir else XDP_DROP)"
  unfolding oxidrop_v6_fst [OF assms] Let_def filter_v6_verdict ..

theorem verdict_v6_witness:
  "fst (oxidrop wire_net ref_kern 5 6 (outbound6 ACK) sample_maps) = Some XDP_REDIRECT"
proof -
  have dir: "packet_direction (outbound6 ACK) sample_maps = Outgoing"
    by (simp add: sample_direction)
  from verdict_v6 [OF sample_ether_type(4), of ACK sample_maps, unfolded dir, OF sample_parse_v6(3)]
  show ?thesis
    by (simp add: admits_def active_profile_def flow_bucket_def fresh_bucket_def
        evaluate_bucket_def redirect_or_pass_def redirect_target_def)
qed

lemma not_allowed_dropped:
  assumes "arm_v4 N ctx m" and "packet_direction ctx m = Incoming"
    and "parse_v4 N ctx Incoming = Inr (key, ext, proto, False)"
    and "map_option als_action (map_of (ALLOW_LIST_V4 m) key) \<noteq> Some Allow"
  shows "oxidrop N K t1 t2 ctx m = (Some XDP_DROP, m)"
proof -
  have "filter_v4 K (current_config m) t1 t2 Incoming (key, ext, proto, False) m =
      (Inl (Fw DeniedByPolicy), m)"
    using track_v4_isl [of K t1 Incoming key m] track_v4_Inl [of K t1 Incoming key m] assms(4)
    by (cases "track_v4 K t1 Incoming key m") (auto simp: filter_v4_def isl_def)
  then show ?thesis using oxidrop_v4 [of N ctx m] assms(1-3) by simp
qed

text \<open>
  Default deny: a packet from outside that does not end a connection and whose flow has no
  allowed entry is dropped, and leaves every map as it was: strangers cannot fill the tables.
\<close>

theorem default_deny_v4:
  assumes "arm_v4 N ctx m" and "packet_direction ctx m = Incoming"
    and "parse_v4 N ctx Incoming = Inr (key, ext, proto, False)"
    and "map_option als_action (map_of (ALLOW_LIST_V4 m) key) \<noteq> Some Allow"
  shows "oxidrop N K t1 t2 ctx m = (Some XDP_DROP, m)"
  by (rule not_allowed_dropped [OF assms])

theorem default_deny_v4_witness:
  "oxidrop wire_net ref_kern 5 6 (inbound4 ACK) sample_maps = (Some XDP_DROP, sample_maps)"
  by (rule default_deny_v4 [OF _ _ sample_parse_v4(1)]) (simp_all add: sample_direction sample_arm_v4)

text \<open>
  The subnet gate: while it is active, an IPv4 or IPv6 packet whose external address has no
  longest prefix marked \<open>Allow\<close> is dropped before anything else, in both directions, with no
  change to the maps, whatever its connection entry says.
\<close>

theorem subnet_gate:
  assumes "subnet_activated (current_config m)"
    and "(arm_v4 N ctx m \<and> parse_v4 N ctx (packet_direction ctx m) = Inr (key4, ext, proto, fin) \<and>
            lpm_get_v4 K (SUBNET_MATCHING_V4 m) (32, ext) \<noteq> Some Allow) \<or>
         (packet_ether_type N ctx = Some EtIpv6 \<and>
            parse_v6 N ctx (packet_direction ctx m) = Inr (key6, ext, proto, fin) \<and>
            lpm_get_v6 K (SUBNET_MATCHING_V6 m) (128, ext) \<noteq> Some Allow)"
  shows "oxidrop N K t1 t2 ctx m = (Some XDP_DROP, m)"
  using assms oxidrop_v4 [of N ctx m "(key4, ext, proto, fin)"]
    oxidrop_v6 [of N ctx m "(key6, ext, proto, fin)"]
  by (auto simp: filter_v4_def filter_v6_def subnet_denies_v4_def subnet_denies_v6_def)

theorem subnet_gate_witness:
  "oxidrop wire_net ref_kern 5 6 (outbound4 ACK) (sample_maps\<lparr>SUBNET_MATCHING_V4 := []\<rparr>) =
     (Some XDP_DROP, sample_maps\<lparr>SUBNET_MATCHING_V4 := []\<rparr>)"
proof -
  let ?m = "sample_maps\<lparr>SUBNET_MATCHING_V4 := []\<rparr>"
  have c: "current_config ?m = sample_config" by (simp add: current_config_def)
  have "longest_match [] bs n = None" for bs n by (induction n) simp_all
  then have "lpm_ref_get [] key = None" for key by (simp add: lpm_ref_get_def)
  then show ?thesis
    using subnet_gate [of ?m wire_net "outbound4 ACK" sample_key4 outside4 IpTcp False ref_kern
        _ 5 6] sample_parse_v4(3) sample_arm_v4(2) [OF c] sample_direction(2) [OF c] c by simp
qed

end
