(* ===== verification/Map_Handlers.thy ===== *)
theory Map_Handlers
  imports Server Flow_Policy
begin

text \<open>
  Reading, setting and clearing the entries of the connection tables and of the bucket tables
  (\<open>get_allow_list_v4\<close> to \<open>clear_packet_counts_v6\<close> of oxidrop/src/state.rs). Iterating over a map and
  removing a key that is there succeed; an insertion may fail. \<open>guarded_handler\<close> is interpreted on
  the eight handlers that write.
\<close>

text \<open>The value of an entry with the wall-clock time of its kernel time stamp.\<close>

definition map_entries ::
    "env \<Rightarrow> ('v \<Rightarrow> u64) \<Rightarrow> ('k, 'v) kmap \<Rightarrow> ('k \<times> 'v \<times> int option) list" where
  "map_entries env stamp m = map (\<lambda>(key, value). (key, value, bpf_time_to_unix_ms (e_btime env) (stamp value))) m"

text \<open>One key, or every key that an iteration finds, one removal at a time.\<close>

definition clear_entries :: "'k option \<Rightarrow> ('k, 'v) kmap \<Rightarrow> ('k, 'v) kmap" where
  "clear_entries payload m =
     (case payload of Some key \<Rightarrow> del_key key m | None \<Rightarrow> del_keys (map fst m) m)"

section \<open>The IPv4 connection table\<close>

definition get_allow_list_v4 :: "env \<Rightarrow> server \<Rightarrow> response" where
  "get_allow_list_v4 env s = (S_OK, Allow4Json (map_entries env last_seen (ALLOW_LIST_V4 (s_maps s))))"

definition modify_allow_list_v4 ::
    "env \<Rightarrow> ipv4_packet \<Rightarrow> allow_list_state \<Rightarrow> app_user option \<Rightarrow> server \<Rightarrow> response \<times> server" where
  "modify_allow_list_v4 env key state = guarded MODIFY (\<lambda>user s.
     case ins_allow_v4 (e_kern env) (ALLOW_LIST_V4 (s_maps s)) key state of
       None \<Rightarrow> ((S_INTERNAL_SERVER_ERROR, Text ''Failed to insert into ALLOW_LIST_V4 map''), s)
     | Some m' \<Rightarrow> ((S_OK, NoBody), s\<lparr>s_maps := (s_maps s)\<lparr>ALLOW_LIST_V4 := m'\<rparr>\<rparr>))"

definition clear_allow_list_v4 ::
    "env \<Rightarrow> ipv4_packet option \<Rightarrow> app_user option \<Rightarrow> server \<Rightarrow> response \<times> server" where
  "clear_allow_list_v4 env payload = guarded DELETE (\<lambda>user s.
     ((S_OK, NoBody), s\<lparr>s_maps := (s_maps s)\<lparr>ALLOW_LIST_V4 := clear_entries payload (ALLOW_LIST_V4 (s_maps s))\<rparr>\<rparr>))"

section \<open>The IPv6 connection table\<close>

definition get_allow_list_v6 :: "env \<Rightarrow> server \<Rightarrow> response" where
  "get_allow_list_v6 env s = (S_OK, Allow6Json (map_entries env last_seen (ALLOW_LIST_V6 (s_maps s))))"

definition modify_allow_list_v6 ::
    "env \<Rightarrow> ipv6_packet \<Rightarrow> allow_list_state \<Rightarrow> app_user option \<Rightarrow> server \<Rightarrow> response \<times> server" where
  "modify_allow_list_v6 env key state = guarded MODIFY (\<lambda>user s.
     case ins_allow_v6 (e_kern env) (ALLOW_LIST_V6 (s_maps s)) key state of
       None \<Rightarrow> ((S_INTERNAL_SERVER_ERROR, Text ''Failed to insert into ALLOW_LIST_V6 map''), s)
     | Some m' \<Rightarrow> ((S_OK, NoBody), s\<lparr>s_maps := (s_maps s)\<lparr>ALLOW_LIST_V6 := m'\<rparr>\<rparr>))"

definition clear_allow_list_v6 ::
    "env \<Rightarrow> ipv6_packet option \<Rightarrow> app_user option \<Rightarrow> server \<Rightarrow> response \<times> server" where
  "clear_allow_list_v6 env payload = guarded DELETE (\<lambda>user s.
     ((S_OK, NoBody), s\<lparr>s_maps := (s_maps s)\<lparr>ALLOW_LIST_V6 := clear_entries payload (ALLOW_LIST_V6 (s_maps s))\<rparr>\<rparr>))"

section \<open>The IPv4 bucket table\<close>

definition get_packet_counts_v4 :: "env \<Rightarrow> server \<Rightarrow> response" where
  "get_packet_counts_v4 env s = (S_OK, Counts4Json (map_entries env last_update (PACKET_COUNTS_V4 (s_maps s))))"

definition modify_packet_counts_v4 ::
    "env \<Rightarrow> ipv4_packet \<Rightarrow> token_bucket_state \<Rightarrow> app_user option \<Rightarrow> server \<Rightarrow> response \<times> server" where
  "modify_packet_counts_v4 env key state = guarded MODIFY (\<lambda>user s.
     case ins_counts_v4 (e_kern env) (PACKET_COUNTS_V4 (s_maps s)) key state of
       None \<Rightarrow> ((S_INTERNAL_SERVER_ERROR, Text ''Failed to insert into PACKET_COUNTS_V4 map''), s)
     | Some m' \<Rightarrow> ((S_OK, NoBody), s\<lparr>s_maps := (s_maps s)\<lparr>PACKET_COUNTS_V4 := m'\<rparr>\<rparr>))"

definition clear_packet_counts_v4 ::
    "env \<Rightarrow> ipv4_packet option \<Rightarrow> app_user option \<Rightarrow> server \<Rightarrow> response \<times> server" where
  "clear_packet_counts_v4 env payload = guarded DELETE (\<lambda>user s.
     ((S_OK, NoBody), s\<lparr>s_maps := (s_maps s)\<lparr>PACKET_COUNTS_V4 := clear_entries payload (PACKET_COUNTS_V4 (s_maps s))\<rparr>\<rparr>))"

section \<open>The IPv6 bucket table\<close>

definition get_packet_counts_v6 :: "env \<Rightarrow> server \<Rightarrow> response" where
  "get_packet_counts_v6 env s = (S_OK, Counts6Json (map_entries env last_update (PACKET_COUNTS_V6 (s_maps s))))"

definition modify_packet_counts_v6 ::
    "env \<Rightarrow> ipv6_packet \<Rightarrow> token_bucket_state \<Rightarrow> app_user option \<Rightarrow> server \<Rightarrow> response \<times> server" where
  "modify_packet_counts_v6 env key state = guarded MODIFY (\<lambda>user s.
     case ins_counts_v6 (e_kern env) (PACKET_COUNTS_V6 (s_maps s)) key state of
       None \<Rightarrow> ((S_INTERNAL_SERVER_ERROR, Text ''Failed to insert into PACKET_COUNTS_V6 map''), s)
     | Some m' \<Rightarrow> ((S_OK, NoBody), s\<lparr>s_maps := (s_maps s)\<lparr>PACKET_COUNTS_V6 := m'\<rparr>\<rparr>))"

definition clear_packet_counts_v6 ::
    "env \<Rightarrow> ipv6_packet option \<Rightarrow> app_user option \<Rightarrow> server \<Rightarrow> response \<times> server" where
  "clear_packet_counts_v6 env payload = guarded DELETE (\<lambda>user s.
     ((S_OK, NoBody), s\<lparr>s_maps := (s_maps s)\<lparr>PACKET_COUNTS_V6 := clear_entries payload (PACKET_COUNTS_V6 (s_maps s))\<rparr>\<rparr>))"

section \<open>Interpretations\<close>

lemma clear_entries_wf: "kmap_wf m \<Longrightarrow> kmap_wf (clear_entries payload m)"
  by (auto simp: clear_entries_def split: option.split)

lemma map_of_clear [map_simps]:
  "map_of (clear_entries payload m) k = (if payload = None \<or> payload = Some k then None else map_of m k)"
  by (cases payload) (auto simp: clear_entries_def map_simps)

lemma server_ok_maps:
  "server_ok s \<Longrightarrow> tables_ok m \<Longrightarrow> CONFIG m = CONFIG (s_maps s) \<Longrightarrow> server_ok (s\<lparr>s_maps := m\<rparr>)"
  by (simp add: server_ok_def)

interpretation modify_allow_list_v4: guarded_handler "modify_allow_list_v4 env key state" MODIFY "keeps_ok env"
  for env key state
  unfolding modify_allow_list_v4_def
  by (rule guarded_handlerI)
    (auto simp: server_ok_def tables_ok_def intro: lru_map.ins_wf [OF kern_okD(1) [OF env_okD(2)]]
      split: option.split)

interpretation clear_allow_list_v4: guarded_handler "clear_allow_list_v4 env payload" DELETE "keeps_ok env"
  for env payload
  unfolding clear_allow_list_v4_def
  by (rule guarded_handlerI) (auto simp: server_ok_def tables_ok_def clear_entries_wf)

interpretation modify_allow_list_v6: guarded_handler "modify_allow_list_v6 env key state" MODIFY "keeps_ok env"
  for env key state
  unfolding modify_allow_list_v6_def
  by (rule guarded_handlerI)
    (auto simp: server_ok_def tables_ok_def intro: lru_map.ins_wf [OF kern_okD(2) [OF env_okD(2)]]
      split: option.split)

interpretation clear_allow_list_v6: guarded_handler "clear_allow_list_v6 env payload" DELETE "keeps_ok env"
  for env payload
  unfolding clear_allow_list_v6_def
  by (rule guarded_handlerI) (auto simp: server_ok_def tables_ok_def clear_entries_wf)

interpretation modify_packet_counts_v4: guarded_handler "modify_packet_counts_v4 env key state" MODIFY "keeps_ok env"
  for env key state
  unfolding modify_packet_counts_v4_def
  by (rule guarded_handlerI)
    (auto simp: server_ok_def tables_ok_def intro: lru_map.ins_wf [OF kern_okD(3) [OF env_okD(2)]]
      split: option.split)

interpretation clear_packet_counts_v4: guarded_handler "clear_packet_counts_v4 env payload" DELETE "keeps_ok env"
  for env payload
  unfolding clear_packet_counts_v4_def
  by (rule guarded_handlerI) (auto simp: server_ok_def tables_ok_def clear_entries_wf)

interpretation modify_packet_counts_v6: guarded_handler "modify_packet_counts_v6 env key state" MODIFY "keeps_ok env"
  for env key state
  unfolding modify_packet_counts_v6_def
  by (rule guarded_handlerI)
    (auto simp: server_ok_def tables_ok_def intro: lru_map.ins_wf [OF kern_okD(4) [OF env_okD(2)]]
      split: option.split)

interpretation clear_packet_counts_v6: guarded_handler "clear_packet_counts_v6 env payload" DELETE "keeps_ok env"
  for env payload
  unfolding clear_packet_counts_v6_def
  by (rule guarded_handlerI) (auto simp: server_ok_def tables_ok_def clear_entries_wf)

section \<open>What the entries do to packets\<close>

lemma modify_allow_list_v4_OK:
  assumes "modify_allow_list_v4 env key state session s = ((S_OK, body), s')"
  obtains l where "ins_allow_v4 (e_kern env) (ALLOW_LIST_V4 (s_maps s)) key state = Some l"
    and "s' = s\<lparr>s_maps := (s_maps s)\<lparr>ALLOW_LIST_V4 := l\<rparr>\<rparr>"
  using assms by (auto simp: modify_allow_list_v4_def guarded_def split: option.splits if_splits)

lemma clear_allow_list_v4_OK:
  assumes "clear_allow_list_v4 env payload session s = ((S_OK, body), s')"
  shows "s' = s\<lparr>s_maps := (s_maps s)\<lparr>ALLOW_LIST_V4 := clear_entries payload (ALLOW_LIST_V4 (s_maps s))\<rparr>\<rparr>"
  using assms by (auto simp: clear_allow_list_v4_def guarded_def split: option.splits if_splits)

text \<open>
  The entry an administrator sets decides the flow at once: after a successful request, an
  incoming IPv4 packet of that flow that does not end its connection is dropped with no change to
  the maps when the entry says Deny, and when it says Allow it is forwarded exactly if its subnet is
  allowed and its bucket has a token.
\<close>

theorem admin_entry_decides:
  assumes "kern_ok (e_kern env)"
    and "modify_allow_list_v4 env key state session s = ((S_OK, body), s')"
    and "arm_v4 N ctx (s_maps s')" and "packet_direction ctx (s_maps s') = Incoming"
    and "parse_v4 N ctx Incoming = Inr (key, ext, proto, False)"
  shows "(als_action state = Deny \<longrightarrow>
      oxidrop N (e_kern env) t1 t2 ctx (s_maps s') = (Some XDP_DROP, s_maps s')) \<and>
    (als_action state = Allow \<longrightarrow>
      fst (oxidrop N (e_kern env) t1 t2 ctx (s_maps s')) = Some
        (let c = current_config (s_maps s); p = active_profile c proto in
         if \<not> subnet_denies_v4 (e_kern env) c (s_maps s) ext \<and>
            (ddos_activated c \<longrightarrow>
               fst (evaluate_bucket (flow_bucket (PACKET_COUNTS_V4 (s_maps s)) key p t2) p t2) = Inr XDP_PASS)
         then redirect_or_pass (e_kern env) c Incoming else XDP_DROP))"
proof -
  obtain l where l: "ins_allow_v4 (e_kern env) (ALLOW_LIST_V4 (s_maps s)) key state = Some l"
    and s': "s' = s\<lparr>s_maps := (s_maps s)\<lparr>ALLOW_LIST_V4 := l\<rparr>\<rparr>"
    by (rule modify_allow_list_v4_OK [OF assms(2)])
  have entry: "map_of (ALLOW_LIST_V4 (s_maps s')) key = Some state"
    using lru_map.ins_lookup [OF kern_okD(1) [OF assms(1)] l] by (simp add: s')
  have c: "current_config (s_maps s') = current_config (s_maps s)"
    by (simp add: s' current_config_def)
  have "fst (oxidrop N (e_kern env) t1 t2 ctx (s_maps s')) = Some
      (let p = active_profile (current_config (s_maps s)) proto in
       if admits (current_config (s_maps s))
            (lpm_get_v4 (e_kern env) (SUBNET_MATCHING_V4 (s_maps s')) (32, ext)) Incoming False
            (map_of (ALLOW_LIST_V4 (s_maps s')) key)
            (flow_bucket (PACKET_COUNTS_V4 (s_maps s')) key p t2) p t2
       then redirect_or_pass (e_kern env) (current_config (s_maps s)) Incoming else XDP_DROP)"
    using oxidrop_v4_fst [OF assms(3), of "(key, ext, proto, False)" "e_kern env" t1 t2] assms(4,5)
    by (simp add: filter_v4_verdict c)
  moreover have "oxidrop N (e_kern env) t1 t2 ctx (s_maps s') = (Some XDP_DROP, s_maps s')"
    if "als_action state = Deny"
    by (rule not_allowed_dropped [OF assms(3-5)]) (simp add: entry that)
  ultimately show ?thesis
    unfolding entry by (simp add: admits_def Let_def subnet_denies_v4_def s')
qed

definition sample_filtering :: server where
  "sample_filtering = sample_server\<lparr>s_maps := sample_maps\<rparr>"

theorem admin_entry_decides_witness:
  "\<exists>body s'. modify_allow_list_v4 ref_env sample_key4 \<lparr>als_action = Deny, last_seen = 5\<rparr>
       (Some sample_user) sample_filtering = ((S_OK, body), s') \<and>
     oxidrop wire_net ref_kern 5 6 (inbound4 ACK) (s_maps s') = (Some XDP_DROP, s_maps s')"
proof -
  let ?l = "lru_put LRU_MAX_ENTRIES [] sample_key4 \<lparr>als_action = Deny, last_seen = 5\<rparr>"
  let ?m = "sample_maps\<lparr>ALLOW_LIST_V4 := the ?l\<rparr>"
  let ?s = "sample_filtering\<lparr>s_maps := ?m\<rparr>"
  have ok: "kern_ok (e_kern ref_env)" and K: "e_kern ref_env = ref_kern"
    by (simp_all add: ref_env_def kern_ok_ref)
  have mod: "modify_allow_list_v4 ref_env sample_key4 \<lparr>als_action = Deny, last_seen = 5\<rparr>
       (Some sample_user) sample_filtering = ((S_OK, NoBody), ?s)"
    by (simp add: modify_allow_list_v4_def guarded_def sample_user_may K ref_kern_def
        sample_filtering_def sample_maps_def lru_put_def)
  have c: "current_config ?m = sample_config" by (simp add: current_config_def)
  from admin_entry_decides [OF ok mod, of wire_net "inbound4 ACK"] mod K show ?thesis
    using sample_arm_v4(1) [OF c] sample_direction(1) [OF c] sample_parse_v4(1) by simp
qed

text \<open>
  Clearing severs connections: after a successful clearing of the whole IPv4 table, or of one
  flow, incoming packets of the cleared flows that do not end a connection are dropped and change
  nothing, and the entries of the other flows are as before.
\<close>

theorem clearing_severs_connections:
  assumes "clear_allow_list_v4 env payload session s = ((S_OK, body), s')"
    and "payload = None \<or> payload = Some key"
  shows "(\<forall>N ctx ext proto K t1 t2. arm_v4 N ctx (s_maps s') \<longrightarrow>
      packet_direction ctx (s_maps s') = Incoming \<longrightarrow>
      parse_v4 N ctx Incoming = Inr (key, ext, proto, False) \<longrightarrow>
      oxidrop N K t1 t2 ctx (s_maps s') = (Some XDP_DROP, s_maps s')) \<and>
    (\<forall>k. map_of (ALLOW_LIST_V4 (s_maps s')) k =
      (if payload = None \<or> payload = Some k then None else map_of (ALLOW_LIST_V4 (s_maps s)) k))"
proof -
  have s': "ALLOW_LIST_V4 (s_maps s') = clear_entries payload (ALLOW_LIST_V4 (s_maps s))"
    using clear_allow_list_v4_OK [OF assms(1)] by simp
  have "map_of (ALLOW_LIST_V4 (s_maps s')) key = None" using assms(2) by (auto simp: s' map_simps)
  then show ?thesis by (auto intro!: not_allowed_dropped simp: s' map_simps)
qed

theorem clearing_severs_connections_witness:
  "\<exists>body s'. clear_allow_list_v4 ref_env None (Some sample_user)
       (sample_filtering\<lparr>s_maps := sample_maps\<lparr>ALLOW_LIST_V4 :=
          [(sample_key4, \<lparr>als_action = Allow, last_seen = 5\<rparr>)]\<rparr>\<rparr>) = ((S_OK, body), s') \<and>
     fst (oxidrop wire_net ref_kern 5 6 (inbound4 ACK) (s_maps s')) = Some XDP_DROP"
proof -
  let ?s = "sample_filtering\<lparr>s_maps := sample_maps\<lparr>ALLOW_LIST_V4 :=
          [(sample_key4, \<lparr>als_action = Allow, last_seen = 5\<rparr>)]\<rparr>\<rparr>"
  have clear: "clear_allow_list_v4 ref_env None (Some sample_user) ?s =
      ((S_OK, NoBody), sample_filtering\<lparr>s_maps := sample_maps\<lparr>ALLOW_LIST_V4 := []\<rparr>\<rparr>)"
    by (simp add: clear_allow_list_v4_def guarded_def sample_user_may clear_entries_def del_keys_def
        del_key_def)
  have c: "current_config (sample_maps\<lparr>ALLOW_LIST_V4 := []\<rparr>) = sample_config"
    by (simp add: current_config_def)
  show ?thesis
    using clearing_severs_connections [OF clear, of sample_key4] clear
      sample_arm_v4(1) [OF c] sample_direction(1) [OF c] sample_parse_v4(1) by fastforce
qed

end
