(* ===== verification/Subnet_Handlers.thy ===== *)
theory Subnet_Handlers
  imports Server Flow_Policy
begin

text \<open>
  The subnet rules (\<open>list_subnet_matching_v4\<close> to \<open>remove_subnet_matching_v6\<close> of
  oxidrop/src/state.rs). A rule lives twice: in the trie that the eBPF program looks up, under the
  bits of its prefix, and in the database, under the network as it was given. A request changes the
  trie first and the database second.
\<close>

section \<open>Handlers\<close>

definition list_subnet_matching_v4 :: "env \<Rightarrow> app_user option \<Rightarrow> server \<Rightarrow> response" where
  "list_subnet_matching_v4 env session s =
     (if session = None then (S_UNAUTHORIZED, NoBody)
      else case list_subnet_v4 (e_faults env) (s_db s) of
        Inr entries \<Rightarrow> (S_OK, Subnets4Json entries)
      | Inl _ \<Rightarrow> (S_INTERNAL_SERVER_ERROR, NoBody))"

definition modify_subnet_matching_v4 ::
    "env \<Rightarrow> u32 \<Rightarrow> u32 \<Rightarrow> action \<Rightarrow> app_user option \<Rightarrow> server \<Rightarrow> response \<times> server" where
  "modify_subnet_matching_v4 env network prefix_len action = guarded MODIFY (\<lambda>user s.
     if 32 < prefix_len
     then ((S_BAD_REQUEST, Text ''prefix_len must be between 0 and 32 for an IPv4 subnet''), s)
     else
       let key = (prefix_len, to_be_bytes32 network) in
       case lpm_ins_v4 (e_kern env) (SUBNET_MATCHING_V4 (s_maps s)) key action of
         None \<Rightarrow> ((S_INTERNAL_SERVER_ERROR, Text ''Failed to insert into SUBNET_MATCHING_V4''), s)
       | Some trie \<Rightarrow>
           (case save_subnet_v4 (e_faults env) (caller_of user) network prefix_len action (s_db s) of
              (Inl _, d') \<Rightarrow>
                ((S_INTERNAL_SERVER_ERROR, NoBody),
                 s\<lparr>s_db := d', s_maps := (s_maps s)\<lparr>SUBNET_MATCHING_V4 :=
                   (case lpm_rem_v4 (e_kern env) trie key of Some t \<Rightarrow> t | None \<Rightarrow> trie)\<rparr>\<rparr>)
            | (Inr _, d') \<Rightarrow>
                ((S_OK, NoBody),
                 s\<lparr>s_db := d', s_maps := (s_maps s)\<lparr>SUBNET_MATCHING_V4 := trie\<rparr>\<rparr>)))"

definition remove_subnet_matching_v4 ::
    "env \<Rightarrow> u32 \<Rightarrow> u32 \<Rightarrow> app_user option \<Rightarrow> server \<Rightarrow> response \<times> server" where
  "remove_subnet_matching_v4 env network prefix_len = guarded DELETE (\<lambda>user s.
     if 32 < prefix_len
     then ((S_BAD_REQUEST, Text ''prefix_len must be between 0 and 32 for an IPv4 subnet''), s)
     else
       let key = (prefix_len, to_be_bytes32 network) in
       case lpm_rem_v4 (e_kern env) (SUBNET_MATCHING_V4 (s_maps s)) key of
         None \<Rightarrow> ((S_INTERNAL_SERVER_ERROR, Text ''Failed to remove from SUBNET_MATCHING_V4''), s)
       | Some trie \<Rightarrow>
           (let s1 = s\<lparr>s_maps := (s_maps s)\<lparr>SUBNET_MATCHING_V4 := trie\<rparr>\<rparr> in
            case delete_subnet_v4 (e_faults env) (caller_of user) network prefix_len (s_db s) of
              (Inl _, d') \<Rightarrow> ((S_INTERNAL_SERVER_ERROR, NoBody), s1\<lparr>s_db := d'\<rparr>)
            | (Inr _, d') \<Rightarrow> ((S_OK, NoBody), s1\<lparr>s_db := d'\<rparr>)))"

definition list_subnet_matching_v6 :: "env \<Rightarrow> app_user option \<Rightarrow> server \<Rightarrow> response" where
  "list_subnet_matching_v6 env session s =
     (if session = None then (S_UNAUTHORIZED, NoBody)
      else case list_subnet_v6 (e_faults env) (s_db s) of
        Inr entries \<Rightarrow> (S_OK, Subnets6Json entries)
      | Inl _ \<Rightarrow> (S_INTERNAL_SERVER_ERROR, NoBody))"

definition modify_subnet_matching_v6 ::
    "env \<Rightarrow> words4 \<Rightarrow> u32 \<Rightarrow> action \<Rightarrow> app_user option \<Rightarrow> server \<Rightarrow> response \<times> server" where
  "modify_subnet_matching_v6 env network prefix_len action = guarded MODIFY (\<lambda>user s.
     if 128 < prefix_len
     then ((S_BAD_REQUEST, Text ''prefix_len must be between 0 and 128 for an IPv6 subnet''), s)
     else
       let key = (prefix_len, ipv6_network_bytes network) in
       case lpm_ins_v6 (e_kern env) (SUBNET_MATCHING_V6 (s_maps s)) key action of
         None \<Rightarrow> ((S_INTERNAL_SERVER_ERROR, Text ''Failed to insert into SUBNET_MATCHING_V6''), s)
       | Some trie \<Rightarrow>
           (case save_subnet_v6 (e_faults env) (caller_of user) network prefix_len action (s_db s) of
              (Inl _, d') \<Rightarrow>
                ((S_INTERNAL_SERVER_ERROR, NoBody),
                 s\<lparr>s_db := d', s_maps := (s_maps s)\<lparr>SUBNET_MATCHING_V6 :=
                   (case lpm_rem_v6 (e_kern env) trie key of Some t \<Rightarrow> t | None \<Rightarrow> trie)\<rparr>\<rparr>)
            | (Inr _, d') \<Rightarrow>
                ((S_OK, NoBody),
                 s\<lparr>s_db := d', s_maps := (s_maps s)\<lparr>SUBNET_MATCHING_V6 := trie\<rparr>\<rparr>)))"

definition remove_subnet_matching_v6 ::
    "env \<Rightarrow> words4 \<Rightarrow> u32 \<Rightarrow> app_user option \<Rightarrow> server \<Rightarrow> response \<times> server" where
  "remove_subnet_matching_v6 env network prefix_len = guarded DELETE (\<lambda>user s.
     if 128 < prefix_len
     then ((S_BAD_REQUEST, Text ''prefix_len must be between 0 and 128 for an IPv6 subnet''), s)
     else
       let key = (prefix_len, ipv6_network_bytes network) in
       case lpm_rem_v6 (e_kern env) (SUBNET_MATCHING_V6 (s_maps s)) key of
         None \<Rightarrow> ((S_INTERNAL_SERVER_ERROR, Text ''Failed to remove from SUBNET_MATCHING_V6''), s)
       | Some trie \<Rightarrow>
           (let s1 = s\<lparr>s_maps := (s_maps s)\<lparr>SUBNET_MATCHING_V6 := trie\<rparr>\<rparr> in
            case delete_subnet_v6 (e_faults env) (caller_of user) network prefix_len (s_db s) of
              (Inl _, d') \<Rightarrow> ((S_INTERNAL_SERVER_ERROR, NoBody), s1\<lparr>s_db := d'\<rparr>)
            | (Inr _, d') \<Rightarrow> ((S_OK, NoBody), s1\<lparr>s_db := d'\<rparr>)))"

section \<open>Interpretations\<close>

lemma save_subnet_logs [simp]:
  "firewall_logs (snd (save_subnet_v4 flt c n p a d)) = firewall_logs d"
  "firewall_logs (snd (save_subnet_v6 flt c n6 p a d)) = firewall_logs d"
  "firewall_logs (snd (delete_subnet_v4 flt c n p d)) = firewall_logs d"
  "firewall_logs (snd (delete_subnet_v6 flt c n6 p d)) = firewall_logs d"
  by (simp_all add: subnet_ops_v4 subnet_ops_v6 Let_def split: sum.split)

lemma subnet_frames [simp]:
  "users (snd (save_subnet_v4 flt c n p a d)) = users d"
  "users (snd (save_subnet_v6 flt c n6 p a d)) = users d"
  "users (snd (delete_subnet_v4 flt c n p d)) = users d"
  "users (snd (delete_subnet_v6 flt c n6 p d)) = users d"
  "subnet_ok_v6 (snd (save_subnet_v4 flt c n p a d)) = subnet_ok_v6 d"
  "subnet_ok_v4 (snd (save_subnet_v6 flt c n6 p a d)) = subnet_ok_v4 d"
  "subnet_ok_v6 (snd (delete_subnet_v4 flt c n p d)) = subnet_ok_v6 d"
  "subnet_ok_v4 (snd (delete_subnet_v6 flt c n6 p d)) = subnet_ok_v4 d"
  by (simp_all add: subnet_ops_v4 subnet_ops_v6 Let_def split: sum.split)

lemma subnet_db_ok:
  assumes "db_ok d"
  shows "db_ok (snd (save_subnet_v4 flt c n p a d))" "db_ok (snd (save_subnet_v6 flt c n6 p a d))"
    "db_ok (snd (delete_subnet_v4 flt c n p d))" "db_ok (snd (delete_subnet_v6 flt c n6 p d))"
  using assms
  by (simp_all add: db_ok_def store4.save_preserves store6.save_preserves store4.delete_preserves
      store6.delete_preserves)

lemma server_ok_trie:
  assumes "server_ok s" and "db_ok d"
  shows "server_ok (s\<lparr>s_db := d, s_maps := (s_maps s)\<lparr>SUBNET_MATCHING_V4 := t\<rparr>\<rparr>)"
    "server_ok (s\<lparr>s_db := d, s_maps := (s_maps s)\<lparr>SUBNET_MATCHING_V6 := t\<rparr>\<rparr>)"
    "server_ok (s\<lparr>s_maps := (s_maps s)\<lparr>SUBNET_MATCHING_V4 := t\<rparr>, s_db := d\<rparr>)"
    "server_ok (s\<lparr>s_maps := (s_maps s)\<lparr>SUBNET_MATCHING_V6 := t\<rparr>, s_db := d\<rparr>)"
  using assms by (simp_all add: server_ok_def tables_ok_def)

lemma server_ok_db: "server_ok s \<Longrightarrow> db_ok (s_db s)"
  by (simp add: server_ok_def)

interpretation modify_subnet_v4:
  guarded_handler "modify_subnet_matching_v4 env network prefix_len action" MODIFY "keeps_ok env"
  for env network prefix_len action
  unfolding modify_subnet_matching_v4_def
  by (rule guarded_handlerI)
    (auto simp: case_prod_unfold Let_def intro!: server_ok_trie subnet_db_ok intro: server_ok_db
      split: option.split sum.split)

interpretation modify_subnet_v6:
  guarded_handler "modify_subnet_matching_v6 env network prefix_len action" MODIFY "keeps_ok env"
  for env network prefix_len action
  unfolding modify_subnet_matching_v6_def
  by (rule guarded_handlerI)
    (auto simp: case_prod_unfold Let_def intro!: server_ok_trie subnet_db_ok intro: server_ok_db
      split: option.split sum.split)

interpretation remove_subnet_v4:
  guarded_handler "remove_subnet_matching_v4 env network prefix_len" DELETE "keeps_ok env"
  for env network prefix_len
  unfolding remove_subnet_matching_v4_def
  by (rule guarded_handlerI)
    (auto simp: case_prod_unfold Let_def intro!: server_ok_trie subnet_db_ok intro: server_ok_db
      split: option.split sum.split)

interpretation remove_subnet_v6:
  guarded_handler "remove_subnet_matching_v6 env network prefix_len" DELETE "keeps_ok env"
  for env network prefix_len
  unfolding remove_subnet_matching_v6_def
  by (rule guarded_handlerI)
    (auto simp: case_prod_unfold Let_def intro!: server_ok_trie subnet_db_ok intro: server_ok_db
      split: option.split sum.split)

section \<open>The trie and the table in step\<close>

text \<open>
  The trie has exactly the rules of the table: each rule's prefix is there with its action, and
  nothing else. \<open>apart\<close> says that no other rule of the table has the same prefix bits.
\<close>

definition in_step :: "('k \<Rightarrow> bool list) \<Rightarrow> ('k \<Rightarrow> action option) \<Rightarrow> lpm \<Rightarrow> bool" where
  "in_step pre tbl t \<longleftrightarrow> (\<forall>q a. map_of t q = Some a \<longleftrightarrow> (\<exists>k. tbl k = Some a \<and> pre k = q))"

definition apart :: "('k \<Rightarrow> bool list) \<Rightarrow> ('k \<Rightarrow> action option) \<Rightarrow> 'k \<Rightarrow> bool" where
  "apart pre tbl k \<longleftrightarrow> (\<forall>k'. tbl k' \<noteq> None \<longrightarrow> pre k' = pre k \<longrightarrow> k' = k)"

lemma in_step_update:
  assumes "in_step pre tbl t" and "apart pre tbl k" and "map_of t' = (map_of t)(pre k \<mapsto> a)"
  shows "in_step pre (tbl(k \<mapsto> a)) t'"
  unfolding in_step_def
proof (intro allI)
  fix q b
  show "map_of t' q = Some b \<longleftrightarrow> (\<exists>k'. (tbl(k \<mapsto> a)) k' = Some b \<and> pre k' = q)"
  proof (cases "q = pre k")
    case True
    have "k' = k" if "tbl k' = Some b" "pre k' = pre k" for k'
      using assms(2) that by (simp add: apart_def)
    with True assms(3) show ?thesis by (auto split: if_splits)
  next
    case False
    then have "map_of t' q = Some b \<longleftrightarrow> (\<exists>k'. tbl k' = Some b \<and> pre k' = q)"
      using assms(1,3) by (simp add: in_step_def)
    with False show ?thesis by auto
  qed
qed

lemma in_step_delete:
  assumes "in_step pre tbl t" and "apart pre tbl k" and "map_of t' = (map_of t)(pre k := None)"
  shows "in_step pre (tbl(k := None)) t'"
  unfolding in_step_def
proof (intro allI)
  fix q b
  show "map_of t' q = Some b \<longleftrightarrow> (\<exists>k'. (tbl(k := None)) k' = Some b \<and> pre k' = q)"
  proof (cases "q = pre k")
    case True
    have "k' = k" if "tbl k' = Some b" "pre k' = pre k" for k'
      using assms(2) that by (simp add: apart_def)
    with True assms(3) show ?thesis by (auto split: if_splits)
  next
    case False
    then have "map_of t' q = Some b \<longleftrightarrow> (\<exists>k'. tbl k' = Some b \<and> pre k' = q)"
      using assms(1,3) by (simp add: in_step_def)
    with False show ?thesis by auto
  qed
qed

locale subnet_rules =
  fixes modify :: "'n \<Rightarrow> u32 \<Rightarrow> action \<Rightarrow> app_user option \<Rightarrow> server \<Rightarrow> response \<times> server"
    and remove :: "'n \<Rightarrow> u32 \<Rightarrow> app_user option \<Rightarrow> server \<Rightarrow> response \<times> server"
    and table :: "server \<Rightarrow> 'n \<times> u32 \<Rightarrow> action option"
    and trie :: "server \<Rightarrow> lpm"
    and pre :: "'n \<times> u32 \<Rightarrow> bool list"
    and valid :: bool
  assumes modify_OK: "valid \<Longrightarrow> modify n p a session s = ((S_OK, b), s') \<Longrightarrow>
      table s' = (table s)((n, p) \<mapsto> a) \<and> map_of (trie s') = (map_of (trie s))(pre (n, p) \<mapsto> a)"
    and remove_OK: "valid \<Longrightarrow> remove n p session s = ((S_OK, b), s') \<Longrightarrow>
      table s' = (table s)((n, p) := None) \<and> map_of (trie s') = (map_of (trie s))(pre (n, p) := None)"
    and remove_absent: "valid \<Longrightarrow> map_of (trie s) (pre (n, p)) = None \<Longrightarrow>
      fst (fst (remove n p session s)) \<noteq> S_OK \<and> snd (remove n p session s) = s"
begin

lemma modify_in_step:
  assumes "valid" and "in_step pre (table s) (trie s)" and "apart pre (table s) (n, p)"
    and "modify n p a session s = ((S_OK, b), s')"
  shows "in_step pre (table s') (trie s')"
  using in_step_update [OF assms(2,3)] modify_OK [OF assms(1,4)] by simp

lemma remove_in_step:
  assumes "valid" and "in_step pre (table s) (trie s)" and "apart pre (table s) (n, p)"
    and "remove n p session s = ((S_OK, b), s')"
  shows "in_step pre (table s') (trie s')"
  using in_step_delete [OF assms(2,3)] remove_OK [OF assms(1,4)] by simp

text \<open>Two rules with the same prefix bits: removing one takes the trie entry of both.\<close>

lemma removal_orphans:
  assumes "valid" and "table s (n', p') \<noteq> None" and "(n', p') \<noteq> (n, p)" and "pre (n', p') = pre (n, p)"
    and "remove n p session s = ((S_OK, b), s')"
  shows "table s' (n', p') = table s (n', p') \<and> map_of (trie s') (pre (n', p')) = None \<and>
    fst (fst (remove n' p' session' s')) \<noteq> S_OK \<and> snd (remove n' p' session' s') = s'"
  using remove_OK [OF assms(1,5)] assms(3,4) remove_absent [OF assms(1), of s' n' p' session'] by auto

end

definition prefix_v4 :: "u32 \<times> u32 \<Rightarrow> bool list" where
  "prefix_v4 = (\<lambda>(network, prefix_len). key_prefix (prefix_len, to_be_bytes32 network))"

definition prefix_v6 :: "words4 \<times> u32 \<Rightarrow> bool list" where
  "prefix_v6 = (\<lambda>(network, prefix_len). key_prefix (prefix_len, ipv6_network_bytes network))"

lemma modify_v4_OK:
  assumes "modify_subnet_matching_v4 env n p a session s = ((S_OK, b), s')"
  obtains user t d' where "session = Some user"
    and "lpm_ins_v4 (e_kern env) (SUBNET_MATCHING_V4 (s_maps s)) (p, to_be_bytes32 n) a = Some t"
    and "save_subnet_v4 (e_faults env) (caller_of user) n p a (s_db s) = (Inr (), d')"
    and "s' = s\<lparr>s_db := d', s_maps := (s_maps s)\<lparr>SUBNET_MATCHING_V4 := t\<rparr>\<rparr>"
  using assms
  by (auto simp: modify_subnet_matching_v4_def guarded_def Let_def
      split: option.splits sum.splits prod.splits if_splits)

lemma modify_v6_OK:
  assumes "modify_subnet_matching_v6 env n p a session s = ((S_OK, b), s')"
  obtains user t d' where "session = Some user"
    and "lpm_ins_v6 (e_kern env) (SUBNET_MATCHING_V6 (s_maps s)) (p, ipv6_network_bytes n) a = Some t"
    and "save_subnet_v6 (e_faults env) (caller_of user) n p a (s_db s) = (Inr (), d')"
    and "s' = s\<lparr>s_db := d', s_maps := (s_maps s)\<lparr>SUBNET_MATCHING_V6 := t\<rparr>\<rparr>"
  using assms
  by (auto simp: modify_subnet_matching_v6_def guarded_def Let_def
      split: option.splits sum.splits prod.splits if_splits)

lemma remove_v4_OK:
  assumes "remove_subnet_matching_v4 env n p session s = ((S_OK, b), s')"
  obtains user t d' where "session = Some user"
    and "lpm_rem_v4 (e_kern env) (SUBNET_MATCHING_V4 (s_maps s)) (p, to_be_bytes32 n) = Some t"
    and "delete_subnet_v4 (e_faults env) (caller_of user) n p (s_db s) = (Inr (), d')"
    and "s' = s\<lparr>s_maps := (s_maps s)\<lparr>SUBNET_MATCHING_V4 := t\<rparr>, s_db := d'\<rparr>"
  using assms
  by (auto simp: remove_subnet_matching_v4_def guarded_def Let_def
      split: option.splits sum.splits prod.splits if_splits)

lemma remove_v6_OK:
  assumes "remove_subnet_matching_v6 env n p session s = ((S_OK, b), s')"
  obtains user t d' where "session = Some user"
    and "lpm_rem_v6 (e_kern env) (SUBNET_MATCHING_V6 (s_maps s)) (p, ipv6_network_bytes n) = Some t"
    and "delete_subnet_v6 (e_faults env) (caller_of user) n p (s_db s) = (Inr (), d')"
    and "s' = s\<lparr>s_maps := (s_maps s)\<lparr>SUBNET_MATCHING_V6 := t\<rparr>, s_db := d'\<rparr>"
  using assms
  by (auto simp: remove_subnet_matching_v6_def guarded_def Let_def
      split: option.splits sum.splits prod.splits if_splits)

interpretation rules4: subnet_rules "modify_subnet_matching_v4 env" "remove_subnet_matching_v4 env"
  "\<lambda>s. subnet_table_v4 (s_db s)" "\<lambda>s. SUBNET_MATCHING_V4 (s_maps s)" prefix_v4 "kern_ok (e_kern env)"
  for env
proof (unfold_locales, goal_cases)
  case (1 n p a session s b s')
  show ?case
    by (rule modify_v4_OK [OF 1(2)])
      (use lpm_trie.ins_table [OF kern_okD(5) [OF 1(1)]] store4.save_table in \<open>auto simp: prefix_v4_def\<close>)
next
  case (2 n p session s b s')
  show ?case
    by (rule remove_v4_OK [OF 2(2)])
      (use lpm_trie.rem_table [OF kern_okD(5) [OF 2(1)]] store4.delete_table in \<open>auto simp: prefix_v4_def\<close>)
next
  case (3 s n p session)
  then show ?case
    using lpm_trie.rem_absent [OF kern_okD(5) [OF 3(1)], of "SUBNET_MATCHING_V4 (s_maps s)" "(p, to_be_bytes32 n)"]
    by (auto simp: prefix_v4_def remove_subnet_matching_v4_def guarded_def Let_def split: option.split)
qed

interpretation rules6: subnet_rules "modify_subnet_matching_v6 env" "remove_subnet_matching_v6 env"
  "\<lambda>s. subnet_table_v6 (s_db s)" "\<lambda>s. SUBNET_MATCHING_V6 (s_maps s)" prefix_v6 "kern_ok (e_kern env)"
  for env
proof (unfold_locales, goal_cases)
  case (1 n p a session s b s')
  show ?case
    by (rule modify_v6_OK [OF 1(2)])
      (use lpm_trie.ins_table [OF kern_okD(6) [OF 1(1)]] store6.save_table in \<open>auto simp: prefix_v6_def\<close>)
next
  case (2 n p session s b s')
  show ?case
    by (rule remove_v6_OK [OF 2(2)])
      (use lpm_trie.rem_table [OF kern_okD(6) [OF 2(1)]] store6.delete_table in \<open>auto simp: prefix_v6_def\<close>)
next
  case (3 s n p session)
  then show ?case
    using lpm_trie.rem_absent [OF kern_okD(6) [OF 3(1)], of "SUBNET_MATCHING_V6 (s_maps s)" "(p, ipv6_network_bytes n)"]
    by (auto simp: prefix_v6_def remove_subnet_matching_v6_def guarded_def Let_def split: option.split)
qed

section \<open>Properties\<close>

text \<open>
  C10: While no two stored rules share their prefix bits, the trie that filters packets and the
  database that survives a restart have the same rules: every successful addition, replacement and
  removal, for IPv4 and IPv6, keeps them in step, and stores or removes exactly the requested rule.
\<close>

theorem subnet_rules_in_step:
  assumes "kern_ok (e_kern env)"
  shows "(\<forall>n p a session s b s'.
      in_step prefix_v4 (subnet_table_v4 (s_db s)) (SUBNET_MATCHING_V4 (s_maps s)) \<longrightarrow>
      apart prefix_v4 (subnet_table_v4 (s_db s)) (n, p) \<longrightarrow>
      (modify_subnet_matching_v4 env n p a session s = ((S_OK, b), s') \<longrightarrow>
        in_step prefix_v4 (subnet_table_v4 (s_db s')) (SUBNET_MATCHING_V4 (s_maps s')) \<and>
        subnet_table_v4 (s_db s') = (subnet_table_v4 (s_db s))((n, p) \<mapsto> a)) \<and>
      (remove_subnet_matching_v4 env n p session s = ((S_OK, b), s') \<longrightarrow>
        in_step prefix_v4 (subnet_table_v4 (s_db s')) (SUBNET_MATCHING_V4 (s_maps s')) \<and>
        subnet_table_v4 (s_db s') = (subnet_table_v4 (s_db s))((n, p) := None))) \<and>
    (\<forall>n p a session s b s'.
      in_step prefix_v6 (subnet_table_v6 (s_db s)) (SUBNET_MATCHING_V6 (s_maps s)) \<longrightarrow>
      apart prefix_v6 (subnet_table_v6 (s_db s)) (n, p) \<longrightarrow>
      (modify_subnet_matching_v6 env n p a session s = ((S_OK, b), s') \<longrightarrow>
        in_step prefix_v6 (subnet_table_v6 (s_db s')) (SUBNET_MATCHING_V6 (s_maps s')) \<and>
        subnet_table_v6 (s_db s') = (subnet_table_v6 (s_db s))((n, p) \<mapsto> a)) \<and>
      (remove_subnet_matching_v6 env n p session s = ((S_OK, b), s') \<longrightarrow>
        in_step prefix_v6 (subnet_table_v6 (s_db s')) (SUBNET_MATCHING_V6 (s_maps s')) \<and>
        subnet_table_v6 (s_db s') = (subnet_table_v6 (s_db s))((n, p) := None)))"
  by (intro conjI allI impI)
    (rule rules4.modify_in_step [OF assms] rules4.modify_OK [OF assms, THEN conjunct1]
        rules4.remove_in_step [OF assms] rules4.remove_OK [OF assms, THEN conjunct1]
        rules6.modify_in_step [OF assms] rules6.modify_OK [OF assms, THEN conjunct1]
        rules6.remove_in_step [OF assms] rules6.remove_OK [OF assms, THEN conjunct1]; assumption)+

lemma sample_modify_v4:
  assumes "p \<le> 32" and "length (SUBNET_MATCHING_V4 (s_maps s)) < LPM_MAX_ENTRIES"
  obtains s' where "modify_subnet_matching_v4 ref_env n p a (Some sample_user) s = ((S_OK, NoBody), s')"
proof -
  have p: "\<not> 32 < p" "unat p \<le> 32" "\<not> 32 < unat p"
    using assms(1) by (auto simp: not_less word_le_nat_alt)
  then have "fst (save_subnet_v4 no_faults (caller_of sample_user) n p a (s_db s)) = Inr ()"
    by (simp add: store4.save_iff sample_user_may)
  with p assms(2) that show thesis
    by (simp add: modify_subnet_matching_v4_def guarded_def sample_user_may ref_env_def ref_kern_def
        lpm_ref_insert_def Let_def case_prod_unfold)
qed

theorem subnet_rules_in_step_witness:
  "\<exists>b s'. modify_subnet_matching_v4 ref_env 0x0A000000 8 Deny (Some sample_user) sample_server = ((S_OK, b), s') \<and>
     in_step prefix_v4 (subnet_table_v4 (s_db s')) (SUBNET_MATCHING_V4 (s_maps s'))"
proof -
  have "kern_ok (e_kern ref_env)" by (simp add: ref_env_def kern_ok_ref)
  moreover have "in_step prefix_v4 (subnet_table_v4 (s_db sample_server)) (SUBNET_MATCHING_V4 (s_maps sample_server))"
    "apart prefix_v4 (subnet_table_v4 (s_db sample_server)) (0x0A000000, 8)"
    by (simp_all add: in_step_def apart_def subnet_table_v4_def codec_table_def sample_server_def
        empty_maps_def empty_database_def)
  moreover obtain s' where "modify_subnet_matching_v4 ref_env 0x0A000000 8 Deny (Some sample_user) sample_server =
      ((S_OK, NoBody), s')"
    by (rule sample_modify_v4 [where p = 8 and s = sample_server])
      (simp_all add: sample_server_def empty_maps_def LPM_MAX_ENTRIES_def)
  ultimately show ?thesis using subnet_rules_in_step [of ref_env] by blast
qed

text \<open>
  C9: A rule takes effect on the next packet: after a successful request for an IPv4 rule, an address
  that the rule's prefix covers, and no longer prefix of the trie, gets exactly the rule's action; with
  the subnet check active and the action Deny, a packet with that external address is dropped, in
  both directions, and changes no map.
\<close>

theorem subnet_rule_takes_effect:
  assumes "kern_ok (e_kern env)"
    and "modify_subnet_matching_v4 env n p a session s = ((S_OK, b), s')"
    and "length ext = 4" and "prefix (prefix_v4 (n, p)) (bits_of_bytes ext)"
    and "\<forall>q. map_of (SUBNET_MATCHING_V4 (s_maps s)) q \<noteq> None \<longrightarrow> prefix q (bits_of_bytes ext) \<longrightarrow>
      length q \<le> length (prefix_v4 (n, p))"
  shows "lpm_get_v4 (e_kern env) (SUBNET_MATCHING_V4 (s_maps s')) (32, ext) = Some a \<and>
    (\<forall>N ctx key proto fin t1 t2. a = Deny \<longrightarrow> subnet_activated (current_config (s_maps s')) \<longrightarrow>
      arm_v4 N ctx (s_maps s') \<longrightarrow>
      parse_v4 N ctx (packet_direction ctx (s_maps s')) = Inr (key, ext, proto, fin) \<longrightarrow>
      oxidrop N (e_kern env) t1 t2 ctx (s_maps s') = (Some XDP_DROP, s_maps s'))"
proof -
  have t: "map_of (SUBNET_MATCHING_V4 (s_maps s')) =
      (map_of (SUBNET_MATCHING_V4 (s_maps s)))(prefix_v4 (n, p) \<mapsto> a)"
    using rules4.modify_OK [OF assms(1,2)] by simp
  have get: "lpm_get_v4 (e_kern env) (SUBNET_MATCHING_V4 (s_maps s')) (32, ext) = Some a"
    by (rule lpm_trie.get_longest [OF kern_okD(5) [OF assms(1)], where p = "prefix_v4 (n, p)"])
      (use assms(3-5) in \<open>auto simp: t split: if_splits\<close>)
  then show ?thesis
    using oxidrop_v4 [of _ _ "s_maps s'"]
    by (auto simp: filter_v4_def subnet_denies_v4_def)
qed

theorem subnet_rule_takes_effect_witness:
  "\<exists>b s'. modify_subnet_matching_v4 ref_env 0x0A000000 8 Deny (Some sample_user) sample_server = ((S_OK, b), s') \<and>
     lpm_get_v4 ref_kern (SUBNET_MATCHING_V4 (s_maps s')) (32, [10, 1, 2, 3]) = Some Deny"
proof -
  have K: "e_kern ref_env = ref_kern" "kern_ok (e_kern ref_env)" by (simp_all add: ref_env_def kern_ok_ref)
  obtain s' where m: "modify_subnet_matching_v4 ref_env 0x0A000000 8 Deny (Some sample_user) sample_server =
      ((S_OK, NoBody), s')"
    by (rule sample_modify_v4 [where p = 8 and s = sample_server])
      (simp_all add: sample_server_def empty_maps_def LPM_MAX_ENTRIES_def)
  have "prefix (prefix_v4 (0x0A000000, 8)) (bits_of_bytes [10, 1, 2, 3])"
    by (simp add: prefix_v4_def key_prefix_def to_be_bytes32_def bits_of_bytes_def bits_of_byte_def)
  then show ?thesis
    using subnet_rule_takes_effect [OF K(2) m, of "[10, 1, 2, 3]"] m K(1)
    by (simp add: sample_server_def empty_maps_def)
qed

text \<open>
  C39: Two stored rules can share a trie entry, because the database keys a rule by the network as it
  was written and the trie by its prefix bits only. Removing one of them then removes the trie entry
  of both: the other stays listed but no longer filters, and no request can remove it, each attempt
  failing without effect.
\<close>

theorem removal_orphans_rule:
  assumes "kern_ok (e_kern env)" and "subnet_table_v4 (s_db s) (n', p') \<noteq> None"
    and "(n', p') \<noteq> (n, p)" and "prefix_v4 (n', p') = prefix_v4 (n, p)"
    and "remove_subnet_matching_v4 env n p session s = ((S_OK, b), s')"
  shows "subnet_table_v4 (s_db s') (n', p') = subnet_table_v4 (s_db s) (n', p') \<and>
    map_of (SUBNET_MATCHING_V4 (s_maps s')) (prefix_v4 (n', p')) = None \<and>
    fst (fst (remove_subnet_matching_v4 env n' p' session' s')) \<noteq> S_OK \<and>
    snd (remove_subnet_matching_v4 env n' p' session' s') = s'"
  by (rule rules4.removal_orphans [OF assms])

theorem removal_orphans_rule_witness:
  "\<exists>s2 b s3. subnet_table_v4 (s_db s2) (0x0A000002, 8) = Some Deny \<and>
     remove_subnet_matching_v4 ref_env 0x0A000001 8 (Some sample_user) s2 = ((S_OK, b), s3) \<and>
     subnet_table_v4 (s_db s3) (0x0A000002, 8) = Some Deny \<and>
     fst (fst (remove_subnet_matching_v4 ref_env 0x0A000002 8 (Some sample_user) s3)) \<noteq> S_OK"
proof -
  have K: "kern_ok (e_kern ref_env)" by (simp add: ref_env_def kern_ok_ref)
  obtain s1 where m1: "modify_subnet_matching_v4 ref_env 0x0A000001 8 Deny (Some sample_user) sample_server =
      ((S_OK, NoBody), s1)"
    by (rule sample_modify_v4 [where p = 8 and s = sample_server])
      (simp_all add: sample_server_def empty_maps_def LPM_MAX_ENTRIES_def)
  have pre: "prefix_v4 (0x0A000002, 8) = prefix_v4 (0x0A000001, 8)"
    by (simp add: prefix_v4_def key_prefix_def to_be_bytes32_def bits_of_bytes_def bits_of_byte_def)
  have le: "(8 :: u32) \<le> 32" by simp
  have len: "length (SUBNET_MATCHING_V4 (s_maps s1)) < LPM_MAX_ENTRIES"
    by (rule modify_v4_OK [OF m1])
      (auto simp: ref_env_def ref_kern_def lpm_ref_insert_def sample_server_def empty_maps_def
        del_key_def LPM_MAX_ENTRIES_def)
  obtain s2 where m2: "modify_subnet_matching_v4 ref_env 0x0A000002 8 Deny (Some sample_user) s1 =
      ((S_OK, NoBody), s2)"
    by (rule sample_modify_v4 [OF le len])
  have row: "subnet_table_v4 (s_db s2) (0x0A000002, 8) = Some Deny"
    and entry: "map_of (SUBNET_MATCHING_V4 (s_maps s2)) (prefix_v4 (0x0A000001, 8)) = Some Deny"
    using rules4.modify_OK [OF K m2] pre by simp_all
  have "fst (delete_subnet_v4 no_faults (caller_of sample_user) 0x0A000001 8 (s_db s2)) = Inr ()"
    by (simp add: store4.delete_iff sample_user_may)
  then obtain s3 where r: "remove_subnet_matching_v4 ref_env 0x0A000001 8 (Some sample_user) s2 =
      ((S_OK, NoBody), s3)"
    using entry
    by (simp add: remove_subnet_matching_v4_def guarded_def sample_user_may ref_env_def ref_kern_def
        lpm_ref_remove_def prefix_v4_def Let_def case_prod_unfold)
  show ?thesis
    using removal_orphans_rule [OF K _ _ pre r, where session' = "Some sample_user"] row r by auto
qed

text \<open>
  A failed save does not roll back but removes: when the rule was stored and in force before, and
  the database refuses the new version, the answer is 500, the database still has the old rule, and
  the trie has none.
\<close>

theorem failed_save_drops_rule:
  assumes "kern_ok (e_kern env)" and "may (caller_of user) MODIFY" and "p \<le> 32"
    and "e_faults env SaveSubnetV4"
    and "lpm_ins_v4 (e_kern env) (SUBNET_MATCHING_V4 (s_maps s)) (p, to_be_bytes32 n) a = Some t"
    and "lpm_rem_v4 (e_kern env) t (p, to_be_bytes32 n) = Some t'"
  shows "\<exists>s'. modify_subnet_matching_v4 env n p a (Some user) s =
      ((S_INTERNAL_SERVER_ERROR, NoBody), s') \<and> s_db s' = s_db s \<and>
    map_of (SUBNET_MATCHING_V4 (s_maps s')) =
      (map_of (SUBNET_MATCHING_V4 (s_maps s)))(prefix_v4 (n, p) := None)"
proof -
  have "map_of t' = (map_of (SUBNET_MATCHING_V4 (s_maps s)))(prefix_v4 (n, p) := None)"
    using lpm_trie.ins_table [OF kern_okD(5) [OF assms(1)] assms(5)]
      lpm_trie.rem_table [OF kern_okD(5) [OF assms(1)] assms(6)]
    by (simp add: prefix_v4_def)
  moreover have save: "save_subnet_v4 (e_faults env) (caller_of user) n p a (s_db s) =
      (Inl (Database SqlFailed), s_db s)"
    using assms(2,4) by (simp add: save_subnet_v4_def require_subnet_permission_def Let_def)
  have "\<not> 32 < p" using assms(3) by (simp only: not_less)
  with assms(2,5,6) save have "modify_subnet_matching_v4 env n p a (Some user) s =
      ((S_INTERNAL_SERVER_ERROR, NoBody),
       s\<lparr>s_db := s_db s, s_maps := (s_maps s)\<lparr>SUBNET_MATCHING_V4 := t'\<rparr>\<rparr>)"
    by (simp only: modify_subnet_matching_v4_def guarded_def Let_def option.case if_True if_False
        prod.case sum.case)
  moreover have "s_db (s\<lparr>s_db := s_db s, s_maps := (s_maps s)\<lparr>SUBNET_MATCHING_V4 := t'\<rparr>\<rparr>) = s_db s"
    "SUBNET_MATCHING_V4 (s_maps (s\<lparr>s_db := s_db s, s_maps := (s_maps s)\<lparr>SUBNET_MATCHING_V4 := t'\<rparr>\<rparr>)) = t'"
    by simp_all
  ultimately show ?thesis by metis
qed

theorem failed_save_drops_rule_witness:
  "map_of (SUBNET_MATCHING_V4 (s_maps (snd (modify_subnet_matching_v4
     (ref_env\<lparr>e_faults := (\<lambda>_. True)\<rparr>) 0x0A000000 8 Allow (Some sample_user)
     (sample_server\<lparr>s_maps := empty_maps\<lparr>SUBNET_MATCHING_V4 := [(prefix_v4 (0x0A000000, 8), Deny)]\<rparr>\<rparr>)))))
   (prefix_v4 (0x0A000000, 8)) = None"
proof -
  let ?env = "ref_env\<lparr>e_faults := (\<lambda>_. True)\<rparr>"
  let ?s = "sample_server\<lparr>s_maps := empty_maps\<lparr>SUBNET_MATCHING_V4 := [(prefix_v4 (0x0A000000, 8), Deny)]\<rparr>\<rparr>"
  have K: "e_kern ?env = ref_kern" by (simp add: ref_env_def)
  have kp: "key_prefix (8, to_be_bytes32 0x0A000000) = prefix_v4 (0x0A000000, 8)"
    by (simp only: prefix_v4_def split_conv)
  have ins: "lpm_ins_v4 (e_kern ?env) (SUBNET_MATCHING_V4 (s_maps ?s)) (8, to_be_bytes32 0x0A000000) Allow =
      Some [(prefix_v4 (0x0A000000, 8), Allow)]"
    by (simp add: K ref_kern_def lpm_ref_insert_def kp del_key_def)
  have rem: "lpm_rem_v4 (e_kern ?env) [(prefix_v4 (0x0A000000, 8), Allow)] (8, to_be_bytes32 0x0A000000) = Some []"
    by (simp add: K ref_kern_def lpm_ref_remove_def kp del_key_def)
  have "kern_ok (e_kern ?env)" "(8 :: u32) \<le> 32" "e_faults ?env SaveSubnetV4"
    by (simp_all add: K kern_ok_ref)
  from failed_save_drops_rule [OF this(1) sample_user_may(1) this(2,3) ins rem]
  obtain s' where "modify_subnet_matching_v4 ?env 0x0A000000 8 Allow (Some sample_user) ?s =
      ((S_INTERNAL_SERVER_ERROR, NoBody), s')"
    and "map_of (SUBNET_MATCHING_V4 (s_maps s')) =
      (map_of (SUBNET_MATCHING_V4 (s_maps ?s)))(prefix_v4 (0x0A000000, 8) := None)" by blast
  then show ?thesis by (simp only: snd_conv fun_upd_same)
qed

end
