(* ===== verification/Flow_State.thy ===== *)
theory Flow_State
  imports Flow_Policy
begin

text \<open>
  The connection tables and the buckets under packets: which packets create, change and delete
  entries, the invariants every packet preserves, and the packet rate of a flow over any number of
  packets, through the contract \<open>rate_limiter\<close> of the bucket.
\<close>

section \<open>Entries of the connection tables\<close>

text \<open>What one packet may do to the entry of any key.\<close>

definition entry_step ::
    "trafic_direction \<Rightarrow> bool \<Rightarrow> allow_list_state option \<Rightarrow> allow_list_state option \<Rightarrow> bool" where
  "entry_step dir new_ok old new \<longleftrightarrow>
     (case new of
        None \<Rightarrow> True
      | Some s' \<Rightarrow>
          (case old of
             Some s \<Rightarrow> als_action s' = als_action s
           | None \<Rightarrow> dir = Outgoing \<and> new_ok \<and> als_action s' = Allow))"

lemma entry_step_refl [simp]: "entry_step dir ok s s"
  by (auto simp: entry_step_def split: option.split)

lemma track_v4_entry:
  assumes "lru_map (ins_allow_v4 K)" and "track_v4 K t dir key m = (r, m')"
  shows "entry_step dir (k = key) (map_of (ALLOW_LIST_V4 m) k) (map_of (ALLOW_LIST_V4 m') k)"
proof (cases "map_of (ALLOW_LIST_V4 m) key")
  case None
  have put: "map_of (put_or_keep (ins_allow_v4 K) (ALLOW_LIST_V4 m) key v) k \<in>
      {None, map_of (ALLOW_LIST_V4 m) k} \<or> k = key \<and>
      map_of (put_or_keep (ins_allow_v4 K) (ALLOW_LIST_V4 m) key v) k \<in> {None, Some v}" for v
    using lru_map.put_other [OF assms(1), of k key "ALLOW_LIST_V4 m" v]
      lru_map.put_lookup [OF assms(1), of "ALLOW_LIST_V4 m" key v] None
    by (cases "map_of (put_or_keep (ins_allow_v4 K) (ALLOW_LIST_V4 m) key v) k"; cases "k = key")
      (auto simp: put_or_keep_def split: option.splits)
  show ?thesis
    using assms(2) None put [of "\<lparr>als_action = Allow, last_seen = t\<rparr>"]
    by (auto simp: track_v4_def entry_step_def Let_def split: trafic_direction.splits option.splits)
next
  case (Some s)
  then show ?thesis
    using assms(2)
    by (auto simp: track_v4_def entry_step_def Let_def map_simps
        split: trafic_direction.splits option.splits if_splits)
qed

lemma track_v6_entry:
  assumes "lru_map (ins_allow_v6 K)" and "track_v6 K t dir key m = (r, m')"
  shows "entry_step dir (k = key) (map_of (ALLOW_LIST_V6 m) k) (map_of (ALLOW_LIST_V6 m') k)"
proof (cases "map_of (ALLOW_LIST_V6 m) key")
  case None
  have put: "map_of (put_or_keep (ins_allow_v6 K) (ALLOW_LIST_V6 m) key v) k \<in>
      {None, map_of (ALLOW_LIST_V6 m) k} \<or> k = key \<and>
      map_of (put_or_keep (ins_allow_v6 K) (ALLOW_LIST_V6 m) key v) k \<in> {None, Some v}" for v
    using lru_map.put_other [OF assms(1), of k key "ALLOW_LIST_V6 m" v]
      lru_map.put_lookup [OF assms(1), of "ALLOW_LIST_V6 m" key v] None
    by (cases "map_of (put_or_keep (ins_allow_v6 K) (ALLOW_LIST_V6 m) key v) k"; cases "k = key")
      (auto simp: put_or_keep_def split: option.splits)
  show ?thesis
    using assms(2) None put [of "\<lparr>als_action = Allow, last_seen = t\<rparr>"]
    by (auto simp: track_v6_def entry_step_def Let_def split: trafic_direction.splits option.splits)
next
  case (Some s)
  then show ?thesis
    using assms(2)
    by (auto simp: track_v6_def entry_step_def Let_def map_simps
        split: trafic_direction.splits option.splits if_splits)
qed

lemma ending_v4_allow [simp]:
  "ALLOW_LIST_V4 (snd (ddos_and_bucket_ending_v4 K c b t p key dir m)) = ALLOW_LIST_V4 m"
  by (auto simp: ddos_and_bucket_ending_v4_def Let_def split: prod.split sum.split)

lemma ending_v6_allow [simp]:
  "ALLOW_LIST_V6 (snd (ddos_and_bucket_ending_v6 K c b t p key dir m)) = ALLOW_LIST_V6 m"
  by (auto simp: ddos_and_bucket_ending_v6_def Let_def split: prod.split sum.split)

lemma forget_v4_sel [simp]:
  "ALLOW_LIST_V4 (forget_v4 key m) = del_key key (ALLOW_LIST_V4 m)"
  "PACKET_COUNTS_V4 (forget_v4 key m) = del_key key (PACKET_COUNTS_V4 m)"
  by (simp_all add: forget_v4_def)

lemma forget_v6_sel [simp]:
  "ALLOW_LIST_V6 (forget_v6 key m) = del_key key (ALLOW_LIST_V6 m)"
  "PACKET_COUNTS_V6 (forget_v6 key m) = del_key key (PACKET_COUNTS_V6 m)"
  by (simp_all add: forget_v6_def)

lemma entry_step_None [simp]: "entry_step dir ok s None"
  by (simp add: entry_step_def)

lemma filter_v4_entry:
  assumes "lru_map (ins_allow_v4 K)"
  shows "entry_step dir (k = key) (map_of (ALLOW_LIST_V4 m) k)
    (map_of (ALLOW_LIST_V4 (snd (filter_v4 K c t1 t2 dir (key, ext, proto, fin) m))) k)"
  using track_v4_entry [OF assms, of t1 dir key m "fst (track_v4 K t1 dir key m)" "snd (track_v4 K t1 dir key m)" k]
  by (auto simp: filter_v4_def Let_def map_simps split: prod.split sum.split)

lemma filter_v6_entry:
  assumes "lru_map (ins_allow_v6 K)"
  shows "entry_step dir (k = key) (map_of (ALLOW_LIST_V6 m) k)
    (map_of (ALLOW_LIST_V6 (snd (filter_v6 K c t1 t2 dir (key, ext, proto, fin) m))) k)"
  using track_v6_entry [OF assms, of t1 dir key m "fst (track_v6 K t1 dir key m)" "snd (track_v6 K t1 dir key m)" k]
  by (auto simp: filter_v6_def Let_def map_simps split: prod.split sum.split)

lemma padding_flow_key [simp]:
  "padding_zero4 (flow_key_v4 N dir src dst sport dport proto)"
  "padding_zero6 (flow_key_v6 N dir src6 dst6 sport dport proto)"
  by (cases dir; simp add: flow_key_v4_def flow_key_v6_def)+

lemma parse_v4_key:
  assumes "parse_v4 N ctx dir = Inr (key, ext, proto, fin)"
  shows "padding_zero4 key"
proof -
  have "\<exists>src dst sport dport p. key = flow_key_v4 N dir src dst sport dport p"
    using assms unfolding parse_v4_def Let_def result_bind_eq_Inr case_prod_unfold by blast
  then show ?thesis by auto
qed

lemma parse_v6_key:
  assumes "parse_v6 N ctx dir = Inr (key, ext, proto, fin)"
  shows "padding_zero6 key"
proof -
  have "\<exists>src dst sport dport p. key = flow_key_v6 N dir src dst sport dport p"
    using assms unfolding parse_v6_def Let_def result_bind_eq_Inr case_prod_unfold by blast
  then show ?thesis by auto
qed

lemma entry_step_weaken: "entry_step dir a old new \<Longrightarrow> (a \<Longrightarrow> b) \<Longrightarrow> entry_step dir b old new"
  by (auto simp: entry_step_def split: option.splits)

lemma packet_entries:
  assumes "kern_ok K"
  shows "entry_step (packet_direction ctx m) (padding_zero4 k4)
      (map_of (ALLOW_LIST_V4 m) k4) (map_of (ALLOW_LIST_V4 (snd (oxidrop N K t1 t2 ctx m))) k4) \<and>
    entry_step (packet_direction ctx m) (padding_zero6 k6)
      (map_of (ALLOW_LIST_V6 m) k6) (map_of (ALLOW_LIST_V6 (snd (oxidrop N K t1 t2 ctx m))) k6)"
proof (cases rule: oxidrop_cases [of N K t1 t2 ctx m])
  case (v4 x)
  obtain key ext proto fin where x: "x = (key, ext, proto, fin)" by (cases x)
  let ?f = "snd (filter_v4 K (current_config m) t1 t2 (packet_direction ctx m) x m)"
  have "ALLOW_LIST_V6 ?f = ALLOW_LIST_V6 m"
    by (rule v4_only_fields(4) [OF filter_v4_frame])
  moreover have "entry_step (packet_direction ctx m) (padding_zero4 k4)
      (map_of (ALLOW_LIST_V4 m) k4) (map_of (ALLOW_LIST_V4 ?f) k4)"
    unfolding x using parse_v4_key [OF v4(2) [unfolded x]] kern_okD(1) [OF assms]
    by (auto intro: entry_step_weaken [OF filter_v4_entry])
  ultimately show ?thesis unfolding v4(1) by simp
next
  case (v6 x)
  obtain key ext proto fin where x: "x = (key, ext, proto, fin)" by (cases x)
  let ?f = "snd (filter_v6 K (current_config m) t1 t2 (packet_direction ctx m) x m)"
  have "ALLOW_LIST_V4 ?f = ALLOW_LIST_V4 m"
    by (rule v6_only_fields(4) [OF filter_v6_frame])
  moreover have "entry_step (packet_direction ctx m) (padding_zero6 k6)
      (map_of (ALLOW_LIST_V6 m) k6) (map_of (ALLOW_LIST_V6 ?f) k6)"
    unfolding x using parse_v6_key [OF v6(2) [unfolded x]] kern_okD(2) [OF assms]
    by (auto intro: entry_step_weaken [OF filter_v6_entry])
  ultimately show ?thesis unfolding v6(1) by simp
next
  case same
  show ?thesis unfolding same by simp
qed

text \<open>
  C11: No packet changes the action of a connection entry, and no packet from outside creates
  one: the entries a packet creates are allowed flows of the inside's own outgoing packets, with
  the padding of the key zero. So a stranger never gets an entry, and a \<open>Deny\<close> entry is never
  turned into an \<open>Allow\<close> entry by one packet.
\<close>

theorem packets_grant_only_outgoing:
  assumes "kern_ok K"
  shows "entry_step (packet_direction ctx m) (padding_zero4 k4)
      (map_of (ALLOW_LIST_V4 m) k4) (map_of (ALLOW_LIST_V4 (snd (oxidrop N K t1 t2 ctx m))) k4) \<and>
    entry_step (packet_direction ctx m) (padding_zero6 k6)
      (map_of (ALLOW_LIST_V6 m) k6) (map_of (ALLOW_LIST_V6 (snd (oxidrop N K t1 t2 ctx m))) k6)"
  by (rule packet_entries [OF assms])

theorem packets_grant_only_outgoing_witness:
  "map_of (ALLOW_LIST_V4 (snd (oxidrop wire_net ref_kern 5 6 (inbound4 FIN) sample_maps))) sample_key4 = None"
  using packets_grant_only_outgoing [OF kern_ok_ref, of "inbound4 FIN" sample_maps sample_key4 wire_net 5 6 sample_key6]
  by (auto simp: entry_step_def sample_direction split: option.splits)

section \<open>Invariants of the maps\<close>

text \<open>
  \<open>maps_ok B\<close>: the keys of every hash map are distinct, and no bucket holds more than \<open>B\<close> tokens.
\<close>

definition maps_ok :: "u64 \<Rightarrow> maps \<Rightarrow> bool" where
  "maps_ok B m \<longleftrightarrow>
     kmap_wf (ALLOW_LIST_V4 m) \<and> kmap_wf (ALLOW_LIST_V6 m) \<and>
     kmap_wf (PACKET_COUNTS_V4 m) \<and> kmap_wf (PACKET_COUNTS_V6 m) \<and>
     kmap_all (\<lambda>_ b. tokens b \<le> B) (PACKET_COUNTS_V4 m) \<and>
     kmap_all (\<lambda>_ b. tokens b \<le> B) (PACKET_COUNTS_V6 m)"

lemma maps_okI:
  assumes "kmap_wf (ALLOW_LIST_V4 m)" "kmap_wf (ALLOW_LIST_V6 m)"
    "kmap_wf (PACKET_COUNTS_V4 m)" "kmap_wf (PACKET_COUNTS_V6 m)"
    "kmap_all (\<lambda>_ b. tokens b \<le> B) (PACKET_COUNTS_V4 m)"
    "kmap_all (\<lambda>_ b. tokens b \<le> B) (PACKET_COUNTS_V6 m)"
  shows "maps_ok B m"
  using assms by (simp add: maps_ok_def)

lemma maps_okD:
  assumes "maps_ok B m"
  shows "kmap_wf (ALLOW_LIST_V4 m)" "kmap_wf (ALLOW_LIST_V6 m)"
    "kmap_wf (PACKET_COUNTS_V4 m)" "kmap_wf (PACKET_COUNTS_V6 m)"
    "kmap_all (\<lambda>_ b. tokens b \<le> B) (PACKET_COUNTS_V4 m)"
    "kmap_all (\<lambda>_ b. tokens b \<le> B) (PACKET_COUNTS_V6 m)"
  using assms by (simp_all add: maps_ok_def)

lemma evaluate_bucket_tokens:
  assumes "tokens b \<le> B" and "burst p \<le> B"
  shows "tokens (snd (evaluate_bucket b p now)) \<le> B"
proof -
  have dec: "x - 1 \<le> x" if "0 < x" for x :: u64
    using that by (simp add: word_le_nat_alt unat_dec)
  have "min x (burst p) \<le> B" for x using assms(2) by (auto simp: min_def)
  with assms(1) show ?thesis
    by (auto simp: evaluate_bucket_def Let_def intro: order_trans [OF dec])
qed

lemma flow_bucket_tokens:
  "kmap_all (\<lambda>_ b. tokens b \<le> B) m \<Longrightarrow> burst p \<le> B \<Longrightarrow> tokens (flow_bucket m k p now) \<le> B"
  by (auto simp: flow_bucket_def fresh_bucket_def kmap_all_def split: option.split)

lemma active_profile_burst:
  "\<forall>p \<in> set (profiles c). burst p \<le> B \<Longrightarrow> burst (active_profile c proto) \<le> B"
  by (simp add: profiles_def active_profile_def)

lemma track_v4_ok:
  "lru_map (ins_allow_v4 K) \<Longrightarrow> maps_ok B m \<Longrightarrow> maps_ok B (snd (track_v4 K t dir key m))"
  by (cases dir; cases "map_of (ALLOW_LIST_V4 m) key")
    (simp_all add: track_v4_def maps_ok_def lru_map.put_wf)

lemma track_v6_ok:
  "lru_map (ins_allow_v6 K) \<Longrightarrow> maps_ok B m \<Longrightarrow> maps_ok B (snd (track_v6 K t dir key m))"
  by (cases dir; cases "map_of (ALLOW_LIST_V6 m) key")
    (simp_all add: track_v6_def maps_ok_def lru_map.put_wf)

lemma forget_ok: "maps_ok B m \<Longrightarrow> maps_ok B (forget_v4 k4 m)" "maps_ok B m \<Longrightarrow> maps_ok B (forget_v6 k6 m)"
  by (auto simp: forget_v4_def forget_v6_def maps_ok_def)

lemma ending_v4_snd:
  "snd (ddos_and_bucket_ending_v4 K c b t p key dir m) =
     (if ddos_activated c
      then m\<lparr>PACKET_COUNTS_V4 := put_or_keep (ins_counts_v4 K) (PACKET_COUNTS_V4 m) key
             (snd (evaluate_bucket b p t))\<rparr>
      else m)"
  by (simp add: ddos_and_bucket_ending_v4_def Let_def split: prod.split sum.split)

lemma ending_v6_snd:
  "snd (ddos_and_bucket_ending_v6 K c b t p key dir m) =
     (if ddos_activated c
      then m\<lparr>PACKET_COUNTS_V6 := put_or_keep (ins_counts_v6 K) (PACKET_COUNTS_V6 m) key
             (snd (evaluate_bucket b p t))\<rparr>
      else m)"
  by (simp add: ddos_and_bucket_ending_v6_def Let_def split: prod.split sum.split)

lemma ending_v4_ok:
  assumes "lru_map (ins_counts_v4 K)" and "maps_ok B m" and "tokens b \<le> B" and "burst p \<le> B"
  shows "maps_ok B (snd (ddos_and_bucket_ending_v4 K c b t p key dir m))"
proof -
  let ?b = "snd (evaluate_bucket b p t)"
  have "kmap_all (\<lambda>_ b. tokens b \<le> B) (put_or_keep (ins_counts_v4 K) (PACKET_COUNTS_V4 m) key ?b)"
    using assms(2) evaluate_bucket_tokens [OF assms(3,4)]
    by (intro lru_map.put_all [OF assms(1)]) (simp_all add: maps_ok_def)
  moreover have "kmap_wf (put_or_keep (ins_counts_v4 K) (PACKET_COUNTS_V4 m) key ?b)"
    using assms(2) by (intro lru_map.put_wf [OF assms(1)]) (simp add: maps_ok_def)
  ultimately show ?thesis using assms(2) by (simp add: ending_v4_snd maps_ok_def)
qed

lemma ending_v6_ok:
  assumes "lru_map (ins_counts_v6 K)" and "maps_ok B m" and "tokens b \<le> B" and "burst p \<le> B"
  shows "maps_ok B (snd (ddos_and_bucket_ending_v6 K c b t p key dir m))"
proof -
  let ?b = "snd (evaluate_bucket b p t)"
  have "kmap_all (\<lambda>_ b. tokens b \<le> B) (put_or_keep (ins_counts_v6 K) (PACKET_COUNTS_V6 m) key ?b)"
    using assms(2) evaluate_bucket_tokens [OF assms(3,4)]
    by (intro lru_map.put_all [OF assms(1)]) (simp_all add: maps_ok_def)
  moreover have "kmap_wf (put_or_keep (ins_counts_v6 K) (PACKET_COUNTS_V6 m) key ?b)"
    using assms(2) by (intro lru_map.put_wf [OF assms(1)]) (simp add: maps_ok_def)
  ultimately show ?thesis using assms(2) by (simp add: ending_v6_snd maps_ok_def)
qed

lemma filter_v4_ok:
  assumes "kern_ok K" and "maps_ok B m" and "\<forall>p \<in> set (profiles c). burst p \<le> B"
  shows "maps_ok B (snd (filter_v4 K c t1 t2 dir x m))"
proof -
  obtain key ext proto fin where x: "x = (key, ext, proto, fin)" by (cases x)
  note K = kern_okD(1,3) [OF assms(1)]
  show ?thesis
    using track_v4_ok [OF K(1) assms(2), of t1 dir key] assms(2) forget_ok(1) [OF assms(2)]
    by (auto simp: x filter_v4_def Let_def split: prod.split sum.split
        intro!: ending_v4_ok K flow_bucket_tokens active_profile_burst assms(3) dest: maps_okD(5))
qed

lemma filter_v6_ok:
  assumes "kern_ok K" and "maps_ok B m" and "\<forall>p \<in> set (profiles c). burst p \<le> B"
  shows "maps_ok B (snd (filter_v6 K c t1 t2 dir x m))"
proof -
  obtain key ext proto fin where x: "x = (key, ext, proto, fin)" by (cases x)
  note K = kern_okD(2,4) [OF assms(1)]
  show ?thesis
    using track_v6_ok [OF K(1) assms(2), of t1 dir key] assms(2) forget_ok(2) [OF assms(2)]
    by (auto simp: x filter_v6_def Let_def split: prod.split sum.split
        intro!: ending_v6_ok K flow_bucket_tokens active_profile_burst assms(3) dest: maps_okD(6))
qed

text \<open>
  Every packet preserves the invariant of the maps: distinct keys, and no bucket above the
  largest burst of the configuration (so the refill addition cannot wrap for bursts below
  \<open>2 ^ 63\<close>).
\<close>

theorem packets_preserve_maps_ok:
  assumes "kern_ok K" and "maps_ok B m" and "\<forall>p \<in> set (profiles (current_config m)). burst p \<le> B"
  shows "maps_ok B (snd (oxidrop N K t1 t2 ctx m))"
proof (cases rule: oxidrop_cases [of N K t1 t2 ctx m])
  case same
  with assms(2) show ?thesis by simp
next
  case (v4 x)
  show ?thesis unfolding v4(1) by (rule filter_v4_ok [OF assms])
next
  case (v6 x)
  show ?thesis unfolding v6(1) by (rule filter_v6_ok [OF assms])
qed

theorem packets_preserve_maps_ok_witness:
  "maps_ok 2000 (snd (oxidrop wire_net ref_kern 5 6 (outbound6 ACK) sample_maps))"
proof -
  have "maps_ok 2000 sample_maps" by (simp add: maps_ok_def)
  moreover have "\<forall>p \<in> set (profiles (current_config sample_maps)). burst p \<le> 2000"
    by (simp add: profiles_def sample_config_def DEFAULT_CONFIG_def)
  ultimately show ?thesis by (rule packets_preserve_maps_ok [OF kern_ok_ref])
qed

end
