(* ===== verification/Flow_Sessions.thy ===== *)
theory Flow_Sessions
  imports Flow_State
begin

text \<open>
  Behaviour over more than one packet or one header: replies of outgoing connections, FIN and RST
  packets, the walk over IPv6 extension headers against its specification, the EtherTypes outside
  IP, and the packet rate of a flow.
\<close>

section \<open>Connections\<close>

lemma track_v4_outgoing:
  assumes "lru_map (ins_allow_v4 K)"
    and "map_option als_action (map_of (ALLOW_LIST_V4 m) key) \<noteq> Some Deny"
    and "ins_allow_v4 K (ALLOW_LIST_V4 m) key \<lparr>als_action = Allow, last_seen = t\<rparr> \<noteq> None"
  shows "fst (track_v4 K t Outgoing key m) = Inr ()"
    and "map_of (ALLOW_LIST_V4 (snd (track_v4 K t Outgoing key m))) key =
      Some \<lparr>als_action = Allow, last_seen = t\<rparr>"
proof -
  show "fst (track_v4 K t Outgoing key m) = Inr ()"
    by (cases "map_of (ALLOW_LIST_V4 m) key") (simp_all add: track_v4_def)
  show "map_of (ALLOW_LIST_V4 (snd (track_v4 K t Outgoing key m))) key =
      Some \<lparr>als_action = Allow, last_seen = t\<rparr>"
    using assms(2) lru_map.put_lookup [OF assms(1,3)]
    by (cases "map_of (ALLOW_LIST_V4 m) key"; cases "als_action (the (map_of (ALLOW_LIST_V4 m) key))")
      (auto simp: track_v4_def map_simps)
qed

lemma filter_v4_outgoing:
  assumes "lru_map (ins_allow_v4 K)"
    and "map_option als_action (map_of (ALLOW_LIST_V4 m) key) \<noteq> Some Deny"
    and "ins_allow_v4 K (ALLOW_LIST_V4 m) key \<lparr>als_action = Allow, last_seen = t1\<rparr> \<noteq> None"
    and "\<not> subnet_denies_v4 K c m ext"
  shows "map_of (ALLOW_LIST_V4 (snd (filter_v4 K c t1 t2 Outgoing (key, ext, proto, False) m))) key =
    Some \<lparr>als_action = Allow, last_seen = t1\<rparr>"
  using track_v4_outgoing [OF assms(1-3)] assms(4)
  by (cases "track_v4 K t1 Outgoing key m") (simp add: filter_v4_def Let_def)

text \<open>
  C20: Replies get in: after an outgoing IPv4 packet of a flow that is not denied, an incoming
  packet with the same key (its reply) is forwarded exactly when it ends the connection or its
  bucket has a token; the subnet and connection checks do not stop it.
\<close>

theorem reply_is_admitted:
  assumes "kern_ok K"
    and "arm_v4 N ctx m" and "packet_direction ctx m = Outgoing"
    and "parse_v4 N ctx Outgoing = Inr (key, ext, proto, False)"
    and "\<not> subnet_denies_v4 K (current_config m) m ext"
    and "map_option als_action (map_of (ALLOW_LIST_V4 m) key) \<noteq> Some Deny"
    and "ins_allow_v4 K (ALLOW_LIST_V4 m) key \<lparr>als_action = Allow, last_seen = t1\<rparr> \<noteq> None"
    and "m' = snd (oxidrop N K t1 t2 ctx m)"
    and "arm_v4 N ctx' m'" and "packet_direction ctx' m' = Incoming"
    and "parse_v4 N ctx' Incoming = Inr (key, ext, proto, fin)"
  shows "fst (oxidrop N K t3 t4 ctx' m') = Some
    (let c = current_config m; p = active_profile c proto in
     if fin \<or> \<not> ddos_activated c \<or>
        fst (evaluate_bucket (flow_bucket (PACKET_COUNTS_V4 m') key p t4) p t4) = Inr XDP_PASS
     then redirect_or_pass K c Incoming else XDP_DROP)"
proof -
  have m': "m' = snd (filter_v4 K (current_config m) t1 t2 Outgoing (key, ext, proto, False) m)"
    using oxidrop_v4_snd [OF assms(2), of "(key, ext, proto, False)"] assms(3,4,8) by simp
  have entry: "map_of (ALLOW_LIST_V4 m') key = Some \<lparr>als_action = Allow, last_seen = t1\<rparr>"
    unfolding m' by (rule filter_v4_outgoing [OF kern_okD(1) [OF assms(1)] assms(6,7,5)])
  have "v4_only m m'" unfolding m' by (rule filter_v4_frame)
  then have c: "current_config m' = current_config m"
    and s: "SUBNET_MATCHING_V4 m' = SUBNET_MATCHING_V4 m"
    by (simp_all add: current_config_def v4_only_fields)
  show ?thesis
    using oxidrop_v4_fst [OF assms(9), of "(key, ext, proto, fin)" K t3 t4] assms(10,11)
      assms(5) entry
    by (simp add: filter_v4_verdict admits_def c s subnet_denies_v4_def Let_def)
qed

theorem reply_is_admitted_witness:
  "fst (oxidrop wire_net ref_kern 7 8 (inbound4 ACK)
     (snd (oxidrop wire_net ref_kern 5 6 (outbound4 ACK) sample_maps))) = Some XDP_REDIRECT"
proof -
  let ?m' = "snd (oxidrop wire_net ref_kern 5 6 (outbound4 ACK) sample_maps)"
  have arm: "arm_v4 wire_net (outbound4 ACK) sample_maps"
    and dir: "packet_direction (outbound4 ACK) sample_maps = Outgoing"
    by (simp_all add: sample_arm_v4 sample_direction)
  note m' = oxidrop_v4_snd [OF arm, unfolded dir, OF sample_parse_v4(3)]
  have "v4_only sample_maps ?m'" unfolding m' by (rule filter_v4_frame)
  then have c: "current_config ?m' = sample_config"
    by (simp add: current_config_def v4_only_fields)
  have "flow_bucket (PACKET_COUNTS_V4 ?m') sample_key4 (tcp_profile sample_config) 8 =
      \<lparr>tokens = 999, last_update = 6\<rparr>"
    unfolding m'
    by (simp add: filter_v4_def subnet_denies_v4_def track_v4_def ending_v4_snd active_profile_def
        flow_bucket_def fresh_bucket_def evaluate_bucket_def put_or_keep_def lru_put_def Let_def)
  then have "fst (evaluate_bucket (flow_bucket (PACKET_COUNTS_V4 ?m') sample_key4
      (tcp_profile sample_config) 8) (tcp_profile sample_config) 8) = Inr XDP_PASS"
    by (simp only: evaluate_bucket_def Let_def) (simp add: saturating_sub_def)
  then show ?thesis
    using reply_is_admitted [OF kern_ok_ref arm dir sample_parse_v4(3) _ _ _ refl
        sample_arm_v4(1) [OF c] sample_direction(1) [OF c] sample_parse_v4(1), of 7 8]
    by (simp add: subnet_denies_v4_def lru_put_def active_profile_def Let_def redirect_or_pass_def
        redirect_target_def del: sample_config_simps(6))
qed

text \<open>
  C38: A TCP packet with FIN or RST from an allowed subnet is forwarded and erases its flow,
  whatever the connection table and the bucket say: it needs no entry, a \<open>Deny\<close> entry does not
  stop it, and the rate limit does not apply.
\<close>

theorem fin_bypasses_connection_check:
  assumes "arm_v4 N ctx m"
    and "parse_v4 N ctx (packet_direction ctx m) = Inr (key, ext, proto, True)"
    and "\<not> subnet_denies_v4 K (current_config m) m ext"
  shows "oxidrop N K t1 t2 ctx m =
    (Some (redirect_or_pass K (current_config m) (packet_direction ctx m)), forget_v4 key m)"
  using oxidrop_v4 [OF assms(1,2)] assms(3) by (simp add: filter_v4_def)

theorem fin_bypasses_connection_check_witness:
  "fst (oxidrop wire_net ref_kern 5 6 (inbound4 FIN)
     (sample_maps\<lparr>ALLOW_LIST_V4 := [(sample_key4, \<lparr>als_action = Deny, last_seen = 0\<rparr>)]\<rparr>)) =
   Some XDP_REDIRECT"
proof -
  let ?m = "sample_maps\<lparr>ALLOW_LIST_V4 := [(sample_key4, \<lparr>als_action = Deny, last_seen = 0\<rparr>)]\<rparr>"
  have c: "current_config ?m = sample_config" by (simp add: current_config_def)
  note dir = sample_direction(1) [OF c, of FIN]
  from fin_bypasses_connection_check [OF sample_arm_v4(1) [OF c, of FIN], unfolded dir,
      OF sample_parse_v4(2), of ref_kern 5 6]
  show ?thesis by (simp add: c subnet_denies_v4_def redirect_or_pass_def redirect_target_def)
qed

text \<open>
  A denied flow is reopened from outside by two packets: a FIN of the peer deletes the \<open>Deny\<close>
  entry, and the next packet of the inside creates an \<open>Allow\<close> entry for the same key.
\<close>

theorem fin_lifts_deny:
  assumes "kern_ok K" and "arm_v4 N fin_ctx m" and "packet_direction fin_ctx m = Incoming"
    and "parse_v4 N fin_ctx Incoming = Inr (key, ext, proto, True)"
    and "map_option als_action (map_of (ALLOW_LIST_V4 m) key) = Some Deny"
    and "\<not> subnet_denies_v4 K (current_config m) m ext"
    and "m1 = snd (oxidrop N K t1 t2 fin_ctx m)"
    and "arm_v4 N ctx m1" and "packet_direction ctx m1 = Outgoing"
    and "parse_v4 N ctx Outgoing = Inr (key, ext, proto, False)"
    and "ins_allow_v4 K (ALLOW_LIST_V4 m1) key \<lparr>als_action = Allow, last_seen = t3\<rparr> \<noteq> None"
  shows "map_of (ALLOW_LIST_V4 (snd (oxidrop N K t3 t4 ctx m1))) key =
    Some \<lparr>als_action = Allow, last_seen = t3\<rparr>"
proof -
  have m1: "m1 = forget_v4 key m"
    using oxidrop_v4 [OF assms(2), of "(key, ext, proto, True)"] assms(3,4,6,7)
    by (simp add: filter_v4_def)
  then have "v4_only m m1" by (simp add: forget_v4_frame)
  then have "\<not> subnet_denies_v4 K (current_config m1) m1 ext"
    using assms(6) by (simp add: subnet_denies_v4_def current_config_def v4_only_fields)
  moreover have "map_option als_action (map_of (ALLOW_LIST_V4 m1) key) \<noteq> Some Deny"
    by (simp add: m1 map_simps)
  ultimately show ?thesis
    using filter_v4_outgoing [OF kern_okD(1) [OF assms(1)] _ assms(11)]
      oxidrop_v4_snd [OF assms(8), of "(key, ext, proto, False)"] assms(9,10) by simp
qed

theorem fin_lifts_deny_witness:
  "\<exists>m. map_option als_action (map_of (ALLOW_LIST_V4 m) sample_key4) = Some Deny \<and>
     map_of (ALLOW_LIST_V4 (snd (oxidrop wire_net ref_kern 7 8 (outbound4 ACK)
       (snd (oxidrop wire_net ref_kern 5 6 (inbound4 FIN) m))))) sample_key4 =
     Some \<lparr>als_action = Allow, last_seen = 7\<rparr>"
proof -
  let ?m = "sample_maps\<lparr>ALLOW_LIST_V4 := [(sample_key4, \<lparr>als_action = Deny, last_seen = 0\<rparr>)]\<rparr>"
  let ?m1 = "snd (oxidrop wire_net ref_kern 5 6 (inbound4 FIN) ?m)"
  have c: "current_config ?m = sample_config" by (simp add: current_config_def)
  note dir = sample_direction(1) [OF c, of FIN]
  have "v4_only ?m ?m1"
    using oxidrop_v4_snd [OF sample_arm_v4(1) [OF c, of FIN], unfolded dir, OF sample_parse_v4(2)]
      filter_v4_frame by simp
  then have c1: "current_config ?m1 = sample_config"
    by (simp add: current_config_def v4_only_fields)
  have "map_of (ALLOW_LIST_V4 (snd (oxidrop wire_net ref_kern 7 8 (outbound4 ACK) ?m1))) sample_key4 =
      Some \<lparr>als_action = Allow, last_seen = 7\<rparr>"
    by (rule fin_lifts_deny [OF kern_ok_ref sample_arm_v4(1) [OF c] dir sample_parse_v4(2) _ _ refl
          sample_arm_v4(2) [OF c1] sample_direction(2) [OF c1] sample_parse_v4(3)])
      (simp_all add: c subnet_denies_v4_def lru_put_def)
  then show ?thesis by (intro exI [of _ ?m]) simp
qed

section \<open>EtherTypes\<close>

text \<open>
  The protocol flags decide the frames outside IP, except two kinds: an ARP frame and a frame
  of an EtherType that has no flag always pass, whatever the configuration allows. No such frame
  changes a map.
\<close>

theorem non_ip_frames:
  assumes "packet_ether_type N ctx = Some et" and "et \<noteq> EtIpv4" and "et \<noteq> EtIpv6"
  shows "oxidrop N K t1 t2 ctx m =
    (Some (if et = EtArp \<or> (\<exists>t. et = EtOther t) \<or>
              flags_contains (protocol_allowed (current_config m)) (activater_from_ether_type et)
           then XDP_PASS else XDP_DROP), m)"
  using assms
  by (cases et) (auto simp: oxidrop_def xdp_firewall_def packet_ether_type_def Let_def
      simp del: read_hdr_Inl split: sum.splits)

theorem non_ip_frames_witness:
  "fst (oxidrop wire_net ref_kern 5 6 (bare_frame [0x89, 0x06])
     (sample_maps\<lparr>CONFIG := Some (sample_config\<lparr>protocol_allowed := 0\<rparr>)\<rparr>)) = Some XDP_PASS"
proof -
  have "packet_ether_type wire_net (bare_frame [0x89, 0x06]) = Some (EtOther 0x8906)"
    by (simp add: packet_ether_type_def bare_frame_def sample_parsing wire_ether_type_def)
  from non_ip_frames [OF this] show ?thesis by simp
qed

text \<open>A configuration with other protocol flags.\<close>

definition with_protocols :: "u16 \<Rightarrow> maps \<Rightarrow> maps" where
  "with_protocols flags m = m\<lparr>CONFIG := Some (current_config m\<lparr>protocol_allowed := flags\<rparr>)\<rparr>"

lemma with_protocols_sel [simp]:
  "current_config (with_protocols flags m) = current_config m\<lparr>protocol_allowed := flags\<rparr>"
  "ALLOW_LIST_V6 (with_protocols flags m) = ALLOW_LIST_V6 m"
  "PACKET_COUNTS_V6 (with_protocols flags m) = PACKET_COUNTS_V6 m"
  "SUBNET_MATCHING_V6 (with_protocols flags m) = SUBNET_MATCHING_V6 m"
  by (simp_all add: with_protocols_def) (simp add: current_config_def)

lemma packet_direction_with_protocols [simp]:
  "packet_direction ctx (with_protocols flags m) = packet_direction ctx m"
  by (simp add: packet_direction_def traffic_direction_def)

lemma active_profile_protocols [simp]:
  "active_profile (c\<lparr>protocol_allowed := flags\<rparr>) proto = active_profile c proto"
  by (simp add: active_profile_def)

lemma redirect_or_pass_protocols [simp]:
  "redirect_or_pass K (c\<lparr>protocol_allowed := flags\<rparr>) dir = redirect_or_pass K c dir"
  by (simp add: redirect_or_pass_def redirect_target_def cong: trafic_direction.case_cong)

lemma fst_oxidrop_parse_error:
  assumes "packet_ether_type N ctx = Some EtIpv6" and "parse_v6 N ctx (packet_direction ctx m) = Inl e"
  shows "fst (oxidrop N K t1 t2 ctx m) =
    (case e of Fw OutOfBounds \<Rightarrow> Some XDP_ABORTED | Fw _ \<Rightarrow> Some XDP_DROP | MemFault \<Rightarrow> None)"
proof -
  have "xdp_firewall N K t1 t2 ctx m = (Inl e, m)"
    using assms by (auto simp: xdp_firewall_def packet_ether_type_def packet_direction_def
        xdp_ipv6_def Let_def simp del: read_hdr_Inl split: sum.splits)
  then show ?thesis by (auto simp: oxidrop_def split: xdp_stop.split firewall_error.split)
qed

text \<open>
  The IPv6 protocol flag has no effect: the verdict on an IPv6 packet is the same under every
  value of \<open>protocol_allowed\<close>, also when IPv6 is not among the allowed protocols.
\<close>

theorem ipv6_flag_has_no_effect:
  assumes "packet_ether_type N ctx = Some EtIpv6"
  shows "fst (oxidrop N K t1 t2 ctx (with_protocols flags m)) = fst (oxidrop N K t1 t2 ctx m)"
proof (cases "parse_v6 N ctx (packet_direction ctx m)")
  case (Inl e)
  then show ?thesis
    using fst_oxidrop_parse_error [OF assms, of m e]
      fst_oxidrop_parse_error [OF assms, of "with_protocols flags m" e] by simp
next
  case (Inr x)
  obtain key ext proto fin where x: "x = (key, ext, proto, fin)" by (cases x)
  show ?thesis
    using oxidrop_v6_fst [OF assms Inr, of K t1 t2]
      oxidrop_v6_fst [OF assms, of "with_protocols flags m" x K t1 t2] Inr
    by (simp add: x filter_v6_verdict admits_def Let_def cong: if_cong)
qed

theorem ipv6_flag_has_no_effect_witness:
  "fst (oxidrop wire_net ref_kern 5 6 (outbound6 ACK) (with_protocols 0 sample_maps)) =
     fst (oxidrop wire_net ref_kern 5 6 (outbound6 ACK) sample_maps) \<and>
   \<not> flags_contains (protocol_allowed (current_config (with_protocols 0 sample_maps))) IPV6"
  using ipv6_flag_has_no_effect [OF sample_ether_type(4), of ref_kern 5 6 ACK 0 sample_maps]
  by (simp add: flags_contains_def activater_defs)

section \<open>The walk over IPv6 extension headers\<close>

text \<open>The length of an extension header, from its second byte, by RFC 8200 and RFC 4302.\<close>

definition ext_header_len :: "ip_proto \<Rightarrow> u8 \<Rightarrow> nat option" where
  "ext_header_len proto n =
     (if proto \<in> {IpHopOpt, IpIpv6Route, IpIpv6Opts} then Some ((unat n + 1) * 8)
      else if proto = IpIpv6Frag then Some 8
      else if proto = IpAh then Some ((unat n + 2) * 4)
      else None)"

definition transport :: "ip_proto set" where
  "transport = {IpTcp, IpUdp, IpIpv6Icmp}"

text \<open>\<open>k\<close> extension headers lead from one offset and protocol to another.\<close>

inductive ext_chain ::
    "net \<Rightarrow> xdp_ctx \<Rightarrow> nat \<Rightarrow> nat \<Rightarrow> ip_proto \<Rightarrow> nat \<Rightarrow> ip_proto \<Rightarrow> bool" for N ctx where
  chain_here: "ext_chain N ctx 0 off proto off proto"
| chain_next: "ext_chain N ctx (Suc k) off proto off' proto'"
  if "read_hdr ctx 2 off = Inr ext" and "ext_header_len proto (ext ! 1) = Some len"
    and "proto_from_u8 N (ext ! 0) = Some q" and "ext_chain N ctx k (off + len) q off' proto'"

inductive_simps ext_chain_0: "ext_chain N ctx 0 off proto off' proto'"
inductive_simps ext_chain_Suc: "ext_chain N ctx (Suc k) off proto off' proto'"

lemma chain_transport:
  "proto \<in> transport \<Longrightarrow>
   ext_chain N ctx k off proto off' proto' \<longleftrightarrow> k = 0 \<and> off' = off \<and> proto' = proto"
  by (cases k) (auto simp: ext_chain_0 ext_chain_Suc transport_def ext_header_len_def)

lemma walk_Suc:
  "walk_headers N ctx (Suc n) off proto =
     (if proto \<in> transport then Inr (off, proto, True)
      else if ext_header_len proto 0 = None then Inr (off, proto, False)
      else result_bind (read_hdr ctx 2 off) (\<lambda>ext.
        case proto_from_u8 N (ext ! 0) of
          None \<Rightarrow> Inr (off, proto, False)
        | Some q \<Rightarrow> walk_headers N ctx n (off + the (ext_header_len proto (ext ! 1))) q))"
  by (auto simp: ext_header_len_def transport_def intro!: arg_cong [of _ _ "result_bind _"] ext
      split: option.split)

declare walk_headers.simps(2) [simp del]

lemma ext_header_len_None: "ext_header_len p n = None \<longleftrightarrow> ext_header_len p 0 = None"
  by (simp add: ext_header_len_def)

text \<open>
  C37: The walk finds a transport header exactly when a chain of fewer extension headers than the
  bound leads to it (with the six iterations of the program, at most five extension headers), and
  returns the offset and the protocol at the end of that chain.
\<close>

theorem walk_finds_transport:
  "walk_headers N ctx n off proto = Inr (off', proto', True) \<longleftrightarrow>
     proto' \<in> transport \<and> (\<exists>k < n. ext_chain N ctx k off proto off' proto')"
proof (induction n arbitrary: off proto)
  case (Suc n)
  show ?case
  proof (cases "proto \<in> transport")
    case True
    then have "(\<exists>k < Suc n. ext_chain N ctx k off proto off' proto') \<longleftrightarrow> off' = off \<and> proto' = proto"
      by (auto simp: chain_transport)
    with True show ?thesis by (auto simp: walk_Suc)
  next
    case False
    have "(\<exists>k < Suc n. ext_chain N ctx k off proto off' proto') \<longleftrightarrow>
        off' = off \<and> proto' = proto \<or> (\<exists>k < n. ext_chain N ctx (Suc k) off proto off' proto')"
      by (auto simp: ext_chain_0 less_Suc_eq_0_disj)
    then have chain: "proto' \<in> transport \<and> (\<exists>k < Suc n. ext_chain N ctx k off proto off' proto') \<longleftrightarrow>
        proto' \<in> transport \<and> (\<exists>k < n. ext_chain N ctx (Suc k) off proto off' proto')"
      using False by blast
    show ?thesis
    proof (cases "ext_header_len proto 0 = None")
      case True
      then have "ext_header_len proto b = None" for b by (simp add: ext_header_len_None [of _ b])
      with False True show ?thesis unfolding chain by (simp add: walk_Suc ext_chain_Suc)
    next
      case ne: False
      define f where "f b = the (ext_header_len proto b)" for b
      have f: "ext_header_len proto b = Some (f b)" for b
        using ne ext_header_len_None [of proto b] by (simp add: f_def)
      show ?thesis
        unfolding chain using False
        by (cases "read_hdr ctx 2 off"; cases "proto_from_u8 N (projr (read_hdr ctx 2 off) ! 0)")
          (simp_all add: walk_Suc ext_chain_Suc f Suc.IH del: read_hdr_Inl)
    qed
  qed
qed simp

lemma ext_header_len_le: "ext_header_len proto n = Some len \<Longrightarrow> len \<le> 2048"
  using unsigned_less [of n, where 'a = nat] by (auto simp: ext_header_len_def split: if_splits)

text \<open>
  The offset of the walk only moves forward, by at most 2048 bytes per iteration, whatever the
  packet: its six iterations stay within 12288 bytes of the start, so offsets cannot overflow.
\<close>

theorem walk_offset_bound:
  assumes "walk_headers N ctx n off proto = Inr (off', proto', found)"
  shows "off \<le> off' \<and> off' \<le> off + n * 2048"
  using assms
proof (induction n arbitrary: off proto)
  case (Suc n)
  show ?case
  proof (cases "off' = off")
    case False
    with Suc.prems obtain ext q where
      *: "walk_headers N ctx n (off + the (ext_header_len proto (ext ! 1))) q = Inr (off', proto', found)"
      and "ext_header_len proto 0 \<noteq> None"
      unfolding walk_Suc by (auto split: option.splits if_splits)
    then have "the (ext_header_len proto (ext ! 1)) \<le> 2048"
      by (metis ext_header_len_None ext_header_len_le option.exhaust_sel)
    with Suc.IH [OF *] show ?thesis by simp
  qed simp
qed simp

theorem walk_offset_bound_witness: "(54 :: nat) \<le> 62 \<and> (62 :: nat) \<le> 54 + 6 * 2048"
  using walk_offset_bound [OF sample_walk(1)] by simp

end
