(* ===== verification/Lifecycle.thy ===== *)
theory Lifecycle
  imports Config_Handlers Map_Handlers Subnet_Handlers Flow_Sessions
begin

text \<open>
  What the backend does outside requests (oxidrop/src/main.rs): the start, which rebuilds the maps of
  a freshly loaded eBPF program from the database, and the tasks that run every ten minutes, which
  forget idle connections and prune the log. Loading the program, the session store, TLS and the
  listener are the libraries'.
\<close>

section \<open>Start\<close>

datatype startup_error =
  BootstrapFailed user_error
| ListFailed user_error
| RestoreFailed string
| LoadFailed sql_error
| SetFailed
| PersistFailed sql_error

text \<open>One insertion for each rule, stopping at the first that fails.\<close>

fun restore_rules :: "(lpm \<Rightarrow> lpm_key \<Rightarrow> action \<Rightarrow> lpm option) \<Rightarrow> (lpm_key \<times> action) list \<Rightarrow> lpm \<Rightarrow> lpm option" where
  "restore_rules ins [] t = Some t"
| "restore_rules ins ((key, action) # rules) t =
     (case ins t key action of None \<Rightarrow> None | Some t' \<Rightarrow> restore_rules ins rules t')"

definition restore_subnets :: "env \<Rightarrow> maps \<Rightarrow> database \<Rightarrow> (startup_error, maps) result" where
  "restore_subnets env m d =
     result_bind (case list_subnet_v4 (e_faults env) d of Inl e \<Rightarrow> Inl (ListFailed e) | Inr xs \<Rightarrow> Inr xs) (\<lambda>rules4.
     result_bind (ok_or (RestoreFailed ''Failed to restore IPv4 subnet rule'')
       (restore_rules (lpm_ins_v4 (e_kern env))
         (map (\<lambda>(network, prefix_len, action). ((prefix_len, to_be_bytes32 network), action)) rules4)
         (SUBNET_MATCHING_V4 m))) (\<lambda>t4.
     result_bind (case list_subnet_v6 (e_faults env) d of Inl e \<Rightarrow> Inl (ListFailed e) | Inr xs \<Rightarrow> Inr xs) (\<lambda>rules6.
     result_bind (ok_or (RestoreFailed ''Failed to restore IPv6 subnet rule'')
       (restore_rules (lpm_ins_v6 (e_kern env))
         (map (\<lambda>(network, prefix_len, action). ((prefix_len, ipv6_network_bytes network), action)) rules6)
         (SUBNET_MATCHING_V6 m))) (\<lambda>t6.
     Inr (m\<lparr>SUBNET_MATCHING_V4 := t4, SUBNET_MATCHING_V6 := t6\<rparr>)))))"

text \<open>The persisted configuration, or the default with the adapters of the command line.\<close>

definition initial_config :: "u32 option \<Rightarrow> u32 option \<Rightarrow> firewall_config option \<Rightarrow> firewall_config" where
  "initial_config opt_incoming opt_output persisted =
     (case persisted of
        Some cfg \<Rightarrow> cfg
      | None \<Rightarrow> firewall_config_default\<lparr>incoming_ethernet_adapter := opt_incoming,
                                         output_ethernet_adapter := opt_output\<rparr>)"

text \<open>
  From the loaded program \<open>e\<close>, its maps \<open>m\<close> and the database to the running server; a failure to
  attach is only traced. On an error the process ends; what is left is the database.
\<close>

definition startup ::
    "env \<Rightarrow> u32 option \<Rightarrow> u32 option \<Rightarrow> ebpf_programm \<Rightarrow> maps \<Rightarrow> database \<Rightarrow>
     (startup_error \<times> database, server) result" where
  "startup env opt_incoming opt_output e m d =
     (case bootstrap_default_admin (e_services env) (e_faults env) (e_salt env) (e_now env) d of
        (Inl err, d1) \<Rightarrow> Inl (BootstrapFailed err, d1)
      | (Inr _, d1) \<Rightarrow>
          (case restore_subnets env m d1 of
             Inl err \<Rightarrow> Inl (err, d1)
           | Inr m1 \<Rightarrow>
               (case load_firewall_config (e_faults env) d1 of
                  Inl err \<Rightarrow> Inl (LoadFailed err, d1)
                | Inr persisted \<Rightarrow>
                    let cfg = initial_config opt_incoming opt_output persisted in
                    case config_set env cfg \<lparr>s_db = d1, s_feed = [], s_maps = m1, s_ebpf = Some e\<rparr> of
                      None \<Rightarrow> Inl (SetFailed, d1)
                    | Some s1 \<Rightarrow>
                        (case save_config env cfg (snd (ebpf_reboot env cfg e s1)) of
                           (Inl err, s2) \<Rightarrow> Inl (PersistFailed err, s_db s2)
                         | (Inr _, s2) \<Rightarrow>
                             Inr (log_event env ''INFO'' ''Application started'' (Some ''system'') s2)))))"

section \<open>Periodic tasks\<close>

text \<open>\<open>clock_gettime(Monotonic)\<close> in nanoseconds, in \<open>u64\<close> arithmetic.\<close>

definition get_bpf_ktime_ns :: "int \<Rightarrow> int \<Rightarrow> u64" where
  "get_bpf_ktime_ns tv_sec tv_nsec = word_of_int tv_sec * 1000000000 + word_of_int tv_nsec"

definition TIMEOUT_NS :: u64 where "TIMEOUT_NS = 10 * 60 * 1000000000"

definition expired_keys :: "u64 \<Rightarrow> ('k, allow_list_state) kmap \<Rightarrow> 'k list" where
  "expired_keys now m = map fst (filter (\<lambda>(key, state). TIMEOUT_NS < saturating_sub now (last_seen state)) m)"

text \<open>One tick of \<open>spawn_cleanup_connection_map_after_10_minutes\<close>.\<close>

definition cleanup_connections :: "u64 \<Rightarrow> server \<Rightarrow> server" where
  "cleanup_connections now s =
     (let m = s_maps s;
          v4 = del_keys (expired_keys now (ALLOW_LIST_V4 m)) (ALLOW_LIST_V4 m);
          v6 = del_keys (expired_keys now (ALLOW_LIST_V6 m)) (ALLOW_LIST_V6 m)
      in s\<lparr>s_maps := m\<lparr>ALLOW_LIST_V4 := v4, ALLOW_LIST_V6 := v6\<rparr>\<rparr>)"

text \<open>One tick of \<open>LogStore::prune_periodically\<close>.\<close>

definition prune_tick :: "bool \<Rightarrow> server \<Rightarrow> server" where
  "prune_tick stmt_fails s = s\<lparr>s_db := prune_logs stmt_fails MAX_PERSISTED_LOGS (s_db s)\<rparr>"

section \<open>Facts\<close>

lemma map_of_cleanup:
  assumes "kmap_wf m"
  shows "map_of (del_keys (expired_keys now m) m) k =
    (case map_of m k of
       None \<Rightarrow> None
     | Some st \<Rightarrow> if TIMEOUT_NS < saturating_sub now (last_seen st) then None else Some st)"
proof (cases "map_of m k")
  case None
  then show ?thesis by (simp add: map_simps)
next
  case (Some st)
  have "k \<in> set (expired_keys now m) \<longleftrightarrow> TIMEOUT_NS < saturating_sub now (last_seen st)"
  proof
    assume "k \<in> set (expired_keys now m)"
    then obtain st' where "(k, st') \<in> set m" "TIMEOUT_NS < saturating_sub now (last_seen st')"
      by (auto simp: expired_keys_def)
    moreover from this(1) assms have "map_of m k = Some st'" by (simp add: kmap_wf_def)
    ultimately show "TIMEOUT_NS < saturating_sub now (last_seen st)" using Some by simp
  next
    assume "TIMEOUT_NS < saturating_sub now (last_seen st)"
    with map_of_SomeD [OF Some] show "k \<in> set (expired_keys now m)"
      by (force simp: expired_keys_def)
  qed
  with Some show ?thesis by (simp add: map_simps)
qed

text \<open>The same on natural numbers: ten minutes are six hundred thousand million nanoseconds.\<close>

lemma timeout_nat: "TIMEOUT_NS < saturating_sub now seen \<longleftrightarrow> unat seen + 600000000000 < unat now"
  by (simp add: word_less_nat_alt TIMEOUT_NS_def) arith

lemma map_of_cleanup_nat:
  assumes "kmap_wf m"
  shows "map_of (del_keys (expired_keys now m) m) k =
    (case map_of m k of
       None \<Rightarrow> None
     | Some st \<Rightarrow> if unat now \<le> unat (last_seen st) + 600000000000 then Some st else None)"
  by (cases "map_of m k") (simp_all add: map_of_cleanup [OF assms] timeout_nat)

lemma cleanup_ok: "server_ok s \<Longrightarrow> server_ok (cleanup_connections now s)"
  by (auto simp: cleanup_connections_def server_ok_def tables_ok_def Let_def)

lemma prune_ok: "server_ok s \<Longrightarrow> server_ok (prune_tick f s)"
  by (auto simp: prune_tick_def prune_logs_def server_ok_def db_ok_def subnet_ok_v4_def subnet_ok_v6_def
      unique_key_def distinct_map_filter Let_def)

lemma restore_rules_table:
  assumes "\<And>t key a t'. ins t key a = Some t' \<Longrightarrow> map_of t' = (map_of t)(key_prefix key \<mapsto> a)"
    and "restore_rules ins rules t = Some t'"
  shows "map_of t' = map_of t ++ map_of (rev (map (\<lambda>(key, a). (key_prefix key, a)) rules))"
  using assms(2)
proof (induction rules arbitrary: t)
  case (Cons r rules)
  obtain key a where r: "r = (key, a)" by (cases r)
  obtain t1 where t1: "ins t key a = Some t1" "restore_rules ins rules t1 = Some t'"
    using Cons.prems by (auto simp: r split: option.splits)
  show ?case
    using Cons.IH [OF t1(2)] assms(1) [OF t1(1)] by (simp add: r map_add_def fun_eq_iff split: option.split)
qed simp

text \<open>No two rules of a table share their prefix bits.\<close>

definition no_overlap :: "('k \<Rightarrow> bool list) \<Rightarrow> ('k \<Rightarrow> action option) \<Rightarrow> bool" where
  "no_overlap pre tbl \<longleftrightarrow> (\<forall>k k'. tbl k \<noteq> None \<longrightarrow> tbl k' \<noteq> None \<longrightarrow> pre k = pre k' \<longrightarrow> k = k')"

lemma map_of_rev_not_None: "map_of (rev l) q \<noteq> None \<longleftrightarrow> (\<exists>a. (q, a) \<in> set l)"
proof -
  have "map_of (rev l) q \<noteq> None \<longleftrightarrow> q \<in> fst ` set (rev l)" by (simp only: map_of_eq_None_iff not_not)
  also have "\<dots> \<longleftrightarrow> (\<exists>a. (q, a) \<in> set l)" by force
  finally show ?thesis .
qed

lemma restored_in_step:
  assumes "\<And>t key a t'. ins t key a = Some t' \<Longrightarrow> map_of t' = (map_of t)(key_prefix key \<mapsto> a)"
    and "restore_rules ins (map (\<lambda>(n, p, a). ((p, bytes n), a)) xs) [] = Some t"
    and "lists_table xs tbl" and "pre = (\<lambda>(n, p). key_prefix (p, bytes n))"
  shows "(map_of t q \<noteq> None \<longleftrightarrow> (\<exists>k. tbl k \<noteq> None \<and> pre k = q)) \<and>
    (no_overlap pre tbl \<longrightarrow> in_step pre tbl t)"
proof -
  let ?ys = "map (\<lambda>(n, p, a). (pre (n, p), a)) xs"
  have ys: "map (\<lambda>(key, a). (key_prefix key, a)) (map (\<lambda>(n, p, a). ((p, bytes n), a)) xs) = ?ys"
    by (simp add: assms(4) case_prod_unfold comp_def)
  have t: "map_of t = map_of (rev ?ys)"
    using restore_rules_table [OF assms(1,2)] unfolding ys by simp
  have mem: "(q, a) \<in> set ?ys \<longleftrightarrow> (\<exists>k. tbl k = Some a \<and> pre k = q)" for q a
    using assms(3) by (force simp: lists_table_def)
  have "in_step pre tbl t" if no: "no_overlap pre tbl"
  proof -
    have "distinct (map fst ?ys)"
    proof -
      have "map fst ?ys = map pre (map (\<lambda>(n, p, a). (n, p)) xs)"
        by (simp add: case_prod_unfold comp_def)
      moreover have "inj_on pre (set (map (\<lambda>(n, p, a). (n, p)) xs))"
        using no assms(3) by (force simp: inj_on_def no_overlap_def lists_table_def)
      moreover have "distinct (map (\<lambda>(n, p, a). (n, p)) xs)"
        using assms(3) by (simp add: lists_table_def)
      ultimately show ?thesis by (simp only: distinct_map)
    qed
    then have "distinct (map fst (rev ?ys))" by (simp only: rev_map [symmetric] distinct_rev)
    then have "map_of (rev ?ys) q = Some a \<longleftrightarrow> (q, a) \<in> set ?ys" for q a
      by (simp only: map_of_eq_Some_iff set_rev)
    then show ?thesis unfolding in_step_def t mem by blast
  qed
  moreover have "map_of t q \<noteq> None \<longleftrightarrow> (\<exists>k. tbl k \<noteq> None \<and> pre k = q)"
    unfolding t map_of_rev_not_None mem by auto
  ultimately show ?thesis by blast
qed

section \<open>Properties\<close>

lemma config_wf_adapters [simp]:
  "config_wf (c\<lparr>incoming_ethernet_adapter := i, output_ethernet_adapter := o'\<rparr>) = config_wf c"
  by (simp add: config_wf_def profiles_def)

lemma initial_config_wf:
  assumes "load_firewall_config flt d = Inr persisted"
  shows "config_wf (initial_config oi oo persisted)"
proof (cases persisted)
  case None
  then show ?thesis by (simp add: initial_config_def config_wf_default)
next
  case (Some c)
  with assms row_to_config_wf show ?thesis
    by (auto simp: initial_config_def load_firewall_config_def split: if_splits option.splits)
qed

text \<open>The stages of a start that succeeds.\<close>

lemma startup_Inr:
  assumes "startup env oi oo e m d = Inr s"
  obtains d1 m1 persisted s1 d2
  where "bootstrap_default_admin (e_services env) (e_faults env) (e_salt env) (e_now env) d = (Inr (), d1)"
    and "restore_subnets env m d1 = Inr m1"
    and "load_firewall_config (e_faults env) d1 = Inr persisted"
    and "config_set env (initial_config oi oo persisted)
           \<lparr>s_db = d1, s_feed = [], s_maps = m1, s_ebpf = Some e\<rparr> = Some s1"
    and "save_firewall_config (e_faults env) (initial_config oi oo persisted) d1 = (Inr (), d2)"
    and "s = log_event env ''INFO'' ''Application started'' (Some ''system'')
           (snd (ebpf_reboot env (initial_config oi oo persisted) e s1)\<lparr>s_db := d2\<rparr>)"
proof -
  have db: "s_db (snd (ebpf_reboot env cfg e s1)) = s_db s1" for cfg s1
    by (simp add: ebpf_reboot_def split: prod.split)
  have set_db: "s_db s1 = s_db s0" if "config_set env cfg s0 = Some s1" for cfg s0 s1
    using that by (auto simp: config_set_def split: if_splits)
  obtain d1 m1 persisted s1 d2 where
    "bootstrap_default_admin (e_services env) (e_faults env) (e_salt env) (e_now env) d = (Inr (), d1)"
    "restore_subnets env m d1 = Inr m1" "load_firewall_config (e_faults env) d1 = Inr persisted"
    and set: "config_set env (initial_config oi oo persisted)
       \<lparr>s_db = d1, s_feed = [], s_maps = m1, s_ebpf = Some e\<rparr> = Some s1"
    and save: "save_firewall_config (e_faults env) (initial_config oi oo persisted) (s_db s1) = (Inr (), d2)"
    and "s = log_event env ''INFO'' ''Application started'' (Some ''system'')
       (snd (ebpf_reboot env (initial_config oi oo persisted) e s1)\<lparr>s_db := d2\<rparr>)"
    using assms
    by (auto simp: startup_def Let_def save_config_def db split: prod.splits sum.splits option.splits)
  moreover from save set_db [OF set]
  have "save_firewall_config (e_faults env) (initial_config oi oo persisted) d1 = (Inr (), d2)" by simp
  ultimately show thesis by (intro that)
qed

lemma restore_subnets_Inr:
  assumes "restore_subnets env m d = Inr m1"
  obtains rules4 t4 rules6 t6 where "list_subnet_v4 (e_faults env) d = Inr rules4"
    and "restore_rules (lpm_ins_v4 (e_kern env))
           (map (\<lambda>(n, p, a). ((p, to_be_bytes32 n), a)) rules4) (SUBNET_MATCHING_V4 m) = Some t4"
    and "list_subnet_v6 (e_faults env) d = Inr rules6"
    and "restore_rules (lpm_ins_v6 (e_kern env))
           (map (\<lambda>(n, p, a). ((p, ipv6_network_bytes n), a)) rules6) (SUBNET_MATCHING_V6 m) = Some t6"
    and "m1 = m\<lparr>SUBNET_MATCHING_V4 := t4, SUBNET_MATCHING_V6 := t6\<rparr>"
  using assms by (auto simp: restore_subnets_def split: sum.splits)

lemma store4_list: "subnet_ok_v4 d \<Longrightarrow> list_subnet_v4 flt d = Inr xs \<Longrightarrow> lists_table xs (subnet_table_v4 d)"
  using store4.list_ok [of d flt] store4.list_fails [of flt d] by (cases "flt ListSubnetV4") auto

lemma store6_list: "subnet_ok_v6 d \<Longrightarrow> list_subnet_v6 flt d = Inr xs \<Longrightarrow> lists_table xs (subnet_table_v6 d)"
  using store6.list_ok [of d flt] store6.list_fails [of flt d] by (cases "flt ListSubnetV6") auto

lemma restored_tries:
  assumes "env_ok env" and "subnet_ok_v4 d" and "subnet_ok_v6 d"
    and "SUBNET_MATCHING_V4 m = []" and "SUBNET_MATCHING_V6 m = []" and "restore_subnets env m d = Inr m1"
  shows "no_overlap prefix_v4 (subnet_table_v4 d) \<Longrightarrow> in_step prefix_v4 (subnet_table_v4 d) (SUBNET_MATCHING_V4 m1)"
    and "no_overlap prefix_v6 (subnet_table_v6 d) \<Longrightarrow> in_step prefix_v6 (subnet_table_v6 d) (SUBNET_MATCHING_V6 m1)"
    and "\<exists>t4 t6. m1 = m\<lparr>SUBNET_MATCHING_V4 := t4, SUBNET_MATCHING_V6 := t6\<rparr>"
proof -
  obtain rules4 t4 rules6 t6 where r: "list_subnet_v4 (e_faults env) d = Inr rules4"
    "restore_rules (lpm_ins_v4 (e_kern env)) (map (\<lambda>(n, p, a). ((p, to_be_bytes32 n), a)) rules4) [] = Some t4"
    "list_subnet_v6 (e_faults env) d = Inr rules6"
    "restore_rules (lpm_ins_v6 (e_kern env)) (map (\<lambda>(n, p, a). ((p, ipv6_network_bytes n), a)) rules6) [] = Some t6"
    and m1: "m1 = m\<lparr>SUBNET_MATCHING_V4 := t4, SUBNET_MATCHING_V6 := t6\<rparr>"
    by (rule restore_subnets_Inr [OF assms(6), unfolded assms(4,5)])
  note K = kern_okD(5,6) [OF env_okD(2) [OF assms(1)]]
  show "in_step prefix_v4 (subnet_table_v4 d) (SUBNET_MATCHING_V4 m1)"
    if "no_overlap prefix_v4 (subnet_table_v4 d)"
    using restored_in_step [OF lpm_trie.ins_table [OF K(1)] r(2) store4_list [OF assms(2) r(1)] prefix_v4_def]
      that by (simp add: m1)
  show "in_step prefix_v6 (subnet_table_v6 d) (SUBNET_MATCHING_V6 m1)"
    if "no_overlap prefix_v6 (subnet_table_v6 d)"
    using restored_in_step [OF lpm_trie.ins_table [OF K(2)] r(4) store6_list [OF assms(3) r(3)] prefix_v6_def]
      that by (simp add: m1)
  show "\<exists>t4 t6. m1 = m\<lparr>SUBNET_MATCHING_V4 := t4, SUBNET_MATCHING_V6 := t6\<rparr>" using m1 by blast
qed

lemma same_policy_tables:
  assumes "same_policy d d'"
  shows "subnet_table_v4 d' = subnet_table_v4 d" "subnet_table_v6 d' = subnet_table_v6 d"
    "load_firewall_config flt d' = load_firewall_config flt d"
  using assms by (simp_all add: same_policy_def subnet_table_v4_def subnet_table_v6_def load_firewall_config_def)

lemma startup_facts:
  assumes "env_ok env" and "db_ok d" and "tables_ok m"
    and "SUBNET_MATCHING_V4 m = []" and "SUBNET_MATCHING_V6 m = []"
    and "startup env oi oo e m d = Inr s"
  shows "server_ok s \<and> users (s_db s) \<noteq> [] \<and>
    subnet_table_v4 (s_db s) = subnet_table_v4 d \<and> subnet_table_v6 (s_db s) = subnet_table_v6 d \<and>
    (no_overlap prefix_v4 (subnet_table_v4 d) \<longrightarrow>
      in_step prefix_v4 (subnet_table_v4 d) (SUBNET_MATCHING_V4 (s_maps s))) \<and>
    (no_overlap prefix_v6 (subnet_table_v6 d) \<longrightarrow>
      in_step prefix_v6 (subnet_table_v6 d) (SUBNET_MATCHING_V6 (s_maps s))) \<and>
    (\<exists>cfg. CONFIG (s_maps s) = Some cfg \<and> load_firewall_config no_faults (s_db s) = Inr (Some cfg) \<and>
      (if firewall_config_row_1 d = None
       then cfg = firewall_config_default\<lparr>incoming_ethernet_adapter := oi, output_ethernet_adapter := oo\<rparr>
       else load_firewall_config no_faults d = Inr (Some cfg)))"
proof -
  obtain d1 m1 persisted s1 d2 where
    boot: "bootstrap_default_admin (e_services env) (e_faults env) (e_salt env) (e_now env) d = (Inr (), d1)"
    and restore: "restore_subnets env m d1 = Inr m1"
    and load: "load_firewall_config (e_faults env) d1 = Inr persisted"
    and set: "config_set env (initial_config oi oo persisted)
       \<lparr>s_db = d1, s_feed = [], s_maps = m1, s_ebpf = Some e\<rparr> = Some s1"
    and save: "save_firewall_config (e_faults env) (initial_config oi oo persisted) d1 = (Inr (), d2)"
    and s: "s = log_event env ''INFO'' ''Application started'' (Some ''system'')
       (snd (ebpf_reboot env (initial_config oi oo persisted) e s1)\<lparr>s_db := d2\<rparr>)"
    by (rule startup_Inr [OF assms(6)])
  let ?cfg = "initial_config oi oo persisted"
  have d1: "db_ok d1" "same_policy d d1"
    using bootstrap_db_ok [OF env_okD(1) [OF assms(1)] assms(2), of "e_faults env" "e_salt env" "e_now env"]
      bootstrap_policy [of d "e_services env" "e_faults env" "e_salt env" "e_now env"] boot by simp_all
  note same = same_policy_tables [OF d1(2)]
  have d2: "db_ok d2" "users d2 = users d1" "subnet_table_v4 d2 = subnet_table_v4 d1"
    "subnet_table_v6 d2 = subnet_table_v6 d1"
    using save d1(1)
    by (auto simp: save_firewall_config_def subnet_table_v4_def subnet_table_v6_def
        split: sum.splits if_splits)
  have wf: "config_wf ?cfg" by (rule initial_config_wf [OF load])
  obtain t4 t6 where m1: "m1 = m\<lparr>SUBNET_MATCHING_V4 := t4, SUBNET_MATCHING_V6 := t6\<rparr>"
    using restore restored_tries(3) [OF assms(1) _ _ assms(4,5) restore] d1(1) by (auto simp: db_ok_def)
  obtain r e1 where re: "reboot (e_xdp_ok env) (e_attach env) ?cfg e = (r, e1)" by fastforce
  have s1: "s1 = \<lparr>s_db = d1, s_feed = [], s_maps = m1\<lparr>CONFIG := Some ?cfg\<rparr>, s_ebpf = Some e\<rparr>"
    using set by (auto simp: config_set_def split: if_splits)
  have s2: "snd (ebpf_reboot env ?cfg e s1)\<lparr>s_db := d2\<rparr> =
      \<lparr>s_db = d2, s_feed = [], s_maps = m1\<lparr>CONFIG := Some ?cfg\<rparr>, s_ebpf = Some e1\<rparr>"
    by (simp add: ebpf_reboot_def re s1)
  have "server_ok \<lparr>s_db = d2, s_feed = [], s_maps = m1\<lparr>CONFIG := Some ?cfg\<rparr>, s_ebpf = Some e1\<rparr>"
    using d2(1) assms(3) wf reboot_links_ok [OF re]
    by (simp add: server_ok_def tables_ok_def live_ok_def m1)
  then have ok: "server_ok s" unfolding s s2 by (rule log_event_ok [OF env_okD(1) [OF assms(1)]])
  have fields: "users (s_db s) = users d1" "subnet_table_v4 (s_db s) = subnet_table_v4 d"
    "subnet_table_v6 (s_db s) = subnet_table_v6 d" "CONFIG (s_maps s) = Some ?cfg"
    "SUBNET_MATCHING_V4 (s_maps s) = SUBNET_MATCHING_V4 m1" "SUBNET_MATCHING_V6 (s_maps s) = SUBNET_MATCHING_V6 m1"
    using d2(2-4) same by (simp_all add: s s2 subnet_table_v4_def subnet_table_v6_def)
  have users: "users d1 \<noteq> []" by (rule bootstrap_nonempty [OF boot])
  have stored: "load_firewall_config no_faults (s_db s) = Inr (Some ?cfg)"
    by (rule load_of_saved [OF wf save]) (simp add: s s2)
  have "if firewall_config_row_1 d = None
      then ?cfg = firewall_config_default\<lparr>incoming_ethernet_adapter := oi, output_ethernet_adapter := oo\<rparr>
      else load_firewall_config no_faults d = Inr (Some ?cfg)"
    using load d1(2)
    by (auto simp: load_firewall_config_def initial_config_def same_policy_def
        split: if_splits option.splits)
  then have cfg: "\<exists>cfg. CONFIG (s_maps s) = Some cfg \<and> load_firewall_config no_faults (s_db s) = Inr (Some cfg) \<and>
      (if firewall_config_row_1 d = None
       then cfg = firewall_config_default\<lparr>incoming_ethernet_adapter := oi, output_ethernet_adapter := oo\<rparr>
       else load_firewall_config no_faults d = Inr (Some cfg))"
    using stored fields(4) by blast
  have "no_overlap prefix_v4 (subnet_table_v4 d) \<longrightarrow>
      in_step prefix_v4 (subnet_table_v4 d) (SUBNET_MATCHING_V4 (s_maps s))"
    "no_overlap prefix_v6 (subnet_table_v6 d) \<longrightarrow>
      in_step prefix_v6 (subnet_table_v6 d) (SUBNET_MATCHING_V6 (s_maps s))"
    using restored_tries(1,2) [OF assms(1) _ _ assms(4,5) restore] d1(1)
    by (simp_all add: fields same db_ok_def)
  with ok users fields(1-3) cfg show ?thesis by simp
qed

lemmas startup_server_ok = startup_facts [THEN conjunct1]

text \<open>
  C8: A start rebuilds the firewall from the database: when it succeeds, the subnet rules are the
  stored ones (in the tries too, while no two share their prefix bits), the live configuration is the
  persisted one, or on the first start the default with the adapters of the command line, and from
  then on it is persisted; there is an account; and the server is well-formed.
\<close>

theorem startup_restores:
  assumes "env_ok env" and "db_ok d" and "tables_ok m"
    and "SUBNET_MATCHING_V4 m = []" and "SUBNET_MATCHING_V6 m = []"
    and "startup env oi oo e m d = Inr s"
  shows "server_ok s \<and> users (s_db s) \<noteq> [] \<and>
    subnet_table_v4 (s_db s) = subnet_table_v4 d \<and> subnet_table_v6 (s_db s) = subnet_table_v6 d \<and>
    (no_overlap prefix_v4 (subnet_table_v4 d) \<longrightarrow>
      in_step prefix_v4 (subnet_table_v4 d) (SUBNET_MATCHING_V4 (s_maps s))) \<and>
    (no_overlap prefix_v6 (subnet_table_v6 d) \<longrightarrow>
      in_step prefix_v6 (subnet_table_v6 d) (SUBNET_MATCHING_V6 (s_maps s))) \<and>
    (\<exists>cfg. CONFIG (s_maps s) = Some cfg \<and> load_firewall_config no_faults (s_db s) = Inr (Some cfg) \<and>
      (if firewall_config_row_1 d = None
       then cfg = firewall_config_default\<lparr>incoming_ethernet_adapter := oi, output_ethernet_adapter := oo\<rparr>
       else load_firewall_config no_faults d = Inr (Some cfg)))"
  by (rule startup_facts [OF assms])

lemma sample_startup:
  obtains s where "startup ref_env (Some 2) (Some 1) new_programm empty_maps empty_database = Inr s"
proof -
  have "\<not> isl (startup ref_env (Some 2) (Some 1) new_programm empty_maps empty_database)"
    by (simp add: startup_def bootstrap_default_admin_def create_default_admin_def record_log_def
        insert_log_def log_check_def ip_text_check_def port_check_def internal_insert_user_def
        hash_password_def insert_user_row_def user_check_def permissions_all_eq ref_env_def
        ref_services_def empty_database_def restore_subnets_def list_subnet_v4_def list_subnet_v6_def
        load_firewall_config_def config_set_def initial_config_def firewall_config_default_def
        ebpf_reboot_def reboot_def shut_down_working_ebpf_def attach_adapter_def new_programm_def
        save_config_def save_firewall_config_def config_to_row_def sqlite_integer_def Let_def)
  then show thesis
    by (cases "startup ref_env (Some 2) (Some 1) new_programm empty_maps empty_database") (auto intro: that)
qed

lemma empty_start: "db_ok empty_database" "tables_ok empty_maps" "SUBNET_MATCHING_V4 empty_maps = []"
    "SUBNET_MATCHING_V6 empty_maps = []"
  using sample_server_ok by (simp_all add: server_ok_def sample_server_def tables_ok_def empty_maps_def)

theorem startup_restores_witness:
  "\<exists>s. startup ref_env (Some 2) (Some 1) new_programm empty_maps empty_database = Inr s \<and>
     server_ok s \<and> users (s_db s) \<noteq> []"
proof -
  obtain s where s: "startup ref_env (Some 2) (Some 1) new_programm empty_maps empty_database = Inr s"
    by (rule sample_startup)
  from startup_restores [OF ref_env_ok empty_start s] s show ?thesis by blast
qed

text \<open>
  The periodic cleanup removes exactly the connections, allowed or denied, that no packet has
  used for more than ten minutes of the kernel's clock, and changes nothing else.
\<close>

theorem cleanup_forgets_idle:
  assumes "server_ok s"
  shows "(\<forall>k. map_of (ALLOW_LIST_V4 (s_maps (cleanup_connections now s))) k =
      (case map_of (ALLOW_LIST_V4 (s_maps s)) k of
         None \<Rightarrow> None
       | Some st \<Rightarrow> if unat now \<le> unat (last_seen st) + 600000000000 then Some st else None)) \<and>
    (\<forall>k. map_of (ALLOW_LIST_V6 (s_maps (cleanup_connections now s))) k =
      (case map_of (ALLOW_LIST_V6 (s_maps s)) k of
         None \<Rightarrow> None
       | Some st \<Rightarrow> if unat now \<le> unat (last_seen st) + 600000000000 then Some st else None)) \<and>
    (\<exists>v4 v6. cleanup_connections now s =
       s\<lparr>s_maps := (s_maps s)\<lparr>ALLOW_LIST_V4 := v4, ALLOW_LIST_V6 := v6\<rparr>\<rparr>)"
proof -
  have wf: "kmap_wf (ALLOW_LIST_V4 (s_maps s))" "kmap_wf (ALLOW_LIST_V6 (s_maps s))"
    using assms by (simp_all add: server_ok_def tables_ok_def)
  have c: "cleanup_connections now s = s\<lparr>s_maps := (s_maps s)\<lparr>
      ALLOW_LIST_V4 := del_keys (expired_keys now (ALLOW_LIST_V4 (s_maps s))) (ALLOW_LIST_V4 (s_maps s)),
      ALLOW_LIST_V6 := del_keys (expired_keys now (ALLOW_LIST_V6 (s_maps s))) (ALLOW_LIST_V6 (s_maps s))\<rparr>\<rparr>"
    by (simp add: cleanup_connections_def Let_def)
  show ?thesis
    unfolding c by (intro conjI exI) (simp_all add: map_of_cleanup_nat wf)
qed

lemma sample_config_wf: "config_wf sample_config"
  by (simp add: config_wf_def profiles_def sample_config_def DEFAULT_CONFIG_def activater_valid_def
      activater_all_eq activater_defs)

lemma sample_denying_ok:
  "server_ok (sample_filtering\<lparr>s_maps := sample_maps\<lparr>
     ALLOW_LIST_V4 := [(sample_key4, \<lparr>als_action = Deny, last_seen = 5\<rparr>)]\<rparr>\<rparr>)"
  using sample_server_ok sample_config_wf
  by (simp add: server_ok_def tables_ok_def live_ok_def sample_server_def sample_filtering_def
      sample_maps_def kmap_wf_def)

theorem cleanup_forgets_idle_witness:
  "map_of (ALLOW_LIST_V4 (s_maps (cleanup_connections 600000000006 (sample_filtering\<lparr>s_maps := sample_maps\<lparr>
     ALLOW_LIST_V4 := [(sample_key4, \<lparr>als_action = Deny, last_seen = 5\<rparr>)]\<rparr>\<rparr>)))) sample_key4 = None"
  using cleanup_forgets_idle [OF sample_denying_ok, of 600000000006] by simp

text \<open>
  A denied flow does not stay denied: when no packet has refreshed the entry for ten minutes, the
  cleanup removes it, and the next outgoing packet of the flow, which its subnet allows, replaces it
  by an allowed entry.
\<close>

theorem deny_expires:
  assumes "env_ok env" and "server_ok s" and "s' = cleanup_connections now s"
    and "map_of (ALLOW_LIST_V4 (s_maps s)) key = Some \<lparr>als_action = Deny, last_seen = seen\<rparr>"
    and "unat seen + 600000000000 < unat now"
    and "arm_v4 N ctx (s_maps s')" and "packet_direction ctx (s_maps s') = Outgoing"
    and "parse_v4 N ctx Outgoing = Inr (key, ext, proto, False)"
    and "\<not> subnet_denies_v4 (e_kern env) (current_config (s_maps s')) (s_maps s') ext"
    and "ins_allow_v4 (e_kern env) (ALLOW_LIST_V4 (s_maps s')) key \<lparr>als_action = Allow, last_seen = t1\<rparr> \<noteq> None"
  shows "map_of (ALLOW_LIST_V4 (s_maps s')) key = None \<and>
    map_of (ALLOW_LIST_V4 (snd (oxidrop N (e_kern env) t1 t2 ctx (s_maps s')))) key =
      Some \<lparr>als_action = Allow, last_seen = t1\<rparr>"
proof -
  have wf: "kmap_wf (ALLOW_LIST_V4 (s_maps s))" using assms(2) by (simp add: server_ok_def tables_ok_def)
  have gone: "map_of (ALLOW_LIST_V4 (s_maps s')) key = None"
    using assms(4,5) by (simp add: assms(3) cleanup_connections_def Let_def map_of_cleanup [OF wf] timeout_nat)
  moreover have "map_of (ALLOW_LIST_V4 (snd (filter_v4 (e_kern env) (current_config (s_maps s')) t1 t2
      Outgoing (key, ext, proto, False) (s_maps s')))) key = Some \<lparr>als_action = Allow, last_seen = t1\<rparr>"
    by (rule filter_v4_outgoing [OF kern_okD(1) [OF env_okD(2) [OF assms(1)]] _ assms(10,9)]) (simp add: gone)
  ultimately show ?thesis
    using oxidrop_v4_snd [OF assms(6), of "(key, ext, proto, False)"] assms(7,8) by simp
qed

theorem deny_expires_witness:
  "map_of (ALLOW_LIST_V4 (snd (oxidrop wire_net ref_kern 7 8 (outbound4 ACK) (s_maps
     (cleanup_connections 600000000006 (sample_filtering\<lparr>s_maps := sample_maps\<lparr>
        ALLOW_LIST_V4 := [(sample_key4, \<lparr>als_action = Deny, last_seen = 5\<rparr>)]\<rparr>\<rparr>)))))) sample_key4 =
   Some \<lparr>als_action = Allow, last_seen = 7\<rparr>"
proof -
  let ?m = "sample_maps\<lparr>ALLOW_LIST_V4 := [(sample_key4, \<lparr>als_action = Deny, last_seen = 5\<rparr>)]\<rparr>"
  let ?s = "sample_filtering\<lparr>s_maps := ?m\<rparr>"
  let ?s' = "cleanup_connections 600000000006 ?s"
  have K: "e_kern ref_env = ref_kern" by (simp add: ref_env_def)
  have c: "current_config (s_maps ?s') = sample_config"
    by (simp add: cleanup_connections_def Let_def current_config_def sample_filtering_def)
  show ?thesis
    using deny_expires [OF ref_env_ok sample_denying_ok refl _ _ sample_arm_v4(2) [OF c] sample_direction(2) [OF c]
        sample_parse_v4(3), of 5 7 8]
    by (simp add: K c subnet_denies_v4_def lru_put_def sample_filtering_def cleanup_connections_def Let_def)
qed

end
