(* ===== verification/Router.thy ===== *)
theory Router
  imports Api Status_Handlers Lifecycle
begin

text \<open>
  The routes and the layers around them (oxidrop/src/router.rs, \<open>config_router\<close> of
  oxidrop/src/state.rs). A request is one of the routes with its decoded input: the queries only
  read, the changes are guarded by a permission, the others belong to the session. What the session
  library answers where a user is required is an argument (\<open>e_login_required\<close>).
\<close>

datatype query =
  RoleAndPermissions | GetLogs | LogWebsocket | ListUsers
| GetConfig | GetAdapters | GetTraffic
| GetAllowListV4 | GetAllowListV6 | GetPacketCountsV4 | GetPacketCountsV6
| ListSubnetV4 | ListSubnetV6

datatype change =
  CreateUser create_user_req
| ModifyUser modify_user_req
| DeleteUser string
| RenameUser rename_user_req
| ShutdownEbpf
| RestartEbpf
| ModifyAllowListV4 ipv4_packet allow_list_state
| ClearAllowListV4 "ipv4_packet option"
| ModifyAllowListV6 ipv6_packet allow_list_state
| ClearAllowListV6 "ipv6_packet option"
| ModifyPacketCountsV4 ipv4_packet token_bucket_state
| ClearPacketCountsV4 "ipv4_packet option"
| ModifyPacketCountsV6 ipv6_packet token_bucket_state
| ClearPacketCountsV6 "ipv6_packet option"
| ModifySubnetV4 u32 u32 action
| RemoveSubnetV4 u32 u32
| ModifySubnetV6 words4 u32 action
| RemoveSubnetV6 words4 u32

datatype request =
  Login string string
| GetUser
| Logout
| ChangePassword string
| Query query
| Change change
| UpdateConfig json_patch
| Frontend string

fun handle_query :: "env \<Rightarrow> query \<Rightarrow> app_user option \<Rightarrow> server \<Rightarrow> response" where
  "handle_query env RoleAndPermissions session s = get_role_and_permissions session"
| "handle_query env GetLogs session s = get_logs env session s"
| "handle_query env LogWebsocket session s = log_websocket session"
| "handle_query env ListUsers session s = list_users env session s"
| "handle_query env GetConfig session s = get_config env s"
| "handle_query env GetAdapters session s = get_ebpf_adapters env session s"
| "handle_query env GetTraffic session s = get_traffic_stats env session s"
| "handle_query env GetAllowListV4 session s = get_allow_list_v4 env s"
| "handle_query env GetAllowListV6 session s = get_allow_list_v6 env s"
| "handle_query env GetPacketCountsV4 session s = get_packet_counts_v4 env s"
| "handle_query env GetPacketCountsV6 session s = get_packet_counts_v6 env s"
| "handle_query env ListSubnetV4 session s = list_subnet_matching_v4 env session s"
| "handle_query env ListSubnetV6 session s = list_subnet_matching_v6 env session s"

fun handle_change :: "env \<Rightarrow> change \<Rightarrow> app_user option \<Rightarrow> server \<Rightarrow> response \<times> server" where
  "handle_change env (CreateUser payload) = create_user_endpoint env payload"
| "handle_change env (ModifyUser payload) = modify_user_endpoint env payload"
| "handle_change env (DeleteUser username) = delete_user_endpoint env username"
| "handle_change env (RenameUser payload) = rename_user_endpoint env payload"
| "handle_change env ShutdownEbpf = shutdown_ebpf env"
| "handle_change env RestartEbpf = restart_ebpf env"
| "handle_change env (ModifyAllowListV4 key state) = modify_allow_list_v4 env key state"
| "handle_change env (ClearAllowListV4 payload4) = clear_allow_list_v4 env payload4"
| "handle_change env (ModifyAllowListV6 k6 state) = modify_allow_list_v6 env k6 state"
| "handle_change env (ClearAllowListV6 payload6) = clear_allow_list_v6 env payload6"
| "handle_change env (ModifyPacketCountsV4 key bucket) = modify_packet_counts_v4 env key bucket"
| "handle_change env (ClearPacketCountsV4 payload4) = clear_packet_counts_v4 env payload4"
| "handle_change env (ModifyPacketCountsV6 k6 bucket) = modify_packet_counts_v6 env k6 bucket"
| "handle_change env (ClearPacketCountsV6 payload6) = clear_packet_counts_v6 env payload6"
| "handle_change env (ModifySubnetV4 network prefix_len action) = modify_subnet_matching_v4 env network prefix_len action"
| "handle_change env (RemoveSubnetV4 network prefix_len) = remove_subnet_matching_v4 env network prefix_len"
| "handle_change env (ModifySubnetV6 n6 prefix_len action) = modify_subnet_matching_v6 env n6 prefix_len action"
| "handle_change env (RemoveSubnetV6 n6 prefix_len) = remove_subnet_matching_v6 env n6 prefix_len"

text \<open>The permission each change needs.\<close>

fun change_permission :: "change \<Rightarrow> u8" where
  "change_permission (CreateUser _) = CREATE"
| "change_permission (DeleteUser _) = DELETE"
| "change_permission (ClearAllowListV4 _) = DELETE"
| "change_permission (ClearAllowListV6 _) = DELETE"
| "change_permission (ClearPacketCountsV4 _) = DELETE"
| "change_permission (ClearPacketCountsV6 _) = DELETE"
| "change_permission (RemoveSubnetV4 _ _) = DELETE"
| "change_permission (RemoveSubnetV6 _ _) = DELETE"
| "change_permission _ = MODIFY"

section \<open>Layers\<close>

text \<open>The response, the session's user after the request, and the server.\<close>

type_synonym reply = "response \<times> app_user option \<times> server"

definition login_required :: "env \<Rightarrow> (app_user option \<Rightarrow> server \<Rightarrow> reply) \<Rightarrow> app_user option \<Rightarrow> server \<Rightarrow> reply" where
  "login_required env handle session s =
     (if session = None then (e_login_required env, session, s) else handle session s)"

definition require_completed_password_change ::
    "(app_user option \<Rightarrow> server \<Rightarrow> reply) \<Rightarrow> app_user option \<Rightarrow> server \<Rightarrow> reply" where
  "require_completed_password_change handle session s =
     (if (case session of None \<Rightarrow> False | Some user \<Rightarrow> \<not> au_password_must_be_changed user)
      then handle session s
      else ((S_FORBIDDEN, Text ''Password change required before using this service''), session, s))"

definition restricted :: "env \<Rightarrow> (app_user option \<Rightarrow> server \<Rightarrow> reply) \<Rightarrow> app_user option \<Rightarrow> server \<Rightarrow> reply" where
  "restricted env handle = login_required env (require_completed_password_change handle)"

definition unsafe_login :: "env \<Rightarrow> string \<Rightarrow> string \<Rightarrow> app_user option \<Rightarrow> server \<Rightarrow> reply" where
  "unsafe_login env username password session s =
     (case login (e_services env) (e_faults env) (e_now env) (e_login_ok env) (e_client_ip env)
             username password session (s_db s) of
        (resp, session', d') \<Rightarrow> (resp, session', s\<lparr>s_db := d'\<rparr>))"

text \<open>
  \<open>frontend_fallback\<close>: a path that is no route is a file of the frontend, or else the page that shows
  the frontend, whatever the path.
\<close>

definition frontend_fallback :: "env \<Rightarrow> string \<Rightarrow> response" where
  "frontend_fallback env uri_path =
     (let path = dropWhile (\<lambda>c. c = CHR ''/'') uri_path in
      case e_assets env path of
        Some data \<Rightarrow> (S_OK, Asset (e_mime env path) data)
      | None \<Rightarrow>
          (case e_assets env ''index.html'' of
             Some data \<Rightarrow> (S_OK, Asset (e_mime env ''index.html'') data)
           | None \<Rightarrow> (S_NOT_FOUND, Text ''frontend assets are unavailable'')))"

text \<open>\<open>unsafe_router\<close>, \<open>safe_router\<close> and the fallback.\<close>

fun route :: "env \<Rightarrow> request \<Rightarrow> app_user option \<Rightarrow> server \<Rightarrow> reply" where
  "route env (Login username password) session s = unsafe_login env username password session s"
| "route env GetUser session s = (get_user_endpoint session, session, s)"
| "route env Logout session s =
     login_required env (\<lambda>session s.
       case logout (e_logout_ok env) session of (resp, session') \<Rightarrow> (resp, session', s)) session s"
| "route env (ChangePassword password) session s =
     login_required env (change_password_endpoint env password) session s"
| "route env (Query q) session s =
     restricted env (\<lambda>session s. (handle_query env q session s, session, s)) session s"
| "route env (Change c) session s =
     restricted env (\<lambda>session s.
       case handle_change env c session s of (resp, s') \<Rightarrow> (resp, session, s')) session s"
| "route env (UpdateConfig j) session s =
     restricted env (\<lambda>session s.
       case config_patch_of_json j of
         Inl msg \<Rightarrow> (e_json_rejected env msg, session, s)
       | Inr patch \<Rightarrow>
           (case update_config env patch session s of (resp, s') \<Rightarrow> (resp, session, s'))) session s"
| "route env (Frontend path) session s = (frontend_fallback env path, session, s)"

definition status_text :: "status \<Rightarrow> string" where
  "status_text status =
     (if status = S_INTERNAL_SERVER_ERROR then ''500 Internal Server Error'' else ''503 Service Unavailable'')"

text \<open>\<open>log_failed_requests\<close>; \<open>line\<close> is the method and the URI of the request.\<close>

definition log_failed_requests :: "env \<Rightarrow> string \<Rightarrow> reply \<Rightarrow> reply" where
  "log_failed_requests env line = (\<lambda>(resp, session, s).
     if is_server_error (fst resp) then
       let st = record_details (e_services env) (e_faults env) (e_now env) ''ERROR''
                  (line @ '' returned '' @ status_text (fst resp)) (Some (e_client_ip env))
                  (Some (e_client_ip env)) None None None None (Some ''DROP'')
                  \<lparr>ls_db = s_db s, ls_feed = s_feed s\<rparr>
       in (resp, session, s\<lparr>s_db := ls_db st, s_feed := ls_feed st\<rparr>)
     else (resp, session, s))"

definition serve :: "env \<Rightarrow> string \<Rightarrow> request \<Rightarrow> app_user option \<Rightarrow> server \<Rightarrow> reply" where
  "serve env line req session s = log_failed_requests env line (route env req session s)"

section \<open>Every change is guarded\<close>

lemma guarded_change: "guarded_handler (handle_change env c) (change_permission c) (keeps_ok env)"
  by (cases c)
    (simp_all add: create_handler.guarded_handler_axioms modify_handler.guarded_handler_axioms
      delete_handler.guarded_handler_axioms rename_handler.guarded_handler_axioms
      shutdown_handler.guarded_handler_axioms restart_handler.guarded_handler_axioms
      modify_allow_list_v4.guarded_handler_axioms modify_allow_list_v6.guarded_handler_axioms
      clear_allow_list_v4.guarded_handler_axioms clear_allow_list_v6.guarded_handler_axioms
      modify_packet_counts_v4.guarded_handler_axioms modify_packet_counts_v6.guarded_handler_axioms
      clear_packet_counts_v4.guarded_handler_axioms clear_packet_counts_v6.guarded_handler_axioms
      modify_subnet_v4.guarded_handler_axioms modify_subnet_v6.guarded_handler_axioms
      remove_subnet_v4.guarded_handler_axioms remove_subnet_v6.guarded_handler_axioms)

interpretation change: guarded_handler "handle_change env c" "change_permission c" "keeps_ok env"
  for env c
  by (rule guarded_change)

text \<open>What filters packets and who may sign in: the server without its log.\<close>

definition same_firewall :: "server \<Rightarrow> server \<Rightarrow> bool" where
  "same_firewall s s' \<longleftrightarrow>
     s_maps s' = s_maps s \<and> s_ebpf s' = s_ebpf s \<and> same_policy (s_db s) (s_db s')"

lemma same_firewall_refl [simp]: "same_firewall s s"
  by (simp add: same_firewall_def)

lemma record_details_frame:
  "users (ls_db (record_details S flt now l m a sip dip sp dp pr act st)) = users (ls_db st)"
  "same_policy (ls_db st) (ls_db (record_details S flt now l m a sip dip sp dp pr act st))"
  using insert_log_frame
  by (simp_all add: record_details_def same_policy_def case_prod_unfold split: sum.split)

lemma log_failed_frame:
  assumes "log_failed_requests env line (resp, session, s) = (resp', session', s')"
  shows "resp' = resp" "session' = session" "same_firewall s s'" "users (s_db s') = users (s_db s)"
    "env_ok env \<Longrightarrow> server_ok s \<Longrightarrow> server_ok s'"
  using assms record_details_frame [where st = "\<lparr>ls_db = s_db s, ls_feed = s_feed s\<rparr>"]
  by (auto simp: log_failed_requests_def Let_def same_firewall_def server_ok_def env_ok_def
      intro!: record_details_ok split: if_splits)

section \<open>What a request can change\<close>

text \<open>The requests that change the accounts without a permission: they concern the own account.\<close>

fun own_account :: "request \<Rightarrow> bool" where
  "own_account (Login _ _) = True"
| "own_account (ChangePassword _) = True"
| "own_account _ = False"

definition needs :: "request \<Rightarrow> u8 option" where
  "needs req = (case req of Change c \<Rightarrow> Some (change_permission c) | UpdateConfig _ \<Rightarrow> Some MODIFY | _ \<Rightarrow> None)"

definition authorised :: "request \<Rightarrow> app_user option \<Rightarrow> bool" where
  "authorised req session \<longleftrightarrow>
     (\<exists>u p. session = Some u \<and> \<not> au_password_must_be_changed u \<and> needs req = Some p \<and> may (caller_of u) p)"

lemma login_frame: "same_policy d (snd (snd (login S flt now ok ip name pw session d)))"
  using authenticate_frame [of d S flt now name pw]
  by (auto simp: login_def same_policy_def split: prod.split sum.split option.split)

lemma login_users_ok:
  assumes "users_ok (users d)"
  shows "users_ok (users (snd (snd (login S flt now ok ip name pw session d))))"
  using authenticate_ok [OF assms, of S flt now name pw]
  by (auto simp: login_def split: prod.split sum.split option.split)

lemma change_password_endpoint_frame:
  "same_policy (s_db s) (s_db (snd (snd (change_password_endpoint env pw session s)))) \<and>
   s_maps (snd (snd (change_password_endpoint env pw session s))) = s_maps s \<and>
   s_ebpf (snd (snd (change_password_endpoint env pw session s))) = s_ebpf s"
proof (cases session)
  case (Some u)
  then show ?thesis
    using change_password_policy [of "s_db s" "e_services env" "e_faults env" "e_salt env" "au_id u" pw]
    by (auto simp: change_password_endpoint_def split: prod.split sum.split option.split)
qed (simp add: change_password_endpoint_def)

lemma restricted_snd:
  assumes "snd (snd (restricted env h session s)) \<noteq> s"
  shows "\<exists>u. session = Some u \<and> \<not> au_password_must_be_changed u \<and>
    restricted env h session s = h session s"
  using assms
  by (auto simp: restricted_def login_required_def require_completed_password_change_def
      split: if_splits option.splits)

lemma route_change:
  assumes "snd (snd (route env req session s)) \<noteq> s" and "\<not> own_account req"
  shows "authorised req session"
proof (cases req)
  case (Change c)
  from restricted_snd [OF assms(1) [unfolded Change route.simps]]
  obtain u where u: "session = Some u" "\<not> au_password_must_be_changed u"
    and "route env req session s =
      (case handle_change env c session s of (resp, s') \<Rightarrow> (resp, session, s'))"
    unfolding Change route.simps by blast
  then have "snd (handle_change env c session s) \<noteq> s"
    using assms(1) by (auto split: prod.splits)
  from change.change_needs [OF this] u Change show ?thesis by (auto simp: authorised_def needs_def)
next
  case (UpdateConfig j)
  from restricted_snd [OF assms(1) [unfolded UpdateConfig route.simps]]
  obtain u where u: "session = Some u" "\<not> au_password_must_be_changed u"
    and r: "route env req session s = (case config_patch_of_json j of
         Inl msg \<Rightarrow> (e_json_rejected env msg, session, s)
       | Inr patch \<Rightarrow>
           (case update_config env patch session s of (resp, s') \<Rightarrow> (resp, session, s')))"
    unfolding UpdateConfig route.simps by blast
  then obtain patch where "config_patch_of_json j = Inr patch" "snd (update_config env patch session s) \<noteq> s"
    using assms(1) by (cases "config_patch_of_json j") (auto simp: case_prod_unfold)
  from update_config_handler.change_needs [OF this(2)] u UpdateConfig
  show ?thesis by (auto simp: authorised_def needs_def)
qed (use assms in \<open>auto simp: restricted_def login_required_def require_completed_password_change_def
    split: if_splits option.splits prod.splits\<close>)

lemma own_account_firewall: "own_account req \<Longrightarrow> same_firewall s (snd (snd (route env req session s)))"
  using login_frame change_password_endpoint_frame
  by (cases req)
    (auto simp: unsafe_login_def login_required_def same_firewall_def case_prod_unfold)

section \<open>The server stays well-formed\<close>

lemma server_ok_users_db:
  assumes "server_ok s" and "same_policy (s_db s) d'" and "users_ok (users d')"
    and "unique_key log_id (firewall_logs d')"
  shows "server_ok (s\<lparr>s_db := d'\<rparr>)"
  using assms by (simp add: server_ok_def db_ok_def same_policy_def subnet_ok_v4_def subnet_ok_v6_def)

lemma login_logs:
  assumes "services_ok S" and "db_ok d"
  shows "unique_key log_id (firewall_logs (snd (snd (login S flt now ok ip name pw session d))))"
proof -
  let ?d1 = "snd (authenticate S flt now name pw d)"
  have "firewall_logs ?d1 = firewall_logs d"
    by (auto simp: authenticate_def dest: update_users_logs split: option.split prod.split sum.split)
  then have ok: "db_ok ?d1"
    using db_ok_same [OF assms(2) authenticate_frame] authenticate_ok assms(2) by (simp add: db_ok_def)
  then have "unique_key log_id (firewall_logs ?d1)"
    "unique_key log_id (firewall_logs (snd (record_log S flt now l m a ?d1)))" for l m a
    using record_log_ok [OF assms(1) ok] by (simp_all add: db_ok_def)
  then show ?thesis
    by (auto simp: login_def case_prod_unfold split: sum.split option.split)
qed

lemma change_password_endpoint_ok:
  assumes "server_ok s"
  shows "server_ok (snd (snd (change_password_endpoint env pw session s)))"
proof (cases session)
  case (Some u)
  let ?d' = "snd (change_password (e_services env) (e_faults env) (e_salt env) (au_id u) pw (s_db s))"
  have "server_ok (s\<lparr>s_db := ?d'\<rparr>)"
    using assms change_password_users_ok [of "s_db s"]
    by (intro server_ok_users_db change_password_policy) (simp_all add: server_ok_def db_ok_def)
  then show ?thesis
    by (auto simp: Some change_password_endpoint_def case_prod_unfold split: sum.split option.split)
qed (simp add: change_password_endpoint_def assms)

lemma route_ok:
  assumes "env_ok env" and "server_ok s"
  shows "server_ok (snd (snd (route env req session s)))"
proof -
  have change: "server_ok (snd (handle_change env c session s))" for c
    using change.keeps [of env s c session] assms by (simp add: keeps_ok_def)
  have login: "server_ok (snd (snd (unsafe_login env name pw session s)))" for name pw
    using login_frame login_users_ok login_logs [OF env_okD(1) [OF assms(1)]] assms(2)
    by (simp add: unsafe_login_def case_prod_unfold) (intro server_ok_users_db; simp add: server_ok_def db_ok_def)
  have config: "server_ok (snd (update_config env p session s))" if "config_patch_of_json j = Inr p" for j p
    using update_config_ok [OF assms patch_of_json_wf [OF that]] .
  show ?thesis
    using change login config assms(2) change_password_endpoint_ok [OF assms(2), of env]
    by (cases req)
      (auto simp: restricted_def login_required_def require_completed_password_change_def case_prod_unfold
        split: sum.split option.split)
qed

lemma serve_ok:
  assumes "env_ok env" and "server_ok s" and "serve env line req session s = (resp, session', s')"
  shows "server_ok s'"
  using route_ok [OF assms(1,2), of req session] log_failed_frame(5) [OF _ assms(1)] assms(3)
  unfolding serve_def by (metis prod.collapse)

lemma serve_unauthorised:
  assumes "serve env line req session s = (resp, session', s')"
  shows "\<not> authorised req session \<Longrightarrow> same_firewall s s'"
    and "\<not> authorised req session \<Longrightarrow> \<not> own_account req \<Longrightarrow> users (s_db s') = users (s_db s)"
proof -
  obtain r se s1 where r: "route env req session s = (r, se, s1)" by (cases "route env req session s")
  have "log_failed_requests env line (r, se, s1) = (resp, session', s')"
    using assms by (simp only: serve_def r)
  note log = log_failed_frame(3,4) [OF this]
  have "same_firewall s s1" if "\<not> authorised req session"
  proof (cases "own_account req")
    case True
    from own_account_firewall [OF this, of s env session] r show ?thesis by simp
  next
    case False
    with route_change [of env req session s] r that have "s1 = s" by auto
    then show ?thesis by simp
  qed
  moreover have "users (s_db s1) = users (s_db s)" if "\<not> authorised req session" "\<not> own_account req"
    using route_change [of env req session s] r that by auto
  ultimately show "\<not> authorised req session \<Longrightarrow> same_firewall s s'"
    and "\<not> authorised req session \<Longrightarrow> \<not> own_account req \<Longrightarrow> users (s_db s') = users (s_db s)"
    using log by (auto simp: same_firewall_def same_policy_def)
qed

section \<open>Properties\<close>

text \<open>
  C5: Nobody changes the firewall without the permission: a request after which the maps, the attached
  program, the persisted configuration or a stored subnet differ came from a signed-in administrator
  who has the permission of that route and has changed the initial password; the accounts, too,
  change only for such a caller, a login's time stamp and one's own password apart.
\<close>

theorem changes_need_permission:
  assumes "serve env line req session s = (resp, session', s')"
  shows "(\<not> same_firewall s s' \<longrightarrow> authorised req session) \<and>
    (users (s_db s') \<noteq> users (s_db s) \<longrightarrow> authorised req session \<or> own_account req)"
  using serve_unauthorised [OF assms] by blast

theorem changes_need_permission_witness:
  "same_firewall sample_server (snd (snd (serve ref_env ''POST /api/v1/config/ebpf/shutdown''
     (Change ShutdownEbpf) (Some (sample_user\<lparr>au_role := Viewer\<rparr>)) sample_server)))"
proof -
  let ?session = "Some (sample_user\<lparr>au_role := Viewer\<rparr>)"
  obtain resp session' s' where s: "serve ref_env ''POST /api/v1/config/ebpf/shutdown'' (Change ShutdownEbpf)
      ?session sample_server = (resp, session', s')" by (metis prod.collapse)
  have "\<not> authorised (Change ShutdownEbpf) ?session"
    by (simp add: authorised_def may_def caller_of_def)
  with changes_need_permission [OF s] s show ?thesis by auto
qed

text \<open>
  C25: The initial password opens nothing: with a session whose user must still change the password,
  every route but login, logout, the own account, the password change and the frontend's files
  answers 403 and changes nothing; without a session, the library's answer is given instead, and the
  server does not change unless that answer is itself a server error, which is logged.
\<close>

theorem password_change_comes_first:
  assumes "req \<notin> {GetUser, Logout}" and "\<not> own_account req" and "\<forall>path. req \<noteq> Frontend path"
  shows "(\<forall>u. session = Some u \<and> au_password_must_be_changed u \<longrightarrow>
      serve env line req session s =
        ((S_FORBIDDEN, Text ''Password change required before using this service''), session, s)) \<and>
    (session = None \<and> \<not> is_server_error (fst (e_login_required env)) \<longrightarrow>
      serve env line req session s = (e_login_required env, None, s))"
  using assms
  by (cases req)
    (auto simp: serve_def log_failed_requests_def restricted_def login_required_def
      require_completed_password_change_def is_server_error_def)

theorem password_change_comes_first_witness:
  "snd (serve ref_env ''GET /api/v1/logs'' (Query GetLogs)
     (Some (sample_user\<lparr>au_password_must_be_changed := True\<rparr>)) sample_server) =
   (Some (sample_user\<lparr>au_password_must_be_changed := True\<rparr>), sample_server)"
  using password_change_comes_first [of "Query GetLogs"] by simp

end
