(* ===== verification/System.thy ===== *)
theory System
  imports Router
begin

text \<open>
  The firewall as a whole: packets, requests and the periodic tasks over one state, as a step relation
  labelled with the event. Each event is one atomic step: a packet runs on one processor over maps
  whose operations are atomic, a request holds the lock of the map it changes (\<open>Handler_Frame\<close>,
  \<open>Cleanup_Task\<close> and \<open>Bucket_Race\<close> look at what can come between). Sessions are arbitrary:
  a request may carry any user that the session library hands out.
\<close>

datatype event =
  Packet net u64 u64 xdp_ctx
| Request string request "app_user option"
| CleanupTick u64
| PruneTick bool

inductive step :: "event \<Rightarrow> server \<Rightarrow> server \<Rightarrow> bool" where
  packet: "env_ok env \<Longrightarrow>
    step (Packet N t1 t2 ctx) s (s\<lparr>s_maps := snd (oxidrop N (e_kern env) t1 t2 ctx (s_maps s))\<rparr>)"
| request: "env_ok env \<Longrightarrow> serve env line req session s = (resp, session', s') \<Longrightarrow>
    step (Request line req session) s s'"
| cleanup: "step (CleanupTick now) s (cleanup_connections now s)"
| prune: "step (PruneTick stmt_fails) s (prune_tick stmt_fails s)"

inductive_cases packetE: "step (Packet N t1 t2 ctx) s s'"
inductive_cases requestE: "step (Request line req session) s s'"
inductive_simps cleanup_iff [simp]: "step (CleanupTick now) s s'"
inductive_simps prune_iff [simp]: "step (PruneTick stmt_fails) s s'"

text \<open>The states of a run: a successful start over freshly loaded maps, then events.\<close>

inductive reachable :: "server \<Rightarrow> bool" where
  start: "env_ok env \<Longrightarrow> db_ok d \<Longrightarrow> tables_ok m \<Longrightarrow> SUBNET_MATCHING_V4 m = [] \<Longrightarrow>
    SUBNET_MATCHING_V6 m = [] \<Longrightarrow> startup env oi oo e m d = Inr s \<Longrightarrow> reachable s"
| event: "reachable s \<Longrightarrow> step ev s s' \<Longrightarrow> reachable s'"

section \<open>Packets\<close>

text \<open>Every word is at most the largest: \<open>maps_ok\<close> without the bound on tokens.\<close>

lemma tables_ok_maps_ok: "tables_ok m \<longleftrightarrow> maps_ok (- 1) m"
  by (simp add: tables_ok_def maps_ok_def kmap_all_def)

lemma packet_frame:
  "CONFIG (snd (oxidrop N K t1 t2 ctx m)) = CONFIG m \<and>
   SUBNET_MATCHING_V4 (snd (oxidrop N K t1 t2 ctx m)) = SUBNET_MATCHING_V4 m \<and>
   SUBNET_MATCHING_V6 (snd (oxidrop N K t1 t2 ctx m)) = SUBNET_MATCHING_V6 m"
proof (cases rule: oxidrop_cases [of N K t1 t2 ctx m])
  case (v4 x)
  show ?thesis unfolding v4(1) using v4_only_fields [OF filter_v4_frame] by simp
next
  case (v6 x)
  show ?thesis unfolding v6(1) using v6_only_fields [OF filter_v6_frame] by simp
qed simp

lemma packet_tables_ok:
  assumes "kern_ok K" and "tables_ok m"
  shows "tables_ok (snd (oxidrop N K t1 t2 ctx m))"
proof (cases rule: oxidrop_cases [of N K t1 t2 ctx m])
  case (v4 x)
  show ?thesis
    unfolding v4(1) tables_ok_maps_ok
    by (rule filter_v4_ok [OF assms(1)]) (use assms(2) in \<open>simp_all add: tables_ok_maps_ok\<close>)
next
  case (v6 x)
  show ?thesis
    unfolding v6(1) tables_ok_maps_ok
    by (rule filter_v6_ok [OF assms(1)]) (use assms(2) in \<open>simp_all add: tables_ok_maps_ok\<close>)
qed (simp add: assms(2))

lemma step_ok: "step ev s s' \<Longrightarrow> server_ok s \<Longrightarrow> server_ok s'"
proof (induction rule: step.induct)
  case (packet env N t1 t2 ctx s)
  then show ?case
    using packet_tables_ok [OF env_okD(2)] packet_frame by (simp add: server_ok_def)
qed (auto intro: serve_ok cleanup_ok prune_ok)

lemma reachable_ok: "reachable s \<Longrightarrow> server_ok s"
proof (induction rule: reachable.induct)
  case (start env d m oi oo e s)
  show ?case by (rule startup_server_ok [OF start])
qed (rule step_ok)

section \<open>Connections that nobody opens\<close>

definition allowed_v4 :: "server \<Rightarrow> ipv4_packet set" where
  "allowed_v4 s = {k. map_option als_action (map_of (ALLOW_LIST_V4 (s_maps s)) k) = Some Allow}"

definition allowed_v6 :: "server \<Rightarrow> ipv6_packet set" where
  "allowed_v6 s = {k. map_option als_action (map_of (ALLOW_LIST_V6 (s_maps s)) k) = Some Allow}"

text \<open>The events that may open a connection: an outgoing packet, an authorised request.\<close>

fun opens :: "event \<Rightarrow> server \<Rightarrow> bool" where
  "opens (Packet N t1 t2 ctx) s \<longleftrightarrow> packet_direction ctx (s_maps s) = Outgoing"
| "opens (Request line req session) s \<longleftrightarrow> authorised req session"
| "opens _ s \<longleftrightarrow> False"

text \<open>Runs without such an event.\<close>

inductive quiet :: "server \<Rightarrow> server \<Rightarrow> bool" where
  none: "quiet s s"
| more: "quiet s s1 \<Longrightarrow> step ev s1 s2 \<Longrightarrow> \<not> opens ev s1 \<Longrightarrow> quiet s s2"

definition same_rules :: "server \<Rightarrow> server \<Rightarrow> bool" where
  "same_rules s s' \<longleftrightarrow>
     CONFIG (s_maps s') = CONFIG (s_maps s) \<and>
     SUBNET_MATCHING_V4 (s_maps s') = SUBNET_MATCHING_V4 (s_maps s) \<and>
     SUBNET_MATCHING_V6 (s_maps s') = SUBNET_MATCHING_V6 (s_maps s) \<and>
     same_policy (s_db s) (s_db s')"

lemma same_rules_refl [simp]: "same_rules s s"
  by (simp add: same_rules_def)

lemma same_rules_trans: "same_rules s s1 \<Longrightarrow> same_rules s1 s2 \<Longrightarrow> same_rules s s2"
  by (simp add: same_rules_def same_policy_def)

lemma entry_step_Incoming:
  "entry_step Incoming ok old new \<Longrightarrow> map_option als_action new = Some a \<Longrightarrow> map_option als_action old = Some a"
  by (auto simp: entry_step_def split: option.splits)

lemma direction_cases: "d \<noteq> Outgoing \<Longrightarrow> d = Incoming"
  by (cases d) simp_all

lemma quiet_step:
  assumes "step ev s s'" and "\<not> opens ev s"
  shows "allowed_v4 s' \<subseteq> allowed_v4 s \<and> allowed_v6 s' \<subseteq> allowed_v6 s \<and> same_rules s s'"
  using assms
proof (induction rule: step.induct)
  case (packet env N t1 t2 ctx s)
  let ?m = "s_maps s" and ?m' = "snd (oxidrop N (e_kern env) t1 t2 ctx (s_maps s))"
  have dir: "packet_direction ctx ?m = Incoming" using packet.prems direction_cases by simp
  note entries = packet_entries [OF env_okD(2) [OF packet.hyps], of ctx ?m _ N t1 t2, unfolded dir]
  have "allowed_v4 (s\<lparr>s_maps := ?m'\<rparr>) \<subseteq> allowed_v4 s" "allowed_v6 (s\<lparr>s_maps := ?m'\<rparr>) \<subseteq> allowed_v6 s"
    using entry_step_Incoming [OF conjunct1 [OF entries]] entry_step_Incoming [OF conjunct2 [OF entries]]
    by (auto simp: allowed_v4_def allowed_v6_def)
  then show ?case using packet_frame [of N "e_kern env" t1 t2 ctx ?m] by (simp add: same_rules_def)
next
  case (request env line req session s resp session' s')
  then have "same_firewall s s'" using serve_unauthorised(1) by simp
  then show ?case by (simp add: same_firewall_def allowed_v4_def allowed_v6_def same_rules_def)
next
  case (cleanup now s)
  then show ?case
    by (auto simp: cleanup_connections_def Let_def allowed_v4_def allowed_v6_def same_rules_def map_simps
        split: if_splits)
next
  case (prune stmt_fails s)
  then show ?case
    by (simp add: prune_tick_def prune_logs_def Let_def allowed_v4_def allowed_v6_def same_rules_def
        same_policy_def)
qed

lemma quiet_run:
  "quiet s s' \<Longrightarrow> allowed_v4 s' \<subseteq> allowed_v4 s \<and> allowed_v6 s' \<subseteq> allowed_v6 s \<and> same_rules s s'"
proof (induction rule: quiet.induct)
  case (more s s1 ev s2)
  then show ?case using quiet_step [OF more.hyps(2,3)] same_rules_trans by blast
qed simp

section \<open>Properties\<close>

text \<open>
  C4: In every reachable state the server is well-formed, whatever packets, requests, sessions, faults
  of the database and periodic tasks came before: the accounts, the log ids, the stored subnets and
  the keys of the four tables are consistent, there is a valid live configuration (so the program
  never falls back to its built-in one, and no shift is 64 or more), and the links agree with the
  attached adapters.
\<close>

theorem reachable_server_ok:
  assumes "reachable s"
  shows "server_ok s \<and>
    (\<exists>cfg. CONFIG (s_maps s) = Some cfg \<and> current_config (s_maps s) = cfg \<and>
       (\<forall>p \<in> set (profiles cfg). rate_shift p \<le> 63)) \<and>
    (\<forall>e. s_ebpf s = Some e \<longrightarrow> enforcement_active e \<longrightarrow>
       incoming_adapter e \<noteq> None \<and> outcoming_adapter e \<noteq> None)"
  using reachable_ok [OF assms]
  by (auto simp: server_ok_def live_ok_def current_config_def config_wf_def enforcement_active_def)

theorem reachable_server_ok_witness:
  "\<exists>s. reachable (cleanup_connections 9 s) \<and> server_ok (cleanup_connections 9 s)"
proof -
  obtain s where "startup ref_env (Some 2) (Some 1) new_programm empty_maps empty_database = Inr s"
    by (rule sample_startup)
  then have "reachable s" by (rule reachable.start [OF ref_env_ok empty_start])
  then have "reachable (cleanup_connections 9 s)" by (rule reachable.event [OF _ step.cleanup])
  with reachable_server_ok show ?thesis by blast
qed

text \<open>
  C2: The promise of the firewall: as long as the inside sends no packet and no authorised request
  arrives, whatever else happens, no connection becomes allowed and no rule changes; so an incoming
  IPv4 packet that belongs to no connection allowed at the beginning, and does not end one, is
  dropped at the end, and changes nothing.
\<close>

theorem unsolicited_never_enters:
  assumes "quiet s s'"
  shows "allowed_v4 s' \<subseteq> allowed_v4 s \<and> allowed_v6 s' \<subseteq> allowed_v6 s \<and> same_rules s s' \<and>
    (\<forall>N ctx key ext proto K t1 t2. key \<notin> allowed_v4 s \<longrightarrow> arm_v4 N ctx (s_maps s') \<longrightarrow>
       packet_direction ctx (s_maps s') = Incoming \<longrightarrow>
       parse_v4 N ctx Incoming = Inr (key, ext, proto, False) \<longrightarrow>
       oxidrop N K t1 t2 ctx (s_maps s') = (Some XDP_DROP, s_maps s'))"
proof (intro conjI allI impI)
  fix N ctx key ext proto K t1 t2
  assume "key \<notin> allowed_v4 s" and arm: "arm_v4 N ctx (s_maps s')"
    and dir: "packet_direction ctx (s_maps s') = Incoming"
    and parse: "parse_v4 N ctx Incoming = Inr (key, ext, proto, False)"
  then have "key \<notin> allowed_v4 s'" using quiet_run [OF assms] by blast
  then show "oxidrop N K t1 t2 ctx (s_maps s') = (Some XDP_DROP, s_maps s')"
    by (intro not_allowed_dropped [OF arm dir parse]) (simp add: allowed_v4_def)
qed (use quiet_run [OF assms] in simp_all)

theorem unsolicited_never_enters_witness:
  "fst (oxidrop wire_net ref_kern 9 9 (inbound4 ACK) (s_maps
     (sample_filtering\<lparr>s_maps := snd (oxidrop wire_net ref_kern 5 6 (inbound4 ACK) sample_maps)\<rparr>))) =
   Some XDP_DROP"
proof -
  let ?m' = "snd (oxidrop wire_net ref_kern 5 6 (inbound4 ACK) sample_maps)"
  let ?s' = "sample_filtering\<lparr>s_maps := ?m'\<rparr>"
  have K: "e_kern ref_env = ref_kern" by (simp add: ref_env_def)
  have "step (Packet wire_net 5 6 (inbound4 ACK)) sample_filtering ?s'"
    using step.packet [OF ref_env_ok, of wire_net 5 6 "inbound4 ACK" sample_filtering]
    by (simp add: K sample_filtering_def)
  moreover have "\<not> opens (Packet wire_net 5 6 (inbound4 ACK)) sample_filtering"
    by (simp add: sample_filtering_def sample_direction)
  ultimately have q: "quiet sample_filtering ?s'" by (rule quiet.more [OF quiet.none])
  have "sample_key4 \<notin> allowed_v4 sample_filtering"
    by (simp add: allowed_v4_def sample_filtering_def sample_maps_def)
  moreover have c: "current_config (s_maps ?s') = sample_config"
    using packet_frame [of wire_net ref_kern 5 6 "inbound4 ACK" sample_maps]
    by (simp add: current_config_def sample_maps_def)
  ultimately have "oxidrop wire_net ref_kern 9 9 (inbound4 ACK) (s_maps ?s') = (Some XDP_DROP, s_maps ?s')"
    using unsolicited_never_enters [OF q] sample_arm_v4(1) [OF c] sample_direction(1) [OF c]
      sample_parse_v4(1) by blast
  then show ?thesis by simp
qed

end
