(* ===== verification/Flow_Rate.thy ===== *)
theory Flow_Rate
  imports Flow_State
begin

text \<open>
  The packet rate of one flow through the whole program. The state of the limiter is the maps, its
  events are packets of the flow with the time of their bucket evaluation; \<open>flow_limiter\<close> shows
  that the program is a rate limiter in the sense of the contract of \<open>Token_Bucket\<close> for the packets
  that do not end the flow. A FIN or RST forgets the bucket, so each of them is worth another burst:
  the bound on any sequence of packets counts them.
\<close>

text \<open>A packet with the two times at which the program reads the clock.\<close>

record arrival =
  t_entry :: u64
  t_bucket :: nat
  a_ctx :: xdp_ctx

definition flow_step :: "net \<Rightarrow> kern \<Rightarrow> maps \<Rightarrow> arrival \<Rightarrow> bool \<times> maps" where
  "flow_step N K m a =
     (case oxidrop N K (t_entry a) (of_nat (t_bucket a)) (a_ctx a) m of
        (verdict, m') \<Rightarrow> (verdict \<noteq> Some XDP_DROP, m'))"

definition forwarded :: "net \<Rightarrow> kern \<Rightarrow> maps \<Rightarrow> arrival list \<Rightarrow> nat" where
  "forwarded N K m as = count_passes (flow_step N K) m as"

text \<open>The packets of the flow \<open>key\<close> under the configuration \<open>c\<close>, and the FIN and RST among them.\<close>

definition of_flow ::
    "net \<Rightarrow> firewall_config \<Rightarrow> ipv4_packet \<Rightarrow> ip_proto \<Rightarrow> nat \<Rightarrow> arrival \<Rightarrow> bool" where
  "of_flow N c key proto T0 a \<longleftrightarrow>
     T0 \<le> t_bucket a \<and> t_bucket a < 2 ^ 63 \<and>
     packet_ether_type N (a_ctx a) = Some EtIpv4 \<and>
     (case parse_v4 N (a_ctx a) (traffic_direction c (ctx_ingress_ifindex (a_ctx a))) of
        Inr (key', _, proto', _) \<Rightarrow> key' = key \<and> proto' = proto
      | Inl _ \<Rightarrow> False)"

definition ends_flow :: "net \<Rightarrow> firewall_config \<Rightarrow> arrival \<Rightarrow> bool" where
  "ends_flow N c a \<longleftrightarrow>
     (case parse_v4 N (a_ctx a) (traffic_direction c (ctx_ingress_ifindex (a_ctx a))) of
        Inr (_, _, _, fin) \<Rightarrow> fin
      | Inl _ \<Rightarrow> False)"

definition endings :: "net \<Rightarrow> firewall_config \<Rightarrow> arrival list \<Rightarrow> nat" where
  "endings N c as = length (filter (ends_flow N c) as)"

definition flow_level :: "ipv4_packet \<Rightarrow> rate_profile \<Rightarrow> maps \<Rightarrow> nat" where
  "flow_level key p m =
     (case map_of (PACKET_COUNTS_V4 m) key of None \<Rightarrow> unat (burst p) | Some b \<Rightarrow> unat (tokens b))"

definition flow_stamp :: "ipv4_packet \<Rightarrow> nat \<Rightarrow> maps \<Rightarrow> nat" where
  "flow_stamp key T0 m =
     (case map_of (PACKET_COUNTS_V4 m) key of None \<Rightarrow> T0 | Some b \<Rightarrow> unat (last_update b))"

definition flow_okay :: "firewall_config \<Rightarrow> ipv4_packet \<Rightarrow> rate_profile \<Rightarrow> nat \<Rightarrow> maps \<Rightarrow> bool" where
  "flow_okay c key p T0 m \<longleftrightarrow>
     current_config m = c \<and>
     (case map_of (PACKET_COUNTS_V4 m) key of None \<Rightarrow> True
      | Some b \<Rightarrow> bucket_inv p b \<and> T0 \<le> unat (last_update b))"

text \<open>A FIN or RST of the flow: refused by the subnet rules, or forwarded, and the bucket is gone.\<close>

lemma flow_step_ending:
  fixes K :: kern
  assumes c: "current_config m = c" "flags_contains (protocol_allowed c) IPV4"
    and a: "of_flow N c key proto T0 a" "ends_flow N c a"
  defines "m' \<equiv> snd (flow_step N K m a)"
  shows "current_config m' = c" and
    "(\<not> fst (flow_step N K m a) \<and> map_of (PACKET_COUNTS_V4 m') key = map_of (PACKET_COUNTS_V4 m) key) \<or>
     map_of (PACKET_COUNTS_V4 m') key = None"
proof -
  let ?d = "packet_direction (a_ctx a) m" and ?t = "of_nat (t_bucket a) :: u64"
  obtain ext where parse: "parse_v4 N (a_ctx a) ?d = Inr (key, ext, proto, True)"
    using a c(1) by (auto simp: of_flow_def ends_flow_def packet_direction_def split: sum.splits prod.splits)
  have arm: "arm_v4 N (a_ctx a) m" using a c by (simp add: arm_v4_def of_flow_def)
  let ?f = "filter_v4 K c (t_entry a) ?t ?d (key, ext, proto, True) m"
  have m': "m' = snd ?f"
    using oxidrop_v4_snd [OF arm parse, of K "t_entry a" ?t] c(1)
    by (simp add: m'_def flow_step_def case_prod_unfold)
  have pass: "fst (flow_step N K m a) \<longleftrightarrow> (case fst ?f of Inr v \<Rightarrow> v | Inl _ \<Rightarrow> XDP_DROP) \<noteq> XDP_DROP"
    using oxidrop_v4_fst [OF arm parse, of K "t_entry a" ?t] c(1)
    by (simp add: flow_step_def case_prod_unfold)
  show "current_config m' = c"
    using c(1) v4_only_fields(1) [OF filter_v4_frame] by (simp add: m' current_config_def)
  show "(\<not> fst (flow_step N K m a) \<and> map_of (PACKET_COUNTS_V4 m') key = map_of (PACKET_COUNTS_V4 m) key) \<or>
     map_of (PACKET_COUNTS_V4 m') key = None"
    by (cases "subnet_denies_v4 K c m ext") (simp_all add: pass m' filter_v4_def forget_v4_def map_simps)
qed

text \<open>The outcome of any other packet of the flow: refused without a trace, or one bucket evaluation.\<close>

lemma flow_step_cases:
  assumes K: "lru_map (ins_counts_v4 K)" and full: "\<And>m v. ins_counts_v4 K m key v \<noteq> None"
    and c: "current_config m = c" "ddos_activated c" "flags_contains (protocol_allowed c) IPV4"
    and a: "of_flow N c key proto T0 a" "\<not> ends_flow N c a"
  defines "p \<equiv> active_profile c proto"
  defines "m' \<equiv> snd (flow_step N K m a)"
  defines "b \<equiv> flow_bucket (PACKET_COUNTS_V4 m) key p (of_nat (t_bucket a))"
  shows "current_config m' = c" and
    "(\<not> fst (flow_step N K m a) \<and> map_of (PACKET_COUNTS_V4 m') key = map_of (PACKET_COUNTS_V4 m) key) \<or>
     ((fst (flow_step N K m a) \<longrightarrow> fst (bucket_step p b (t_bucket a))) \<and>
      map_of (PACKET_COUNTS_V4 m') key = Some (snd (bucket_step p b (t_bucket a))))"
proof -
  let ?d = "packet_direction (a_ctx a) m" and ?t = "of_nat (t_bucket a) :: u64"
  obtain ext where parse: "parse_v4 N (a_ctx a) ?d = Inr (key, ext, proto, False)"
    using a c(1) by (auto simp: of_flow_def ends_flow_def packet_direction_def split: sum.splits prod.splits)
  have arm: "arm_v4 N (a_ctx a) m" using a c by (simp add: arm_v4_def of_flow_def)
  let ?f = "filter_v4 K c (t_entry a) ?t ?d (key, ext, proto, False) m"
  have m': "m' = snd ?f"
    using oxidrop_v4_snd [OF arm parse, of K "t_entry a" ?t] c(1)
    by (simp add: m'_def flow_step_def case_prod_unfold)
  have pass: "fst (flow_step N K m a) \<longleftrightarrow> (case fst ?f of Inr v \<Rightarrow> v | Inl _ \<Rightarrow> XDP_DROP) \<noteq> XDP_DROP"
    using oxidrop_v4_fst [OF arm parse, of K "t_entry a" ?t] c(1)
    by (simp add: flow_step_def case_prod_unfold)
  show "current_config m' = c"
    using c(1) v4_only_fields(1) [OF filter_v4_frame] by (simp add: m' current_config_def)
  obtain r m1 where tr: "track_v4 K (t_entry a) ?d key m = (r, m1)" by fastforce
  show "(\<not> fst (flow_step N K m a) \<and> map_of (PACKET_COUNTS_V4 m') key = map_of (PACKET_COUNTS_V4 m) key) \<or>
     ((fst (flow_step N K m a) \<longrightarrow> fst (bucket_step p b (t_bucket a))) \<and>
      map_of (PACKET_COUNTS_V4 m') key = Some (snd (bucket_step p b (t_bucket a))))"
  proof (cases "subnet_denies_v4 K c m ext \<or> isl r")
    case True
    then show ?thesis
      using tr by (auto simp: pass m' filter_v4_def isl_def)
  next
    case False
    then have "?f = ddos_and_bucket_ending_v4 K c b ?t p key ?d m1"
      using tr by (cases r) (auto simp: filter_v4_def Let_def b_def p_def)
    moreover have "fst (evaluate_bucket b p ?t) = Inr XDP_PASS \<longleftrightarrow> fst (bucket_step p b (t_bucket a))"
      by (simp add: evaluate_bucket_fst)
    ultimately show ?thesis
      using c(2) lru_map.put_lookup [OF K full]
      by (auto simp: pass m' ending_v4_snd ending_v4_fst evaluate_bucket_snd)
  qed
qed

lemma flow_bucket_inv:
  assumes "flow_okay c key p T0 m" and "t < 2 ^ 63"
  shows "bucket_inv p (flow_bucket (PACKET_COUNTS_V4 m) key p (of_nat t))"
  using assms by (auto simp: flow_okay_def flow_bucket_def fresh_bucket_def bucket_inv_def unat_of_nat
      split: option.splits)

lemma flow_limiter:
  assumes K: "lru_map (ins_counts_v4 K)" and full: "\<And>m v. ins_counts_v4 K m key v \<noteq> None"
    and c: "ddos_activated c" "flags_contains (protocol_allowed c) IPV4"
    and p: "profile_ok (active_profile c proto)"
  defines "p \<equiv> active_profile c proto"
  shows "rate_limiter (flow_step N K) t_bucket (flow_level key p) (flow_stamp key T0)
    (flow_okay c key p T0) (\<lambda>a. of_flow N c key proto T0 a \<and> \<not> ends_flow N c a) (token_period p)
    (unat (burst p))"
proof
  show "0 < token_period p" by (simp add: token_period_def)
  fix m a
  assume ok: "flow_okay c key p T0 m"
  show "flow_level key p m \<le> unat (burst p)"
    using ok by (auto simp: flow_okay_def flow_level_def bucket_inv_def split: option.splits)
  assume "of_flow N c key proto T0 a \<and> \<not> ends_flow N c a"
  then have a: "of_flow N c key proto T0 a" "\<not> ends_flow N c a" by simp_all
  let ?b = "flow_bucket (PACKET_COUNTS_V4 m) key p (of_nat (t_bucket a))" and ?m = "snd (flow_step N K m a)"
  have t: "T0 \<le> t_bucket a" "t_bucket a < 2 ^ 63" and cfg: "current_config m = c"
    using a ok by (simp_all add: of_flow_def flow_okay_def)
  note cases = flow_step_cases [OF K full cfg c a, folded p_def]
  note lim = rate_limiter_bucket [OF p, folded p_def]
  note inv = flow_bucket_inv [OF ok t(2)]
  note inv' = rate_limiter.step_inv [OF lim inv t(2)]
  note spend = rate_limiter.step_spend [OF lim inv t(2)]
  note stamp = rate_limiter.step_stamp [OF lim inv t(2)]
  note stamp_le = rate_limiter.step_stamp_le [OF lim inv t(2)]
  have T0: "T0 \<le> unat (last_update ?b)"
    using t ok by (auto simp: flow_bucket_def fresh_bucket_def flow_okay_def unat_of_nat split: option.splits)
  have lvl: "flow_level key p m = unat (tokens ?b)"
    by (auto simp: flow_level_def flow_bucket_def fresh_bucket_def split: option.split)
  have stp: "flow_stamp key T0 m \<le> unat (last_update ?b)"
    "flow_stamp key T0 m = unat (last_update ?b) \<or> unat (last_update ?b) = t_bucket a"
    using t T0 by (auto simp: flow_stamp_def flow_bucket_def fresh_bucket_def unat_of_nat split: option.split)
  show "flow_okay c key p T0 ?m"
    using cases ok inv' stamp T0 by (auto simp: flow_okay_def split: option.splits)
  show "flow_stamp key T0 m \<le> flow_stamp key T0 ?m"
    using cases(2) stp(1) stamp by (auto simp: flow_stamp_def)
  show "flow_stamp key T0 ?m \<le> max (flow_stamp key T0 m) (t_bucket a)"
    using cases(2) stp stamp_le by (auto simp: flow_stamp_def)
  show "flow_level key p ?m + (if fst (flow_step N K m a) then 1 else 0)
      \<le> flow_level key p m + (flow_stamp key T0 ?m - flow_stamp key T0 m) div token_period p"
    using cases(2)
  proof
    assume "\<not> fst (flow_step N K m a) \<and> map_of (PACKET_COUNTS_V4 ?m) key = map_of (PACKET_COUNTS_V4 m) key"
    then show ?thesis by (simp add: flow_level_def)
  next
    assume s: "(fst (flow_step N K m a) \<longrightarrow> fst (bucket_step p ?b (t_bucket a))) \<and>
      map_of (PACKET_COUNTS_V4 ?m) key = Some (snd (bucket_step p ?b (t_bucket a)))"
    then have "flow_stamp key T0 ?m = unat (last_update (snd (bucket_step p ?b (t_bucket a))))"
      and "flow_level key p ?m = unat (tokens (snd (bucket_step p ?b (t_bucket a))))"
      by (simp_all add: flow_stamp_def flow_level_def)
    moreover have "(unat (last_update (snd (bucket_step p ?b (t_bucket a)))) - unat (last_update ?b)) div
          token_period p
        \<le> (unat (last_update (snd (bucket_step p ?b (t_bucket a)))) - flow_stamp key T0 m) div token_period p"
      using stp(1) by (simp add: div_le_mono diff_le_mono2)
    ultimately show ?thesis
      unfolding lvl using s spend
      by (cases "fst (flow_step N K m a)"; cases "fst (bucket_step p ?b (t_bucket a))"; simp; linarith)
  qed
qed

section \<open>Sequences of packets\<close>

lemma forwarded_Cons:
  "forwarded N K m (a # as) =
     (if fst (flow_step N K m a) then 1 else 0) + forwarded N K (snd (flow_step N K m a)) as"
  by (simp add: forwarded_def)

lemma endings_Cons: "endings N c (a # as) = (if ends_flow N c a then 1 else 0) + endings N c as"
  by (simp add: endings_def)

lemma flow_stamp_None: "map_of (PACKET_COUNTS_V4 m) key = None \<Longrightarrow> flow_stamp key T0 m = T0"
  by (simp add: flow_stamp_def)

lemma flow_level_None: "map_of (PACKET_COUNTS_V4 m) key = None \<Longrightarrow> flow_level key p m = unat (burst p)"
  by (simp add: flow_level_def)

text \<open>A packet that leaves the bucket as it is keeps everything that is measured.\<close>

lemma flow_same_bucket:
  assumes "map_of (PACKET_COUNTS_V4 m') key = map_of (PACKET_COUNTS_V4 m) key" and "current_config m' = c"
    and "flow_okay c key p T0 m"
  shows "flow_okay c key p T0 m'" and "flow_level key p m' = flow_level key p m"
    and "flow_stamp key T0 m' = flow_stamp key T0 m"
  using assms by (simp_all add: flow_okay_def flow_level_def flow_stamp_def)

text \<open>
  What the rest of a sequence may still forward: the tokens there are, a burst and the packet itself for
  each ending to come, and the refill from the bucket's stamp to the end. With \<open>slack = 0\<close> this needs
  the packets in the order of their times; in any other order each ending may refill once more.
\<close>

definition budget :: "ipv4_packet \<Rightarrow> rate_profile \<Rightarrow> nat \<Rightarrow> nat \<Rightarrow> nat \<Rightarrow> maps \<Rightarrow> nat \<Rightarrow> nat" where
  "budget key p slack T T0 m f =
     flow_level key p m + f * (unat (burst p) + 1 + slack) + (T - flow_stamp key T0 m) div token_period p"

lemma budget_step:
  assumes lim: "rate_limiter (flow_step N K) t_bucket (flow_level key p) (flow_stamp key T0)
      (flow_okay c key p T0) valid (token_period p) cap"
    and "flow_okay c key p T0 m" and "valid a" and "t_bucket a \<le> T" and "flow_stamp key T0 m \<le> T"
  shows "(if fst (flow_step N K m a) then 1 else 0) + budget key p slack T T0 (snd (flow_step N K m a)) f
    \<le> budget key p slack T T0 m f"
proof -
  let ?m = "snd (flow_step N K m a)"
  have le: "flow_stamp key T0 m \<le> flow_stamp key T0 ?m" "flow_stamp key T0 ?m \<le> T"
    using rate_limiter.step_stamp [OF lim assms(2,3)] rate_limiter.step_stamp_le [OF lim assms(2,3)] assms(4,5)
    by auto
  have "(flow_stamp key T0 ?m - flow_stamp key T0 m) div token_period p + (T - flow_stamp key T0 ?m) div token_period p
      \<le> (T - flow_stamp key T0 m) div token_period p"
    using rate_limiter.div_add_le [OF lim, of "flow_stamp key T0 ?m - flow_stamp key T0 m" "T - flow_stamp key T0 ?m"]
      le by simp
  with rate_limiter.step_spend [OF lim assms(2,3)] show ?thesis by (simp add: budget_def)
qed

text \<open>An ending that finds its way buys a new bucket, whose clock starts at \<open>T1\<close>.\<close>

lemma budget_ending:
  assumes "map_of (PACKET_COUNTS_V4 m') key = None"
    and "(T - T1) div token_period p \<le> slack + (T - flow_stamp key T0 m) div token_period p"
  shows "1 + budget key p slack T T1 m' f \<le> budget key p slack T T0 m (Suc f)"
  using assms by (simp add: budget_def flow_stamp_None flow_level_None)

lemma forwarded_le_budget:
  assumes K: "lru_map (ins_counts_v4 K)" "\<And>m v. ins_counts_v4 K m key v \<noteq> None"
    and c: "ddos_activated c" "flags_contains (protocol_allowed c) IPV4"
    and p: "p = active_profile c proto" "profile_ok p"
    and as: "\<forall>a \<in> set as. of_flow N c key proto T0 a \<and> t_bucket a \<le> T"
    and m: "flow_okay c key p T0 m" "flow_stamp key T0 m \<le> T"
    and slack: "(T - T0) div token_period p \<le> slack \<or>
      sorted (map t_bucket as) \<and> (\<forall>a \<in> set as. flow_stamp key T0 m \<le> t_bucket a)"
  shows "forwarded N K m as \<le> budget key p slack T T0 m (endings N c as)"
  using as m slack
proof (induction as arbitrary: m T0)
  case (Cons a as)
  let ?m = "snd (flow_step N K m a)"
  note lim = flow_limiter [OF K c p(2) [unfolded p(1)], folded p(1), of N T0]
  have a: "of_flow N c key proto T0 a" "t_bucket a \<le> T" and cfg: "current_config m = c"
    using Cons.prems by (simp_all add: flow_okay_def)
  show ?case
  proof (cases "ends_flow N c a")
    case False
    note valid = conjI [OF a(1) False]
    have stamp: "flow_stamp key T0 ?m \<le> max (flow_stamp key T0 m) (t_bucket a)"
      by (rule rate_limiter.step_stamp_le [OF lim Cons.prems(2) valid])
    have "forwarded N K ?m as \<le> budget key p slack T T0 ?m (endings N c as)"
      using Cons.prems stamp a by (intro Cons.IH rate_limiter.step_inv [OF lim Cons.prems(2) valid]) fastforce+
    with budget_step [OF lim Cons.prems(2) valid a(2) Cons.prems(3), of slack "endings N c as"] False
    show ?thesis by (simp add: forwarded_Cons endings_Cons)
  next
    case True
    note ending = flow_step_ending [OF cfg c(2) a(1) True, of K]
    show ?thesis
    proof (cases "map_of (PACKET_COUNTS_V4 ?m) key = None")
      case False
      with ending have dropped: "\<not> fst (flow_step N K m a)"
        and same: "map_of (PACKET_COUNTS_V4 ?m) key = map_of (PACKET_COUNTS_V4 m) key" by blast+
      note keep = flow_same_bucket [OF same ending(1) Cons.prems(2)]
      have "forwarded N K ?m as \<le> budget key p slack T T0 ?m (endings N c as)"
        using Cons.prems by (intro Cons.IH keep(1)) (auto simp: keep(3))
      then show ?thesis using dropped True by (simp add: forwarded_Cons endings_Cons budget_def keep)
    next
      case gone: True
      have okay: "flow_okay c key p T1 ?m" for T1 using ending(1) gone by (simp add: flow_okay_def)
      define T1 where "T1 = (if (T - T0) div token_period p \<le> slack then T0 else t_bucket a)"
      have "T0 \<le> T1" using a by (simp add: T1_def of_flow_def)
      have "forwarded N K ?m as \<le> budget key p slack T T1 ?m (endings N c as)"
      proof (rule Cons.IH [OF _ okay])
        show "flow_stamp key T1 ?m \<le> T"
          using a Cons.prems(3) by (auto simp: flow_stamp_None [OF gone] T1_def of_flow_def)
        show "\<forall>a \<in> set as. of_flow N c key proto T1 a \<and> t_bucket a \<le> T"
          using Cons.prems(1,4) by (auto simp: T1_def of_flow_def)
        show "(T - T1) div token_period p \<le> slack \<or>
            sorted (map t_bucket as) \<and> (\<forall>a \<in> set as. flow_stamp key T1 ?m \<le> t_bucket a)"
          using Cons.prems(4) by (auto simp: T1_def flow_stamp_None [OF gone])
      qed
      moreover have "(T - T1) div token_period p \<le> slack + (T - flow_stamp key T0 m) div token_period p"
        using Cons.prems(4) by (auto simp: T1_def intro: trans_le_add2 div_le_mono diff_le_mono2)
      note buy = budget_ending [OF gone this, of "endings N c as"]
      ultimately show ?thesis using True buy by (simp add: forwarded_Cons endings_Cons)
    qed
  qed
qed (simp add: forwarded_def budget_def)

section \<open>The bound\<close>

text \<open>
  C3: The rate of a flow: of any sequence of IPv4 packets of one flow between the times \<open>T0\<close> and
  \<open>T\<close>, in both directions, with nothing else at the flow's bucket in between, when rate limiting is on,
  the flow had no bucket at \<open>T0\<close> and the kernel does not refuse the flow's bucket. A packet with FIN or
  RST is forwarded unmetered and forgets the bucket (its \<open>t_bucket\<close> only says when it comes), so with \<open>f\<close> of them in the sequence at most
  \<open>(f + 1) * burst + f + (T - T0) / 2 ^ rate_shift\<close> packets are not dropped when they come in the order of
  their times; packets of several processors may read the clock in another order, and then each of the
  \<open>f + 1\<close> buckets may be refilled over the whole time. Without FIN and RST the bound is
  \<open>burst + (T - T0) / 2 ^ rate_shift\<close> in any order.
\<close>

theorem flow_rate_bound:
  assumes "lru_map (ins_counts_v4 K)" and "\<And>m v. ins_counts_v4 K m key v \<noteq> None"
    and "ddos_activated (current_config m)"
    and "flags_contains (protocol_allowed (current_config m)) IPV4"
    and "p = active_profile (current_config m) proto" and "profile_ok p"
    and "map_of (PACKET_COUNTS_V4 m) key = None"
    and "\<forall>a \<in> set as. of_flow N (current_config m) key proto T0 a \<and> t_bucket a \<le> T" and "T0 \<le> T"
    and "f = endings N (current_config m) as" and "refills = (T - T0) div token_period p"
  shows "forwarded N K m as \<le> (f + 1) * (unat (burst p) + refills) + f \<and>
    (sorted (map t_bucket as) \<longrightarrow> forwarded N K m as \<le> (f + 1) * unat (burst p) + f + refills)"
proof -
  have okay: "flow_okay (current_config m) key p T0 m" and stamp: "flow_stamp key T0 m \<le> T"
    using assms(7,9) by (simp_all add: flow_okay_def flow_stamp_def)
  have stamps: "\<forall>a \<in> set as. flow_stamp key T0 m \<le> t_bucket a"
    using assms(7,8) by (auto simp: of_flow_def flow_stamp_def)
  note bound = forwarded_le_budget [OF assms(1-6,8) okay stamp]
  show ?thesis
    using bound [of refills] bound [of 0] stamps assms(7,10,11)
    by (auto simp: budget_def flow_stamp_None flow_level_None algebra_simps)
qed

theorem flow_rate_bound_witness:
  "forwarded wire_net ref_kern sample_maps
     [\<lparr>t_entry = 5, t_bucket = 5, a_ctx = outbound4 ACK\<rparr>,
      \<lparr>t_entry = 6, t_bucket = 7, a_ctx = inbound4 FIN\<rparr>,
      \<lparr>t_entry = 8, t_bucket = 9, a_ctx = outbound4 ACK\<rparr>] \<le> 2 * 1000 + 1 + (9 - 5) div 2 ^ 20"
proof -
  let ?as = "[\<lparr>t_entry = 5, t_bucket = 5, a_ctx = outbound4 ACK\<rparr>,
      \<lparr>t_entry = 6, t_bucket = 7, a_ctx = inbound4 FIN\<rparr>,
      \<lparr>t_entry = 8, t_bucket = 9, a_ctx = outbound4 ACK\<rparr>]"
  have "\<forall>a \<in> set ?as. of_flow wire_net (current_config sample_maps) sample_key4 IpTcp 5 a \<and> t_bucket a \<le> 9"
    using sample_direction [of sample_maps] sample_parse_v4
    by (simp add: of_flow_def packet_direction_def [symmetric] sample_ether_type)
       (simp add: packet_direction_def)
  moreover have "endings wire_net (current_config sample_maps) ?as = 1"
    using sample_direction [of sample_maps] sample_parse_v4
    by (simp add: endings_def ends_flow_def packet_direction_def)
  ultimately show ?thesis
    using flow_rate_bound [OF _ _ _ _ refl _ _ _ _ refl refl, of ref_kern sample_key4 sample_maps IpTcp ?as wire_net 5 9]
    by (simp add: lru_map_lru_put lru_put_def flags_contains_def activater_defs active_profile_def
        profile_ok_def token_period_def)
qed

end
