(* ===== verification/Boot.thy ===== *)
theory Boot
  imports System
begin

text \<open>
  From the object file to the running server: \<open>EbpfProgramm::new\<close> and \<open>get_maps\<close> of oxidrop/src/ebpf.rs,
  and the order in which \<open>main\<close> of oxidrop/src/main.rs does the steps before the listener. Parsing the
  object, creating its maps and loading the program into the kernel are the library's (aya); what the
  code relies on when it takes the maps out of the object is the locale \<open>ebpf_object\<close>.
\<close>

section \<open>Loading the program\<close>

datatype load_error =
  ObjectRejected
| LoggerFailed
| XdpMissing
| XdpRejected
| MapNotFound string
| MapMistyped string

text \<open>The logger of the program: it has none (only traced), or its descriptor can be watched or not.\<close>

datatype logger = NoLogger | Logger bool

definition new_ebpf ::
    "'o option \<Rightarrow> logger \<Rightarrow> ('o \<Rightarrow> bool) \<Rightarrow> ('o \<Rightarrow> bool) \<Rightarrow> (load_error, 'o \<times> ebpf_programm) result" where
  "new_ebpf loaded logger has_xdp xdp_loads =
     (case loaded of
        None \<Rightarrow> Inl ObjectRejected
      | Some ebpf \<Rightarrow>
          if logger = Logger False then Inl LoggerFailed
          else if \<not> has_xdp ebpf then Inl XdpMissing
          else if \<not> xdp_loads ebpf then Inl XdpRejected
          else Inr (ebpf, new_programm))"

section \<open>Taking the maps\<close>

text \<open>
  \<open>take_map\<close> removes a map from the object and returns it, \<open>None\<close> when it is not there; a map that is
  there has the type its caller asks for or not.
\<close>

type_synonym 'o take_op = "'o \<Rightarrow> string \<Rightarrow> bool option \<times> 'o"

definition MAP_NAMES :: "string list" where
  "MAP_NAMES = [''CONFIG'', ''ALLOW_LIST_V4'', ''ALLOW_LIST_V6'', ''PACKET_COUNTS_V4'', ''PACKET_COUNTS_V6'',
     ''SUBNET_MATCHING_V4'', ''SUBNET_MATCHING_V6'']"

text \<open>One \<open>try_from(take_map(..).context(..)?)?\<close> after the other; what was taken before an error is lost.\<close>

fun take_maps :: "'o take_op \<Rightarrow> string list \<Rightarrow> 'o \<Rightarrow> (load_error, unit) result \<times> 'o" where
  "take_maps take_map [] ebpf = (Inr (), ebpf)"
| "take_maps take_map (name # names) ebpf =
     (case take_map ebpf name of
        (None, ebpf') \<Rightarrow> (Inl (MapNotFound name), ebpf')
      | (Some typed, ebpf') \<Rightarrow>
          if typed then take_maps take_map names ebpf' else (Inl (MapMistyped name), ebpf'))"

definition get_maps :: "'o take_op \<Rightarrow> 'o \<Rightarrow> (load_error, unit) result \<times> 'o" where
  "get_maps take_map ebpf = take_maps take_map MAP_NAMES ebpf"

locale ebpf_object =
  fixes take_map :: "'o take_op"
    and held :: "'o \<Rightarrow> string \<Rightarrow> bool option"
  assumes take_result: "fst (take_map ebpf name) = held ebpf name"
    and take_removes: "held (snd (take_map ebpf name)) = (held ebpf)(name := None)"
begin

lemma take_maps_ok:
  "distinct names \<Longrightarrow> fst (take_maps take_map names ebpf) = Inr () \<longleftrightarrow> (\<forall>n \<in> set names. held ebpf n = Some True)"
proof (induction names arbitrary: ebpf)
  case (Cons n names)
  obtain r ebpf' where t: "take_map ebpf n = (r, ebpf')" by fastforce
  then have r: "r = held ebpf n" and h: "held ebpf' = (held ebpf)(n := None)"
    using take_result [of ebpf n] take_removes [of ebpf n] by simp_all
  have "held ebpf' k = held ebpf k" if "k \<in> set names" for k using that Cons.prems by (auto simp: h)
  then show ?case using Cons by (auto simp: t r split: option.split)
qed simp

lemma take_maps_held:
  "fst (take_maps take_map names ebpf) = Inr () \<Longrightarrow>
     held (snd (take_maps take_map names ebpf)) = (\<lambda>n. if n \<in> set names then None else held ebpf n)"
proof (induction names arbitrary: ebpf)
  case (Cons n names)
  obtain r ebpf' where t: "take_map ebpf n = (r, ebpf')" by fastforce
  then have h: "held ebpf' = (held ebpf)(n := None)" using take_removes [of ebpf n] by simp
  then show ?case using Cons by (auto simp: t fun_eq_iff split: option.splits if_splits)
qed simp

lemma take_maps_error:
  "distinct names \<Longrightarrow> fst (take_maps take_map names ebpf) = Inl err \<Longrightarrow>
     \<exists>before n after. names = before @ n # after \<and> (\<forall>k \<in> set before. held ebpf k = Some True) \<and>
       (held ebpf n = None \<and> err = MapNotFound n \<or> held ebpf n = Some False \<and> err = MapMistyped n)"
proof (induction names arbitrary: ebpf)
  case (Cons n names)
  obtain r ebpf' where t: "take_map ebpf n = (r, ebpf')" by fastforce
  then have r: "r = held ebpf n" and h: "held ebpf' = (held ebpf)(n := None)"
    using take_result [of ebpf n] take_removes [of ebpf n] by simp_all
  show ?case
  proof (cases "r = Some True")
    case True
    then obtain before k after where "names = before @ k # after" "\<forall>x \<in> set before. held ebpf' x = Some True"
      "held ebpf' k = None \<and> err = MapNotFound k \<or> held ebpf' k = Some False \<and> err = MapMistyped k"
      using Cons.IH [of ebpf'] Cons.prems by (auto simp: t)
    then have "n # names = (n # before) @ k # after \<and> (\<forall>x \<in> set (n # before). held ebpf x = Some True) \<and>
        (held ebpf k = None \<and> err = MapNotFound k \<or> held ebpf k = Some False \<and> err = MapMistyped k)"
      using Cons.prems(1) True r by (auto simp: h split: if_splits)
    then show ?thesis by blast
  next
    case False
    then have "n # names = [] @ n # names \<and> (\<forall>x \<in> set []. held ebpf x = Some True) \<and>
        (held ebpf n = None \<and> err = MapNotFound n \<or> held ebpf n = Some False \<and> err = MapMistyped n)"
      using Cons.prems(2) r by (auto simp: t split: option.splits if_splits)
    then show ?thesis by blast
  qed
qed simp

end

text \<open>An object as the list of the maps it holds.\<close>

definition ref_take :: "(string \<times> bool) list take_op" where
  "ref_take ebpf name = (map_of ebpf name, del_key name ebpf)"

interpretation ref_object: ebpf_object ref_take map_of
  by unfold_locales (simp_all add: ref_take_def map_of_del_key)

lemma distinct_MAP_NAMES: "distinct MAP_NAMES"
  by (simp add: MAP_NAMES_def)

section \<open>The start as a whole\<close>

datatype boot_error = LoadError load_error | DatabaseError | StartError startup_error

text \<open>
  \<open>main\<close> up to the listener: the program, its maps (with the contents \<open>fresh\<close>), the database (\<open>None\<close>
  when it cannot be opened or migrated), and the rest of the start. An error carries the database as
  it is left.
\<close>

definition boot ::
    "env \<Rightarrow> u32 option \<Rightarrow> u32 option \<Rightarrow> 'o option \<Rightarrow> logger \<Rightarrow> ('o \<Rightarrow> bool) \<Rightarrow> ('o \<Rightarrow> bool) \<Rightarrow> 'o take_op \<Rightarrow>
     maps \<Rightarrow> database option \<Rightarrow> (boot_error \<times> database option, server) result" where
  "boot env opt_incoming opt_output loaded logger has_xdp xdp_loads take_map fresh opened =
     (case new_ebpf loaded logger has_xdp xdp_loads of
        Inl err \<Rightarrow> Inl (LoadError err, opened)
      | Inr (ebpf, programm) \<Rightarrow>
          (case get_maps take_map ebpf of
             (Inl err, _) \<Rightarrow> Inl (LoadError err, opened)
           | (Inr _, _) \<Rightarrow>
               (case opened of
                  None \<Rightarrow> Inl (DatabaseError, None)
                | Some d \<Rightarrow>
                    (case startup env opt_incoming opt_output programm fresh d of
                       Inl (err, d') \<Rightarrow> Inl (StartError err, Some d')
                     | Inr s \<Rightarrow> Inr s))))"

section \<open>Properties\<close>

text \<open>
  The maps are handed out once: taking them succeeds exactly when all seven are in the object with
  their types, otherwise the error names the first one that is missing or mistyped; after a success
  a second attempt fails at the first map.
\<close>

theorem maps_are_taken_once:
  assumes "ebpf_object take_map held" and "get_maps take_map ebpf = (r, ebpf')"
  shows "(r = Inr () \<longleftrightarrow> (\<forall>n \<in> set MAP_NAMES. held ebpf n = Some True)) \<and>
    (r = Inr () \<longrightarrow> (\<forall>n \<in> set MAP_NAMES. held ebpf' n = None) \<and>
       fst (get_maps take_map ebpf') = Inl (MapNotFound ''CONFIG'')) \<and>
    (\<forall>err. r = Inl err \<longrightarrow> (\<exists>before n after. MAP_NAMES = before @ n # after \<and>
       (\<forall>k \<in> set before. held ebpf k = Some True) \<and>
       (held ebpf n = None \<and> err = MapNotFound n \<or> held ebpf n = Some False \<and> err = MapMistyped n)))"
proof (intro conjI impI allI)
  have r: "fst (take_maps take_map MAP_NAMES ebpf) = r" "snd (take_maps take_map MAP_NAMES ebpf) = ebpf'"
    using assms(2) by (simp_all add: get_maps_def)
  show "r = Inr () \<longleftrightarrow> (\<forall>n \<in> set MAP_NAMES. held ebpf n = Some True)"
    using ebpf_object.take_maps_ok [OF assms(1) distinct_MAP_NAMES, of ebpf] by (simp only: r)
  show "\<exists>before n after. MAP_NAMES = before @ n # after \<and> (\<forall>k \<in> set before. held ebpf k = Some True) \<and>
      (held ebpf n = None \<and> err = MapNotFound n \<or> held ebpf n = Some False \<and> err = MapMistyped n)"
    if "r = Inl err" for err
    using ebpf_object.take_maps_error [OF assms(1) distinct_MAP_NAMES, of ebpf err] that by (simp only: r)
  assume "r = Inr ()"
  then have h: "held ebpf' = (\<lambda>n. if n \<in> set MAP_NAMES then None else held ebpf n)"
    using ebpf_object.take_maps_held [OF assms(1), of MAP_NAMES ebpf] by (simp only: r)
  then show "\<forall>n \<in> set MAP_NAMES. held ebpf' n = None" by simp
  then have "fst (take_map ebpf' ''CONFIG'') = None"
    using ebpf_object.take_result [OF assms(1), of ebpf' "''CONFIG''"] by (simp add: MAP_NAMES_def)
  then show "fst (get_maps take_map ebpf') = Inl (MapNotFound ''CONFIG'')"
    by (cases "take_map ebpf' ''CONFIG''") (simp add: get_maps_def MAP_NAMES_def)
qed

theorem maps_are_taken_once_witness:
  "fst (get_maps ref_take (map (\<lambda>n. (n, True)) MAP_NAMES)) = Inr () \<and>
   fst (get_maps ref_take (snd (get_maps ref_take (map (\<lambda>n. (n, True)) MAP_NAMES)))) = Inl (MapNotFound ''CONFIG'')"
proof -
  let ?o = "map (\<lambda>n. (n, True)) MAP_NAMES"
  obtain r o' where g: "get_maps ref_take ?o = (r, o')" by fastforce
  have "\<forall>n \<in> set MAP_NAMES. map_of ?o n = Some True" by (simp add: MAP_NAMES_def)
  with maps_are_taken_once [OF ref_object.ebpf_object_axioms g] g show ?thesis by simp
qed

text \<open>
  C26: The start takes its steps in order: an error before the database is opened leaves it untouched,
  so a machine that may not load eBPF programs never creates the first administrator; and a start that
  succeeds had every map and an open database, and reaches a well-formed running server.
\<close>

theorem boot_in_order:
  assumes "env_ok env" and "ebpf_object take_map held" and "tables_ok fresh"
    and "SUBNET_MATCHING_V4 fresh = []" and "SUBNET_MATCHING_V6 fresh = []" and "pred_option db_ok opened"
    and "boot env oi oo loaded logger has_xdp xdp_loads take_map fresh opened = r"
  shows "(\<forall>err d'. r = Inl (LoadError err, d') \<longrightarrow> d' = opened) \<and>
    (\<forall>s. r = Inr s \<longrightarrow> reachable s \<and> server_ok s \<and> opened \<noteq> None \<and>
      (\<exists>ebpf. loaded = Some ebpf \<and> has_xdp ebpf \<and> xdp_loads ebpf \<and>
        (\<forall>n \<in> set MAP_NAMES. held ebpf n = Some True)))"
proof (intro conjI allI impI)
  show "d' = opened" if "r = Inl (LoadError err, d')" for err d'
    using that assms(7) by (auto simp: boot_def split: sum.splits prod.splits option.splits)
next
  fix s assume "r = Inr s"
  then obtain ebpf d where n: "new_ebpf loaded logger has_xdp xdp_loads = Inr (ebpf, new_programm)"
    and g: "fst (get_maps take_map ebpf) = Inr ()" and d: "opened = Some d"
    and s: "startup env oi oo new_programm fresh d = Inr s"
    using assms(7)
    by (auto simp: boot_def new_ebpf_def split: sum.splits prod.splits option.splits if_splits)
  have "reachable s"
    using reachable.start [OF assms(1) _ assms(3-5) s] assms(6) by (simp add: d)
  moreover from this have "server_ok s" by (rule reachable_ok)
  moreover have "\<forall>n \<in> set MAP_NAMES. held ebpf n = Some True"
    using ebpf_object.take_maps_ok [OF assms(2) distinct_MAP_NAMES, of ebpf] g by (simp add: get_maps_def)
  moreover have "loaded = Some ebpf \<and> has_xdp ebpf \<and> xdp_loads ebpf"
    using n by (auto simp: new_ebpf_def split: option.splits if_splits)
  ultimately show "reachable s" "server_ok s" "opened \<noteq> None"
    "\<exists>ebpf. loaded = Some ebpf \<and> has_xdp ebpf \<and> xdp_loads ebpf \<and> (\<forall>n \<in> set MAP_NAMES. held ebpf n = Some True)"
    using d by auto
qed

theorem boot_in_order_witness:
  "\<exists>s. boot ref_env (Some 2) (Some 1) (Some (map (\<lambda>n. (n, True)) MAP_NAMES)) NoLogger (\<lambda>_. True) (\<lambda>_. True)
     ref_take empty_maps (Some empty_database) = Inr s \<and> reachable s"
proof -
  let ?o = "map (\<lambda>n. (n, True)) MAP_NAMES"
  obtain s where s: "startup ref_env (Some 2) (Some 1) new_programm empty_maps empty_database = Inr s"
    by (rule sample_startup)
  have "fst (get_maps ref_take ?o) = Inr ()"
    using ref_object.take_maps_ok [OF distinct_MAP_NAMES, of ?o] by (simp add: get_maps_def MAP_NAMES_def)
  then have b: "boot ref_env (Some 2) (Some 1) (Some ?o) NoLogger (\<lambda>_. True) (\<lambda>_. True) ref_take empty_maps
      (Some empty_database) = Inr s"
    using s by (cases "get_maps ref_take ?o") (simp add: boot_def new_ebpf_def)
  have "pred_option db_ok (Some empty_database)" by (simp add: empty_start)
  from boot_in_order [OF ref_env_ok ref_object.ebpf_object_axioms empty_start(2-4) this b] b
  show ?thesis by blast
qed

end
