(* ===== verification/Sessions.thy ===== *)
theory Sessions
  imports Router
begin

text \<open>
  Sessions end to end (\<open>AuthUser for AppUser\<close> and \<open>get_user\<close> of oxidrop/src/auth.rs). The session library
  keeps the id and the authentication hash of the user who logged in, and on every request looks the
  user up again and compares the hash; its documented behaviour is the locale \<open>session_library\<close>. With
  the code's lookup and hash, a session lasts as long as the account is active and its password is
  the same, and no longer.
\<close>

section \<open>What a session keeps\<close>

record session_data =
  sd_user_id :: int
  sd_auth_hash :: string

definition user_id :: "app_user \<Rightarrow> int" where
  "user_id u = au_id u"

definition session_auth_hash :: "app_user \<Rightarrow> string" where
  "session_auth_hash u = au_password_hash u"

text \<open>What the library keeps of a user who logs in.\<close>

definition remember :: "app_user \<Rightarrow> session_data" where
  "remember u = \<lparr>sd_user_id = user_id u, sd_auth_hash = session_auth_hash u\<rparr>"

type_synonym resume_op = "(int \<Rightarrow> (user_error, app_user option) result) \<Rightarrow> session_data \<Rightarrow> app_user option"

text \<open>
  The user of a request from the data of its session, \<open>None\<close> when there is none or the lookup fails:
  the user that the lookup returns, provided the hash is still the one of the login.
\<close>

locale session_library =
  fixes resume :: resume_op
  assumes resumed: "resume lookup data = Some u \<Longrightarrow>
      lookup (sd_user_id data) = Inr (Some u) \<and> session_auth_hash u = sd_auth_hash data"
    and resumes: "lookup (sd_user_id data) = Inr (Some u) \<Longrightarrow> session_auth_hash u = sd_auth_hash data \<Longrightarrow>
      resume lookup data = Some u"
begin

lemma resume_remember: "lookup (user_id u) = Inr (Some u) \<Longrightarrow> resume lookup (remember u) = Some u"
  by (rule resumes) (simp_all add: remember_def)

lemma resume_iff: "resume lookup data = Some u \<longleftrightarrow>
    lookup (sd_user_id data) = Inr (Some u) \<and> session_auth_hash u = sd_auth_hash data"
  using resumed resumes by blast

lemma resume_None:
  assumes "\<And>u. lookup (sd_user_id data) = Inr (Some u) \<Longrightarrow> session_auth_hash u \<noteq> sd_auth_hash data"
  shows "resume lookup data = None"
  using resumed assms by (cases "resume lookup data") auto

end

definition ref_resume :: resume_op where
  "ref_resume lookup data =
     (case lookup (sd_user_id data) of
        Inr (Some u) \<Rightarrow> if session_auth_hash u = sd_auth_hash data then Some u else None
      | _ \<Rightarrow> None)"

interpretation ref_session: session_library ref_resume
  by unfold_locales (auto simp: ref_resume_def split: sum.splits option.splits if_splits)

text \<open>A request with the data of its session.\<close>

definition session_user :: "resume_op \<Rightarrow> env \<Rightarrow> session_data option \<Rightarrow> server \<Rightarrow> app_user option" where
  "session_user resume env data s =
     Option.bind data (resume (\<lambda>user_id. get_user (e_faults env) user_id (s_db s)))"

definition serve_session ::
    "resume_op \<Rightarrow> env \<Rightarrow> string \<Rightarrow> request \<Rightarrow> session_data option \<Rightarrow> server \<Rightarrow> reply" where
  "serve_session resume env line req data s = serve env line req (session_user resume env data s) s"

section \<open>The lookup\<close>

lemma get_user_active:
  assumes "get_user flt i d = Inr (Some a)"
  obtains u where "u \<in> set (users d)" "u_id u = i" "u_is_active u = 1" "a = row_to_user u"
proof -
  from assms obtain u where f: "find (\<lambda>u. u_id u = i \<and> u_is_active u = 1) (users d) = Some u"
    and a: "a = row_to_user u"
    by (auto simp: get_user_def split: if_splits option.splits)
  from f have "u \<in> set (users d)" "u_id u = i" "u_is_active u = 1" by (auto simp: find_Some_iff)
  with a that show thesis by blast
qed

lemma row_to_user_sel [simp]:
  "user_id (row_to_user u) = u_id u"
  "session_auth_hash (row_to_user u) = u_password_hash u"
  by (simp_all add: user_id_def session_auth_hash_def row_to_user_def)

text \<open>A session of a row is over when no active row has its id and hash.\<close>

lemma session_over:
  assumes "session_library resume"
    and "\<And>v. v \<in> set (users (s_db s)) \<Longrightarrow> u_id v = u_id u \<Longrightarrow> u_is_active v = 1 \<Longrightarrow>
      u_password_hash v \<noteq> u_password_hash u"
  shows "session_user resume env (Some (remember (row_to_user u))) s = None"
proof -
  have "resume (\<lambda>user_id. get_user (e_faults env) user_id (s_db s)) (remember (row_to_user u)) = None"
    by (rule session_library.resume_None [OF assms(1)])
      (auto simp: remember_def elim!: get_user_active dest: assms(2))
  then show ?thesis by (simp add: session_user_def)
qed

text \<open>The operations that end the sessions of an account, on the row of the account before.\<close>

inductive revokes :: "services \<Rightarrow> user_row \<Rightarrow> database \<Rightarrow> database \<Rightarrow> bool" where
  deactivated: "modify_user S flt salt c (u_username u) r perms act new_pw d = (Inr (), d') \<Longrightarrow> act \<noteq> 1 \<Longrightarrow>
    revokes S u d d'"
| password_set: "modify_user S flt salt c (u_username u) r perms act (Some pw) d = (Inr (), d') \<Longrightarrow>
    argon_hash S salt pw \<noteq> Inr (u_password_hash u) \<Longrightarrow> revokes S u d d'"
| password_changed: "change_password S flt salt (u_id u) pw d = (Inr (), d') \<Longrightarrow>
    argon_hash S salt pw \<noteq> Inr (u_password_hash u) \<Longrightarrow> revokes S u d d'"
| deleted: "delete_user flt (u_username u) c d = (Inr (), d') \<Longrightarrow> revokes S u d d'"

lemma same_id_row: "users_ok us \<Longrightarrow> u \<in> set us \<Longrightarrow> v \<in> set us \<Longrightarrow> u_id v = u_id u \<Longrightarrow> v = u"
  by (auto simp: users_ok_def unique_key_def distinct_map inj_on_def)

lemma revoked_rows:
  assumes "revokes S u d d'" and "users_ok (users d)" and "u \<in> set (users d)"
    and "v \<in> set (users d')" and "u_id v = u_id u" and "u_is_active v = 1"
  shows "u_password_hash v \<noteq> u_password_hash u"
  using assms(1)
proof cases
  case (deactivated flt salt c r perms act new_pw)
  from deactivated(1) show ?thesis
    by (rule modify_user_Inr) (use assms(3-6) deactivated(2) same_id_row [OF assms(2,3)] in \<open>auto split: if_splits\<close>)
next
  case (password_set flt salt c r perms act pw)
  from password_set(1) show ?thesis
    by (rule modify_user_Inr) (use assms(3-6) password_set(2) same_id_row [OF assms(2,3)] in \<open>auto split: if_splits option.splits\<close>)
next
  case (password_changed flt salt pw)
  from password_changed(1) show ?thesis
    by (rule change_password_Inr) (use assms(3-6) password_changed(2) in \<open>auto split: if_splits\<close>)
next
  case (deleted flt c)
  then have "v \<in> set (users d)" "u_username v \<noteq> u_username u"
    using assms(4) by (auto simp: delete_user_def sql_delete_def Let_def split: if_splits)
  with same_id_row [OF assms(2,3) _ assms(5)] show ?thesis by blast
qed

section \<open>Properties\<close>

text \<open>
  C15: An account that was deactivated, deleted, or given another password has no session left: with
  the data of any session opened before, the library finds no user, so no request changes the firewall
  or the accounts (a fresh login with the password apart), whichever route it takes.
\<close>

theorem revoked_session_powerless:
  assumes "session_library resume" and "users_ok (users d)" and "u \<in> set (users d)"
    and "revokes S u d (s_db s)"
    and "serve_session resume env line req (Some (remember (row_to_user u))) s = (resp, session', s')"
  shows "session_user resume env (Some (remember (row_to_user u))) s = None \<and> same_firewall s s' \<and>
    (\<not> own_account req \<longrightarrow> users (s_db s') = users (s_db s))"
proof -
  have none: "session_user resume env (Some (remember (row_to_user u))) s = None"
    by (rule session_over [OF assms(1)]) (rule revoked_rows [OF assms(4,2,3)])
  then have "serve env line req None s = (resp, session', s')"
    using assms(5) by (simp add: serve_session_def)
  moreover have "\<not> authorised req None" by (simp add: authorised_def)
  ultimately show ?thesis using none serve_unauthorised by blast
qed

text \<open>The administrator of the sample database, and the server after the account was deactivated.\<close>

definition sample_row :: user_row where
  "sample_row = \<lparr>u_id = 1, u_username = ''admin'', u_password_hash = ''$first password'', u_role = ''admin'',
     u_action_permissions = 7, u_password_must_be_changed = 0, u_is_active = 1, u_last_login_at = None\<rparr>"

lemma sample_row_in: "sample_row \<in> set (users sample_database)"
  by (simp add: sample_database_def sample_row_def)

theorem revoked_session_powerless_witness:
  "same_firewall (sample_server\<lparr>s_db := sample_database\<lparr>users := [sample_row\<lparr>u_is_active := 0\<rparr>]\<rparr>\<rparr>)
     (snd (snd (serve_session ref_resume ref_env ''POST /api/v1/config/ebpf/shutdown'' (Change ShutdownEbpf)
       (Some (remember (row_to_user sample_row)))
       (sample_server\<lparr>s_db := sample_database\<lparr>users := [sample_row\<lparr>u_is_active := 0\<rparr>]\<rparr>\<rparr>))))"
proof -
  let ?s = "sample_server\<lparr>s_db := sample_database\<lparr>users := [sample_row\<lparr>u_is_active := 0\<rparr>]\<rparr>\<rparr>"
  have "modify_user ref_services no_faults ''s'' sample_admin ''admin'' Admin 7 0 None sample_database =
      (Inr (), sample_database\<lparr>users := [sample_row\<lparr>u_is_active := 0\<rparr>]\<rparr>)" by code_simp
  moreover have "u_username sample_row = ''admin''" by (simp add: sample_row_def)
  ultimately have r: "revokes ref_services sample_row sample_database (s_db ?s)"
    using revokes.deactivated [of ref_services no_faults "''s''" sample_admin sample_row] by fastforce
  obtain resp session' s' where s: "serve_session ref_resume ref_env ''POST /api/v1/config/ebpf/shutdown''
      (Change ShutdownEbpf) (Some (remember (row_to_user sample_row))) ?s = (resp, session', s')"
    by (metis prod.collapse)
  from revoked_session_powerless [OF ref_session.session_library_axioms sample_users_ok sample_row_in r s] s
  show ?thesis by simp
qed

text \<open>
  A login opens a session that lasts: with what the library keeps of it, every later request finds
  the account that logged in, as long as the users table is as the login left it, so the requests that
  do not touch accounts keep it.
\<close>

theorem login_session_resumes:
  assumes "session_library resume" and "users_ok (users d)"
    and "login S flt now login_ok ip name pw session d = ((S_OK, body), session', d')"
    and "users (s_db s) = users d'" and "\<not> e_faults env SelectUserById"
  shows "\<exists>a. session' = Some a \<and> au_username a = name \<and> session_user resume env (Some (remember a)) s = session'"
proof (cases rule: login_cases [of S flt now name pw d login_ok ip session])
  case (success a d1)
  obtain u where u: "valid_login S name pw d u" "a = row_to_user u"
    "get_user no_faults (u_id u) d1 = Inr (Some a)"
    by (rule authenticate_lookup [OF assms(2) success(1)])
  have l: "session' = Some a" "d' = d1" using success(2) assms(3) by (auto split: if_splits)
  have "get_user (e_faults env) (user_id a) (s_db s) = Inr (Some a)"
    using u(3) assms(4,5) by (simp add: l(2) u(2) get_user_def)
  then have "resume (\<lambda>user_id. get_user (e_faults env) user_id (s_db s)) (remember a) = Some a"
    by (rule session_library.resume_remember [OF assms(1)])
  moreover have "au_username a = name" using u(1) by (simp add: u(2) valid_login_def row_to_user_def)
  ultimately show ?thesis by (simp add: l(1) session_user_def)
next
  case (refused e d1 d2)
  with assms(3) show ?thesis by simp
qed

theorem login_session_resumes_witness:
  "\<exists>a d'. login ref_services no_faults 9 True ''127.0.0.1'' ''admin'' ''first password'' None sample_database =
       ((S_OK, NoBody), Some a, d') \<and>
     session_user ref_resume ref_env (Some (remember a)) (sample_server\<lparr>s_db := d'\<rparr>) = Some a"
proof -
  obtain a d' where l: "login ref_services no_faults 9 True ''127.0.0.1'' ''admin'' ''first password'' None
      sample_database = ((S_OK, NoBody), Some a, d')"
  proof -
    have "valid_login ref_services ''admin'' ''first password'' sample_database sample_row"
      by (simp add: valid_login_def sample_row_in) (simp add: sample_row_def ref_services_def)
    then have "fst (authenticate ref_services no_faults 9 ''admin'' ''first password'' sample_database) =
        Inr (Some (row_to_user sample_row))"
      unfolding authenticate_iff [OF sample_users_ok] by auto
    with that show thesis
      by (cases rule: login_cases [of ref_services no_faults 9 "''admin''" "''first password''" sample_database
            True "''127.0.0.1''" None]) auto
  qed
  have "users (s_db (sample_server\<lparr>s_db := d'\<rparr>)) = users d'" "\<not> e_faults ref_env SelectUserById"
    by (simp_all add: ref_env_def)
  from login_session_resumes [OF ref_session.session_library_axioms sample_users_ok l this] l
  show ?thesis by simp
qed

end
