(* ===== verification/Routes.thy ===== *)
theory Routes
  imports Router
begin

text \<open>
  The tables of routes (\<open>unsafe_router\<close>, \<open>safe_router\<close> and \<open>combined_router\<close> of
  oxidrop/src/router.rs, \<open>config_router\<close> of oxidrop/src/state.rs), the operations that
  oxidrop/src/router.rs documents, and the methods that oxidrop/src/main.rs opens to other origins.
  The router itself is axum's: its builder is an argument (\<open>axum\<close>), and the contract \<open>axum_router\<close>
  says what the tables rely on for paths without parameters. \<open>Router.route\<close> is what these tables
  give, layer by layer.
\<close>

section \<open>The builder of axum\<close>

datatype http_method = HttpGet | HttpPost | HttpPut | HttpDelete | HttpPatch

text \<open>One constructor for each handler.\<close>

datatype endpoint =
  E_login | E_get_user | E_logout | E_change_password | E_get_role_and_permissions
| E_get_logs | E_log_websocket
| E_create_user | E_modify_user | E_delete_user | E_rename_user | E_list_users
| E_get_config | E_update_config | E_get_ebpf_adapters | E_shutdown_ebpf | E_restart_ebpf | E_get_traffic_stats
| E_get_allow_list_v4 | E_modify_allow_list_v4 | E_clear_allow_list_v4
| E_get_allow_list_v6 | E_modify_allow_list_v6 | E_clear_allow_list_v6
| E_get_packet_counts_v4 | E_modify_packet_counts_v4 | E_clear_packet_counts_v4
| E_get_packet_counts_v6 | E_modify_packet_counts_v6 | E_clear_packet_counts_v6
| E_list_subnet_v4 | E_modify_subnet_v4 | E_remove_subnet_v4
| E_list_subnet_v6 | E_modify_subnet_v6 | E_remove_subnet_v6

text \<open>\<open>login_required!\<close> and \<open>from_fn(require_completed_password_change)\<close>.\<close>

datatype layer = LoginRequired | PasswordChanged

type_synonym served = "http_method \<times> string \<Rightarrow> (endpoint \<times> layer list) option"

record 'r axum =
  ax_new :: 'r
  ax_route :: "'r \<Rightarrow> string \<Rightarrow> (http_method \<times> endpoint) list \<Rightarrow> 'r"
  ax_nest :: "'r \<Rightarrow> string \<Rightarrow> 'r \<Rightarrow> 'r"
  ax_merge :: "'r \<Rightarrow> 'r \<Rightarrow> 'r"
  ax_route_layer :: "'r \<Rightarrow> layer \<Rightarrow> 'r"

definition with_routes :: "'r axum \<Rightarrow> 'r \<Rightarrow> (string \<times> (http_method \<times> endpoint) list) list \<Rightarrow> 'r" where
  "with_routes A r rs = fold (\<lambda>(path, methods) r. ax_route A r path methods) rs r"

section \<open>The tables of the source\<close>

definition config_router :: "'r axum \<Rightarrow> 'r" where
  "config_router A = with_routes A (ax_new A)
     [(''/'', [(HttpGet, E_get_config), (HttpPost, E_update_config)]),
      (''/adapters'', [(HttpGet, E_get_ebpf_adapters)]),
      (''/ebpf/shutdown'', [(HttpPost, E_shutdown_ebpf)]),
      (''/ebpf/restart'', [(HttpPost, E_restart_ebpf)]),
      (''/traffic'', [(HttpGet, E_get_traffic_stats)]),
      (''/allow_list/v4'', [(HttpGet, E_get_allow_list_v4), (HttpPost, E_modify_allow_list_v4),
                           (HttpDelete, E_clear_allow_list_v4)]),
      (''/allow_list/v6'', [(HttpGet, E_get_allow_list_v6), (HttpPost, E_modify_allow_list_v6),
                           (HttpDelete, E_clear_allow_list_v6)]),
      (''/packet_counts/v4'', [(HttpGet, E_get_packet_counts_v4), (HttpPost, E_modify_packet_counts_v4),
                              (HttpDelete, E_clear_packet_counts_v4)]),
      (''/packet_counts/v6'', [(HttpGet, E_get_packet_counts_v6), (HttpPost, E_modify_packet_counts_v6),
                              (HttpDelete, E_clear_packet_counts_v6)]),
      (''/subnet/v4'', [(HttpGet, E_list_subnet_v4), (HttpPost, E_modify_subnet_v4), (HttpDelete, E_remove_subnet_v4)]),
      (''/subnet/v6'', [(HttpGet, E_list_subnet_v6), (HttpPost, E_modify_subnet_v6), (HttpDelete, E_remove_subnet_v6)])]"

definition unsafe_router :: "'r axum \<Rightarrow> 'r" where
  "unsafe_router A = with_routes A (ax_new A)
     [(''/login'', [(HttpPost, E_login)]), (''/get_user'', [(HttpGet, E_get_user)])]"

definition user_routes :: "'r axum \<Rightarrow> 'r" where
  "user_routes A = with_routes A (ax_new A)
     [(''/create_user'', [(HttpPost, E_create_user)]),
      (''/modify_user'', [(HttpPut, E_modify_user)]),
      (''/delete_user'', [(HttpDelete, E_delete_user)]),
      (''/rename_user'', [(HttpPatch, E_rename_user)]),
      (''/get_all_user'', [(HttpGet, E_list_users)])]"

definition password_change_route :: "'r axum \<Rightarrow> 'r" where
  "password_change_route A =
     ax_route_layer A (with_routes A (ax_new A) [(''/change_password'', [(HttpPost, E_change_password)])]) LoginRequired"

definition restricted_routes :: "'r axum \<Rightarrow> 'r" where
  "restricted_routes A =
     (let r = with_routes A (ax_new A) [(''/role_and_permissions'', [(HttpGet, E_get_role_and_permissions)])];
          r = ax_nest A r ''/config'' (config_router A);
          r = with_routes A r [(''/logs'', [(HttpGet, E_get_logs)]), (''/logs/ws'', [(HttpGet, E_log_websocket)])];
          r = ax_nest A r ''/users'' (user_routes A)
      in ax_route_layer A (ax_route_layer A r PasswordChanged) LoginRequired)"

definition safe_router :: "'r axum \<Rightarrow> 'r" where
  "safe_router A =
     (let r = ax_route_layer A (with_routes A (ax_new A) [(''/logout'', [(HttpGet, E_logout)])]) LoginRequired
      in ax_merge A (ax_merge A r (password_change_route A)) (restricted_routes A))"

text \<open>The fallback and the outer layer of \<open>combined_router\<close> are \<open>Frontend\<close> and \<open>serve\<close> of \<open>Router\<close>.\<close>

definition combined_router :: "'r axum \<Rightarrow> 'r" where
  "combined_router A =
     (let router = ax_merge A (ax_merge A (ax_new A) (unsafe_router A)) (safe_router A)
      in ax_nest A (ax_new A) ''/api/v1'' router)"

text \<open>The methods of the CORS layer.\<close>

definition cors_methods :: "http_method list" where
  "cors_methods = [HttpGet, HttpPost, HttpPut, HttpDelete]"

text \<open>The operations of \<open>ApiDoc\<close>, each with the method and the path of the handler's annotation.\<close>

definition api_doc :: "((http_method \<times> string) \<times> endpoint) list" where
  "api_doc =
     [((HttpPost, ''/api/v1/login''), E_login),
      ((HttpGet, ''/api/v1/logout''), E_logout),
      ((HttpGet, ''/api/v1/get_user''), E_get_user),
      ((HttpGet, ''/api/v1/role_and_permissions''), E_get_role_and_permissions),
      ((HttpPost, ''/api/v1/users/create_user''), E_create_user),
      ((HttpPut, ''/api/v1/users/modify_user''), E_modify_user),
      ((HttpPatch, ''/api/v1/users/rename_user''), E_rename_user),
      ((HttpDelete, ''/api/v1/users/delete_user''), E_delete_user),
      ((HttpGet, ''/api/v1/users/get_all_user''), E_list_users),
      ((HttpGet, ''/api/v1/config''), E_get_config),
      ((HttpPost, ''/api/v1/config''), E_update_config),
      ((HttpGet, ''/api/v1/config/traffic''), E_get_traffic_stats),
      ((HttpGet, ''/api/v1/logs''), E_get_logs),
      ((HttpGet, ''/api/v1/config/adapters''), E_get_ebpf_adapters),
      ((HttpGet, ''/api/v1/config/allow_list/v4''), E_get_allow_list_v4),
      ((HttpPost, ''/api/v1/config/allow_list/v4''), E_modify_allow_list_v4),
      ((HttpDelete, ''/api/v1/config/allow_list/v4''), E_clear_allow_list_v4),
      ((HttpGet, ''/api/v1/config/allow_list/v6''), E_get_allow_list_v6),
      ((HttpPost, ''/api/v1/config/allow_list/v6''), E_modify_allow_list_v6),
      ((HttpDelete, ''/api/v1/config/allow_list/v6''), E_clear_allow_list_v6),
      ((HttpGet, ''/api/v1/config/packet_counts/v4''), E_get_packet_counts_v4),
      ((HttpPost, ''/api/v1/config/packet_counts/v4''), E_modify_packet_counts_v4),
      ((HttpDelete, ''/api/v1/config/packet_counts/v4''), E_clear_packet_counts_v4),
      ((HttpGet, ''/api/v1/config/packet_counts/v6''), E_get_packet_counts_v6),
      ((HttpPost, ''/api/v1/config/packet_counts/v6''), E_modify_packet_counts_v6),
      ((HttpDelete, ''/api/v1/config/packet_counts/v6''), E_clear_packet_counts_v6),
      ((HttpGet, ''/api/v1/config/subnet/v4''), E_list_subnet_v4),
      ((HttpPost, ''/api/v1/config/subnet/v4''), E_modify_subnet_v4),
      ((HttpDelete, ''/api/v1/config/subnet/v4''), E_remove_subnet_v4),
      ((HttpGet, ''/api/v1/config/subnet/v6''), E_list_subnet_v6),
      ((HttpPost, ''/api/v1/config/subnet/v6''), E_modify_subnet_v6),
      ((HttpDelete, ''/api/v1/config/subnet/v6''), E_remove_subnet_v6)]"

section \<open>The contract of the router\<close>

text \<open>A path that axum takes literally, and the path of a nested route below its prefix.\<close>

definition absolute :: "string \<Rightarrow> bool" where
  "absolute path \<longleftrightarrow> (case path of [] \<Rightarrow> False | c # _ \<Rightarrow> c = CHR ''/'')"

definition literal :: "string \<Rightarrow> bool" where
  "literal path \<longleftrightarrow> absolute path \<and> CHR 0x7B \<notin> set path"

definition nested :: "string \<Rightarrow> string \<Rightarrow> string" where
  "nested pre path = (if path = ''/'' then pre else pre @ path)"

definition below :: "string \<Rightarrow> string \<Rightarrow> string option" where
  "below pre path =
     (if path = pre then Some ''/''
      else if take (length pre) path = pre \<and> absolute (drop (length pre) path)
              \<and> drop (length pre) path \<noteq> ''/''
      then Some (drop (length pre) path) else None)"

lemma below_nested: "absolute path \<Longrightarrow> below pre q = Some path \<longleftrightarrow> q = nested pre path"
proof -
  assume a: "absolute path"
  have "q = pre @ path" if "take (length pre) q = pre" "drop (length pre) q = path"
    using append_take_drop_id [of "length pre" q] that by simp
  with a show ?thesis by (auto simp: below_def nested_def absolute_def split: list.splits)
qed

text \<open>
  What axum documents of its builder for such paths. Two routes that overlap make it panic, so the laws
  for adding routes are those of tables that do not. \<open>route_layer\<close> wraps the routes that are there.
\<close>

locale axum_router =
  fixes A :: "'r axum" and serves :: "'r \<Rightarrow> served"
  assumes new: "serves (ax_new A) q = None"
    and route: "\<lbrakk>literal path; distinct (map fst methods); \<forall>m \<in> fst ` set methods. serves r (m, path) = None\<rbrakk> \<Longrightarrow>
      serves (ax_route A r path methods) (m, p) =
        (case map_of methods m of
           Some e \<Rightarrow> if p = path then Some (e, []) else serves r (m, p)
         | None \<Rightarrow> serves r (m, p))"
    and nest: "\<lbrakk>literal pre; pre \<noteq> ''/''; \<forall>m p. serves r' (m, p) \<noteq> None \<longrightarrow> absolute p \<and> serves r (m, nested pre p) = None\<rbrakk> \<Longrightarrow>
      serves (ax_nest A r pre r') (m, p) =
        (case Option.bind (below pre p) (\<lambda>p'. serves r' (m, p')) of Some x \<Rightarrow> Some x | None \<Rightarrow> serves r (m, p))"
    and merge: "\<forall>q. serves r q = None \<or> serves r' q = None \<Longrightarrow>
      serves (ax_merge A r r') q = (case serves r q of Some x \<Rightarrow> Some x | None \<Rightarrow> serves r' q)"
    and route_layer: "serves (ax_route_layer A r l) q = map_option (apsnd ((#) l)) (serves r q)"

text \<open>Routers as lists of routes.\<close>

type_synonym table = "((http_method \<times> string) \<times> (endpoint \<times> layer list)) list"

definition ref_axum :: "table axum" where
  "ref_axum = \<lparr>ax_new = [],
     ax_route = \<lambda>t path methods. map (\<lambda>(m, e). ((m, path), (e, []))) methods @ t,
     ax_nest = \<lambda>t pre t'. map (\<lambda>((m, p), x). ((m, nested pre p), x)) t' @ t,
     ax_merge = \<lambda>t t'. t @ t',
     ax_route_layer = \<lambda>t l. map (\<lambda>(q, x). (q, apsnd ((#) l) x)) t\<rparr>"

lemma ref_route: "map_of (map (\<lambda>(m, e). ((m, path), (e, []))) methods) (m, p) =
  (if p = path then map_option (\<lambda>e. (e, [])) (map_of methods m) else None)"
  by (induction methods) auto

lemma ref_nest:
  assumes "\<forall>m p. map_of t' (m, p) \<noteq> None \<longrightarrow> absolute p"
  shows "map_of (map (\<lambda>((m, p), x). ((m, nested pre p), x)) t') (m, q) =
    Option.bind (below pre q) (\<lambda>p. map_of t' (m, p))"
  using assms
proof (induction t')
  case (Cons e t')
  obtain m' p' x where e: "e = ((m', p'), x)" by (metis prod.collapse)
  have "absolute p'" using Cons.prems [rule_format, of m' p'] by (simp add: e)
  moreover have "absolute p" if "map_of t' (m, p) \<noteq> None" for m p
    using Cons.prems [rule_format, of m p] that by (auto simp: e split: if_splits)
  ultimately show ?case
    using Cons.IH below_nested [of p' pre q] by (cases "below pre q") (auto simp: e)
qed simp

interpretation ref_router: axum_router ref_axum map_of
proof
  fix t t' :: table and q m p path pre l and methods :: "(http_method \<times> endpoint) list"
  show "map_of (ax_new ref_axum) q = None" by (simp add: ref_axum_def)
  show "map_of (ax_route_layer ref_axum t l) q = map_option (apsnd ((#) l)) (map_of t q)"
    by (simp add: ref_axum_def map_of_map)
  show "map_of (ax_merge ref_axum t t') q = (case map_of t q of Some x \<Rightarrow> Some x | None \<Rightarrow> map_of t' q)"
    if "\<forall>q. map_of t q = None \<or> map_of t' q = None"
    using that by (auto simp: ref_axum_def map_add_def split: option.split)
  show "map_of (ax_route ref_axum t path methods) (m, p) =
      (case map_of methods m of
         Some e \<Rightarrow> if p = path then Some (e, []) else map_of t (m, p)
       | None \<Rightarrow> map_of t (m, p))"
    by (auto simp: ref_axum_def map_add_def ref_route split: option.split)
  show "map_of (ax_nest ref_axum t pre t') (m, p) =
      (case Option.bind (below pre p) (\<lambda>p'. map_of t' (m, p')) of Some x \<Rightarrow> Some x | None \<Rightarrow> map_of t (m, p))"
    if "\<forall>m p. map_of t' (m, p) \<noteq> None \<longrightarrow> absolute p \<and> map_of t (m, nested pre p) = None"
    using that ref_nest [of t' pre m p] by (simp add: ref_axum_def map_add_def)
qed

section \<open>Every router serves the reference table\<close>

text \<open>The conditions of the laws, on a table.\<close>

definition can_route :: "table \<Rightarrow> string \<Rightarrow> (http_method \<times> endpoint) list \<Rightarrow> bool" where
  "can_route t path methods \<longleftrightarrow>
     literal path \<and> distinct (map fst methods) \<and> list_all (\<lambda>(m, _). map_of t (m, path) = None) methods"

fun can_routes :: "table \<Rightarrow> (string \<times> (http_method \<times> endpoint) list) list \<Rightarrow> bool" where
  "can_routes t [] = True"
| "can_routes t ((path, methods) # rs) \<longleftrightarrow>
     can_route t path methods \<and> can_routes (ax_route ref_axum t path methods) rs"

definition can_nest :: "table \<Rightarrow> string \<Rightarrow> table \<Rightarrow> bool" where
  "can_nest t pre t' \<longleftrightarrow> literal pre \<and> pre \<noteq> ''/'' \<and>
     list_all (\<lambda>((m, p), _). absolute p \<and> map_of t (m, nested pre p) = None) t'"

definition can_merge :: "table \<Rightarrow> table \<Rightarrow> bool" where
  "can_merge t t' \<longleftrightarrow> list_all (\<lambda>(q, _). map_of t q = None) t'"

lemma can_nest_laws:
  "can_nest t pre t' \<Longrightarrow> \<forall>m p. map_of t' (m, p) \<noteq> None \<longrightarrow> absolute p \<and> map_of t (m, nested pre p) = None"
  by (fastforce simp: can_nest_def list_all_iff dest: map_of_SomeD)

lemma can_merge_laws: "can_merge t t' \<Longrightarrow> \<forall>q. map_of t q = None \<or> map_of t' q = None"
  by (fastforce simp: can_merge_def list_all_iff dest: map_of_SomeD)

context axum_router
begin

lemma serves_new: "serves (ax_new A) = map_of (ax_new ref_axum)"
  by (simp add: fun_eq_iff new ref_router.new)

lemma serves_route:
  assumes "serves r = map_of t" and "can_route t path methods"
  shows "serves (ax_route A r path methods) = map_of (ax_route ref_axum t path methods)"
proof
  fix q :: "http_method \<times> string"
  obtain m p where q: "q = (m, p)" by fastforce
  have c: "literal path" "distinct (map fst methods)" "\<forall>m \<in> fst ` set methods. map_of t (m, path) = None"
    using assms(2) by (auto simp: can_route_def list_all_iff)
  show "serves (ax_route A r path methods) q = map_of (ax_route ref_axum t path methods) q"
    using route [of path methods r m p] ref_router.route [of path methods t m p] c by (simp add: q assms(1) split: option.split)
qed

lemma serves_routes:
  assumes "serves r = map_of t" and "can_routes t rs"
  shows "serves (with_routes A r rs) = map_of (with_routes ref_axum t rs)"
  using assms
proof (induction rs arbitrary: r t)
  case (Cons a rs)
  obtain path methods where a: "a = (path, methods)" by fastforce
  with Cons.prems have "can_route t path methods" "can_routes (ax_route ref_axum t path methods) rs" by simp_all
  with Cons.IH [OF serves_route [OF Cons.prems(1)]] show ?case by (simp add: a with_routes_def)
qed (simp add: with_routes_def)

lemma serves_nest:
  assumes "serves r = map_of t" and "serves r' = map_of t'" and "can_nest t pre t'"
  shows "serves (ax_nest A r pre r') = map_of (ax_nest ref_axum t pre t')"
proof
  fix q :: "http_method \<times> string"
  obtain m p where q: "q = (m, p)" by fastforce
  have "literal pre" "pre \<noteq> ''/''" using assms(3) by (simp_all add: can_nest_def)
  with can_nest_laws [OF assms(3)] assms(1,2) show "serves (ax_nest A r pre r') q = map_of (ax_nest ref_axum t pre t') q"
    by (simp add: q nest ref_router.nest split: option.split)
qed

lemma serves_merge:
  assumes "serves r = map_of t" and "serves r' = map_of t'" and "can_merge t t'"
  shows "serves (ax_merge A r r') = map_of (ax_merge ref_axum t t')"
proof
  fix q
  note laws = can_merge_laws [OF assms(3)]
  show "serves (ax_merge A r r') q = map_of (ax_merge ref_axum t t') q"
    using merge [of r r' q] ref_router.merge [OF laws] laws by (simp add: assms(1,2) split: option.split)
qed

lemma serves_layer:
  assumes "serves r = map_of t"
  shows "serves (ax_route_layer A r l) = map_of (ax_route_layer ref_axum t l)"
proof
  fix q
  show "serves (ax_route_layer A r l) q = map_of (ax_route_layer ref_axum t l) q"
    by (simp only: route_layer ref_router.route_layer assms)
qed

text \<open>Each router of the source, from the inside out; the side conditions are evaluated.\<close>

lemma serves_config: "serves (config_router A) = map_of (config_router ref_axum)"
  unfolding config_router_def by (rule serves_routes [OF serves_new]) code_simp

lemma serves_unsafe: "serves (unsafe_router A) = map_of (unsafe_router ref_axum)"
  unfolding unsafe_router_def by (rule serves_routes [OF serves_new]) code_simp

lemma serves_user: "serves (user_routes A) = map_of (user_routes ref_axum)"
  unfolding user_routes_def by (rule serves_routes [OF serves_new]) code_simp

lemma serves_password_change: "serves (password_change_route A) = map_of (password_change_route ref_axum)"
  unfolding password_change_route_def by (rule serves_layer, rule serves_routes [OF serves_new]) code_simp

lemma serves_restricted: "serves (restricted_routes A) = map_of (restricted_routes ref_axum)"
  unfolding restricted_routes_def Let_def
proof (intro serves_layer serves_nest serves_routes serves_config serves_user serves_new)
qed code_simp+

lemma serves_safe: "serves (safe_router A) = map_of (safe_router ref_axum)"
  unfolding safe_router_def Let_def
proof (intro serves_merge serves_layer serves_routes serves_password_change serves_restricted serves_new)
qed code_simp+

lemma serves_combined: "serves (combined_router A) = map_of (combined_router ref_axum)"
  unfolding combined_router_def Let_def
proof (intro serves_nest serves_merge serves_safe serves_unsafe serves_new)
qed code_simp+

end

section \<open>Requests and their handlers\<close>

fun query_endpoint :: "query \<Rightarrow> endpoint" where
  "query_endpoint RoleAndPermissions = E_get_role_and_permissions"
| "query_endpoint GetLogs = E_get_logs"
| "query_endpoint LogWebsocket = E_log_websocket"
| "query_endpoint ListUsers = E_list_users"
| "query_endpoint GetConfig = E_get_config"
| "query_endpoint GetAdapters = E_get_ebpf_adapters"
| "query_endpoint GetTraffic = E_get_traffic_stats"
| "query_endpoint GetAllowListV4 = E_get_allow_list_v4"
| "query_endpoint GetAllowListV6 = E_get_allow_list_v6"
| "query_endpoint GetPacketCountsV4 = E_get_packet_counts_v4"
| "query_endpoint GetPacketCountsV6 = E_get_packet_counts_v6"
| "query_endpoint ListSubnetV4 = E_list_subnet_v4"
| "query_endpoint ListSubnetV6 = E_list_subnet_v6"

fun change_endpoint :: "change \<Rightarrow> endpoint" where
  "change_endpoint (CreateUser _) = E_create_user"
| "change_endpoint (ModifyUser _) = E_modify_user"
| "change_endpoint (DeleteUser _) = E_delete_user"
| "change_endpoint (RenameUser _) = E_rename_user"
| "change_endpoint ShutdownEbpf = E_shutdown_ebpf"
| "change_endpoint RestartEbpf = E_restart_ebpf"
| "change_endpoint (ModifyAllowListV4 _ _) = E_modify_allow_list_v4"
| "change_endpoint (ClearAllowListV4 _) = E_clear_allow_list_v4"
| "change_endpoint (ModifyAllowListV6 _ _) = E_modify_allow_list_v6"
| "change_endpoint (ClearAllowListV6 _) = E_clear_allow_list_v6"
| "change_endpoint (ModifyPacketCountsV4 _ _) = E_modify_packet_counts_v4"
| "change_endpoint (ClearPacketCountsV4 _) = E_clear_packet_counts_v4"
| "change_endpoint (ModifyPacketCountsV6 _ _) = E_modify_packet_counts_v6"
| "change_endpoint (ClearPacketCountsV6 _) = E_clear_packet_counts_v6"
| "change_endpoint (ModifySubnetV4 _ _ _) = E_modify_subnet_v4"
| "change_endpoint (RemoveSubnetV4 _ _) = E_remove_subnet_v4"
| "change_endpoint (ModifySubnetV6 _ _ _) = E_modify_subnet_v6"
| "change_endpoint (RemoveSubnetV6 _ _) = E_remove_subnet_v6"

text \<open>The handler that takes a request; a path without a route has none.\<close>

fun endpoint_of :: "request \<Rightarrow> endpoint option" where
  "endpoint_of (Login _ _) = Some E_login"
| "endpoint_of GetUser = Some E_get_user"
| "endpoint_of Logout = Some E_logout"
| "endpoint_of (ChangePassword _) = Some E_change_password"
| "endpoint_of (Query q) = Some (query_endpoint q)"
| "endpoint_of (Change c) = Some (change_endpoint c)"
| "endpoint_of (UpdateConfig _) = Some E_update_config"
| "endpoint_of (Frontend _) = None"

text \<open>The handlers without their layers.\<close>

fun handler :: "env \<Rightarrow> request \<Rightarrow> app_user option \<Rightarrow> server \<Rightarrow> reply" where
  "handler env (Login username password) session s = unsafe_login env username password session s"
| "handler env GetUser session s = (get_user_endpoint session, session, s)"
| "handler env Logout session s =
     (case logout (e_logout_ok env) session of (resp, session') \<Rightarrow> (resp, session', s))"
| "handler env (ChangePassword password) session s = change_password_endpoint env password session s"
| "handler env (Query q) session s = (handle_query env q session s, session, s)"
| "handler env (Change c) session s =
     (case handle_change env c session s of (resp, s') \<Rightarrow> (resp, session, s'))"
| "handler env (UpdateConfig j) session s =
     (case config_patch_of_json j of
        Inl msg \<Rightarrow> (e_json_rejected env msg, session, s)
      | Inr patch \<Rightarrow> (case update_config env patch session s of (resp, s') \<Rightarrow> (resp, session, s')))"
| "handler env (Frontend path) session s = (frontend_fallback env path, session, s)"

text \<open>The layers of a route around its handler, the outermost first.\<close>

fun with_layers ::
    "env \<Rightarrow> layer list \<Rightarrow> (app_user option \<Rightarrow> server \<Rightarrow> reply) \<Rightarrow> app_user option \<Rightarrow> server \<Rightarrow> reply" where
  "with_layers env [] h = h"
| "with_layers env (LoginRequired # ls) h = login_required env (with_layers env ls h)"
| "with_layers env (PasswordChanged # ls) h = require_completed_password_change (with_layers env ls h)"

section \<open>What the tables say\<close>

text \<open>The layers each handler should have.\<close>

definition layers_of :: "endpoint \<Rightarrow> layer list" where
  "layers_of e =
     (if e \<in> {E_login, E_get_user} then []
      else if e \<in> {E_logout, E_change_password} then [LoginRequired]
      else [LoginRequired, PasswordChanged])"

lemma table_keys: "distinct (map fst (combined_router ref_axum))"
  by code_simp

lemma table_endpoints: "distinct (map (fst \<circ> snd) (combined_router ref_axum))"
  by code_simp

lemma table_layers: "list_all (\<lambda>(_, e, ls). ls = layers_of e) (combined_router ref_axum)"
  by code_simp

lemma table_complete: "endpoint_of req = Some e \<Longrightarrow> e \<in> (fst \<circ> snd) ` set (combined_router ref_axum)"
proof -
  have "list_all (\<lambda>e. e \<in> (fst \<circ> snd) ` set (combined_router ref_axum))
    [E_login, E_get_user, E_logout, E_change_password, E_get_role_and_permissions,
     E_get_logs, E_log_websocket, E_create_user, E_modify_user, E_delete_user, E_rename_user, E_list_users,
     E_get_config, E_update_config, E_get_ebpf_adapters, E_shutdown_ebpf, E_restart_ebpf, E_get_traffic_stats,
     E_get_allow_list_v4, E_modify_allow_list_v4, E_clear_allow_list_v4,
     E_get_allow_list_v6, E_modify_allow_list_v6, E_clear_allow_list_v6,
     E_get_packet_counts_v4, E_modify_packet_counts_v4, E_clear_packet_counts_v4,
     E_get_packet_counts_v6, E_modify_packet_counts_v6, E_clear_packet_counts_v6,
     E_list_subnet_v4, E_modify_subnet_v4, E_remove_subnet_v4,
     E_list_subnet_v6, E_modify_subnet_v6, E_remove_subnet_v6]"
    by code_simp
  then show ?thesis by (cases e) (simp_all only: list.pred_inject simp_thms)
qed

lemma layers_of_query: "layers_of (query_endpoint q) = [LoginRequired, PasswordChanged]"
  by (cases q) (simp_all add: layers_of_def)

lemma layers_of_change: "layers_of (change_endpoint c) = [LoginRequired, PasswordChanged]"
  by (cases c) (simp_all add: layers_of_def)

lemma layers_of_simps:
  "layers_of E_login = []" "layers_of E_get_user = []" "layers_of E_logout = [LoginRequired]"
  "layers_of E_change_password = [LoginRequired]" "layers_of E_update_config = [LoginRequired, PasswordChanged]"
  by (simp_all add: layers_of_def)

lemma layered_handler:
  assumes "endpoint_of req = Some e"
  shows "route env req = with_layers env (layers_of e) (handler env req)"
proof -
  have h: "route env req session s = with_layers env (layers_of e) (\<lambda>session s. handler env req session s) session s"
    for session s
    using assms by (cases req) (auto simp: layers_of_query layers_of_change restricted_def layers_of_simps)
  then show ?thesis by blast
qed

lemma served_iff:
  assumes "axum_router A serves"
  shows "serves (combined_router A) q = Some x \<longleftrightarrow> (q, x) \<in> set (combined_router ref_axum)"
  using axum_router.serves_combined [OF assms] table_keys by simp

text \<open>
  C16: Every request reaches its handler, through its layers: the tables, nested, merged and layered as
  the source does it with any router that keeps axum's contract, serve the handler of each request at
  exactly one method and path, and the layers they put there make exactly what \<open>route\<close> does with the
  request. A route of the restricted part checks the session before the password, and both before the
  handler.
\<close>

theorem requests_reach_handlers:
  assumes "axum_router A serves" and "endpoint_of req = Some e"
  shows "\<exists>q ls. (\<forall>q' ls'. serves (combined_router A) q' = Some (e, ls') \<longleftrightarrow> q' = q \<and> ls' = ls) \<and>
    (\<forall>env. route env req = with_layers env ls (handler env req))"
proof -
  let ?T = "combined_router ref_axum"
  obtain q ls where q: "(q, e, ls) \<in> set ?T" using table_complete [OF assms(2)] by fastforce
  then have ls: "ls = layers_of e" using table_layers by (auto simp: list_all_iff)
  have only: "q' = q \<and> ls' = ls" if "(q', e, ls') \<in> set ?T" for q' ls'
    using inj_onD [OF table_endpoints [unfolded distinct_map, THEN conjunct2] _ q that] by simp
  have served: "\<forall>q' ls'. serves (combined_router A) q' = Some (e, ls') \<longleftrightarrow> q' = q \<and> ls' = ls"
    unfolding served_iff [OF assms(1)]
  proof (intro allI iffI)
    show "(q', e, ls') \<in> set ?T" if "q' = q \<and> ls' = ls" for q' ls' using q that by simp
  qed (rule only)
  have "\<forall>env. route env req = with_layers env ls (handler env req)"
    unfolding ls by (intro allI layered_handler assms(2))
  with served show ?thesis by (intro exI conjI)
qed

theorem requests_reach_handlers_witness:
  "\<exists>q ls. map_of (combined_router ref_axum) q = Some (E_shutdown_ebpf, ls) \<and>
    route ref_env (Change ShutdownEbpf) = with_layers ref_env ls (handler ref_env (Change ShutdownEbpf))"
  using requests_reach_handlers [OF ref_router.axum_router_axioms, of "Change ShutdownEbpf" E_shutdown_ebpf]
  by auto

text \<open>
  The document of the interface is right but not complete: every operation of \<open>ApiDoc\<close> is served at
  the method and path that it documents, and four handlers are not in it.
\<close>

theorem api_doc_is_served:
  assumes "axum_router A serves"
  shows "(q, e) \<in> set api_doc \<longleftrightarrow> (\<exists>ls. serves (combined_router A) q = Some (e, ls)) \<and>
    e \<notin> {E_change_password, E_log_websocket, E_shutdown_ebpf, E_restart_ebpf}"
proof -
  have "list_all (\<lambda>(q, e). map_of (combined_router ref_axum) q = Some (e, layers_of e) \<and>
      e \<notin> {E_change_password, E_log_websocket, E_shutdown_ebpf, E_restart_ebpf}) api_doc"
    by code_simp
  moreover have "list_all (\<lambda>(q, e, _). (q, e) \<in> set api_doc \<or>
      e \<in> {E_change_password, E_log_websocket, E_shutdown_ebpf, E_restart_ebpf}) (combined_router ref_axum)"
    by code_simp
  ultimately show ?thesis
    unfolding list_all_iff axum_router.serves_combined [OF assms] by (blast dest: map_of_SomeD)
qed

theorem api_doc_is_served_witness:
  "((HttpPatch, ''/api/v1/users/rename_user''), E_rename_user) \<in> set api_doc"
proof -
  have "map_of (combined_router ref_axum) (HttpPatch, ''/api/v1/users/rename_user'') =
      Some (E_rename_user, [LoginRequired, PasswordChanged])"
    by code_simp
  then show ?thesis by (simp add: api_doc_is_served [OF ref_router.axum_router_axioms])
qed

text \<open>
  From another origin every handler can be called but one: the CORS layer allows the methods of all
  routes except that of renaming a user.
\<close>

theorem cors_leaves_out_rename:
  assumes "axum_router A serves" and "serves (combined_router A) (m, p) = Some (e, ls)"
  shows "m \<in> set cors_methods \<longleftrightarrow> e \<noteq> E_rename_user"
proof -
  have "list_all (\<lambda>((m, p), e, ls). m \<in> set cors_methods \<longleftrightarrow> e \<noteq> E_rename_user) (combined_router ref_axum)"
    by code_simp
  with assms(2) show ?thesis by (auto simp: served_iff [OF assms(1)] list_all_iff)
qed

theorem cors_leaves_out_rename_witness: "HttpPatch \<notin> set cors_methods"
proof -
  have "map_of (combined_router ref_axum) (HttpPatch, ''/api/v1/users/rename_user'') =
      Some (E_rename_user, [LoginRequired, PasswordChanged])"
    by code_simp
  with cors_leaves_out_rename [OF ref_router.axum_router_axioms] show ?thesis by blast
qed

end
