(* ===== verification/Handler_Frame.thy ===== *)
theory Handler_Frame
  imports System
begin

text \<open>
  Why a request may be one step although packets run meanwhile. The program writes the connection and
  bucket tables only; the handlers of accounts, configuration, subnet rules, log and status never look
  at these. So such a request does the same, and answers the same, whatever packets come before,
  between or after its steps; only the handlers of the tables themselves meet packets there
  (\<open>Cleanup_Task\<close> looks at one such meeting).
\<close>

section \<open>Replacing the tables of flows\<close>

definition with_flows :: "maps \<Rightarrow> server \<Rightarrow> server" where
  "with_flows f s = s\<lparr>s_maps := (s_maps s)\<lparr>
     ALLOW_LIST_V4 := ALLOW_LIST_V4 f, ALLOW_LIST_V6 := ALLOW_LIST_V6 f,
     PACKET_COUNTS_V4 := PACKET_COUNTS_V4 f, PACKET_COUNTS_V6 := PACKET_COUNTS_V6 f\<rparr>\<rparr>"

lemma with_flows_sel [simp]:
  "s_db (with_flows f s) = s_db s"
  "s_feed (with_flows f s) = s_feed s"
  "s_ebpf (with_flows f s) = s_ebpf s"
  "CONFIG (s_maps (with_flows f s)) = CONFIG (s_maps s)"
  "SUBNET_MATCHING_V4 (s_maps (with_flows f s)) = SUBNET_MATCHING_V4 (s_maps s)"
  "SUBNET_MATCHING_V6 (s_maps (with_flows f s)) = SUBNET_MATCHING_V6 (s_maps s)"
  by (simp_all add: with_flows_def)

lemma with_flows_upd [simp]:
  "(with_flows f s)\<lparr>s_db := d\<rparr> = with_flows f (s\<lparr>s_db := d\<rparr>)"
  "(with_flows f s)\<lparr>s_feed := l\<rparr> = with_flows f (s\<lparr>s_feed := l\<rparr>)"
  "(with_flows f s)\<lparr>s_ebpf := e\<rparr> = with_flows f (s\<lparr>s_ebpf := e\<rparr>)"
  "(with_flows f s)\<lparr>s_maps := (s_maps (with_flows f s))\<lparr>CONFIG := c\<rparr>\<rparr> = with_flows f (s\<lparr>s_maps := (s_maps s)\<lparr>CONFIG := c\<rparr>\<rparr>)"
  "(with_flows f s)\<lparr>s_maps := (s_maps (with_flows f s))\<lparr>SUBNET_MATCHING_V4 := t4\<rparr>\<rparr> =
     with_flows f (s\<lparr>s_maps := (s_maps s)\<lparr>SUBNET_MATCHING_V4 := t4\<rparr>\<rparr>)"
  "(with_flows f s)\<lparr>s_maps := (s_maps (with_flows f s))\<lparr>SUBNET_MATCHING_V6 := t6\<rparr>\<rparr> =
     with_flows f (s\<lparr>s_maps := (s_maps s)\<lparr>SUBNET_MATCHING_V6 := t6\<rparr>\<rparr>)"
  by (simp_all add: with_flows_def)

text \<open>The operations below a handler that ignore the tables.\<close>

lemma log_event_flows [simp]:
  "log_event env l m a (with_flows f s) = with_flows f (log_event env l m a s)"
  by (simp add: log_event_def Let_def)

lemma config_get_flows [simp]: "config_get env (with_flows f s) = config_get env s"
  by (simp add: config_get_def)

lemma config_set_flows [simp]: "config_set env c (with_flows f s) = map_option (with_flows f) (config_set env c s)"
  by (simp add: config_set_def)

lemma save_config_flows [simp]:
  "save_config env c (with_flows f s) = apsnd (with_flows f) (save_config env c s)"
  by (simp add: save_config_def split: prod.split)

lemma try_config_set_flows [simp]: "try_config_set env c (with_flows f s) = with_flows f (try_config_set env c s)"
  by (simp add: try_config_set_def split: option.split)

lemma ebpf_reboot_flows [simp]:
  "ebpf_reboot env c e (with_flows f s) = apsnd (with_flows f) (ebpf_reboot env c e s)"
  by (simp add: ebpf_reboot_def split: prod.split)

lemma commit_config_flows [simp]:
  "commit_config env u c (with_flows f s) = apsnd (with_flows f) (commit_config env u c s)"
  by (auto simp: commit_config_def split: option.split prod.split sum.split)

text \<open>A handler that ignores them.\<close>

definition ignores_flows :: "(app_user option \<Rightarrow> server \<Rightarrow> 'a \<times> server) \<Rightarrow> bool" where
  "ignores_flows handle \<longleftrightarrow>
     (\<forall>session f s. handle session (with_flows f s) = apsnd (with_flows f) (handle session s))"

lemma ignores_guarded:
  assumes "\<And>u f s. act u (with_flows f s) = apsnd (with_flows f) (act u s)"
  shows "ignores_flows (guarded permission act)"
  using assms by (simp add: ignores_flows_def guarded_def split: option.split)

lemma respond_flows [simp]: "respond ok r (with_flows f s) = apsnd (with_flows f) (respond ok r s)"
  by (auto simp: respond_def split: prod.split sum.split)

lemma account_flows:
  "ignores_flows (create_user_endpoint env payload)"
  "ignores_flows (modify_user_endpoint env mpayload)"
  "ignores_flows (rename_user_endpoint env rpayload)"
  "ignores_flows (delete_user_endpoint env name)"
  by (simp_all add: ignores_flows_def create_user_endpoint_def modify_user_endpoint_def
      rename_user_endpoint_def delete_user_endpoint_def split: option.split)

lemma subnet_flows:
  "ignores_flows (modify_subnet_matching_v4 env n4 p a)"
  "ignores_flows (remove_subnet_matching_v4 env n4 p)"
  "ignores_flows (modify_subnet_matching_v6 env n6 p a)"
  "ignores_flows (remove_subnet_matching_v6 env n6 p)"
  unfolding modify_subnet_matching_v4_def remove_subnet_matching_v4_def modify_subnet_matching_v6_def
    remove_subnet_matching_v6_def Let_def
  by (rule ignores_guarded, simp add: with_flows_def split: option.split prod.split sum.split)+

lemma ebpf_flows:
  "ignores_flows (shutdown_ebpf env)"
  "ignores_flows (restart_ebpf env)"
  unfolding ignores_flows_def shutdown_ebpf_def restart_ebpf_def with_ebpf_and_config_def
    authorized_ebpf_action_def Let_def
  by (auto simp: result_bind_def split: option.split prod.split sum.split)

lemma update_config_flows: "ignores_flows (update_config env patch)"
  unfolding update_config_def Let_def
  by (rule ignores_guarded) (auto split: option.split prod.split sum.split)

section \<open>Requests\<close>

text \<open>The requests for the tables themselves.\<close>

fun uses_flows :: "request \<Rightarrow> bool" where
  "uses_flows (Query q) \<longleftrightarrow>
     q \<in> {GetAllowListV4, GetAllowListV6, GetPacketCountsV4, GetPacketCountsV6}"
| "uses_flows (Change (ModifyAllowListV4 _ _)) \<longleftrightarrow> True"
| "uses_flows (Change (ClearAllowListV4 _)) \<longleftrightarrow> True"
| "uses_flows (Change (ModifyAllowListV6 _ _)) \<longleftrightarrow> True"
| "uses_flows (Change (ClearAllowListV6 _)) \<longleftrightarrow> True"
| "uses_flows (Change (ModifyPacketCountsV4 _ _)) \<longleftrightarrow> True"
| "uses_flows (Change (ClearPacketCountsV4 _)) \<longleftrightarrow> True"
| "uses_flows (Change (ModifyPacketCountsV6 _ _)) \<longleftrightarrow> True"
| "uses_flows (Change (ClearPacketCountsV6 _)) \<longleftrightarrow> True"
| "uses_flows _ \<longleftrightarrow> False"

lemmas handler_flows = account_flows subnet_flows ebpf_flows update_config_flows

lemma change_flows:
  "\<not> uses_flows (Change c) \<Longrightarrow> handle_change env c session (with_flows f s) = apsnd (with_flows f) (handle_change env c session s)"
  using handler_flows by (cases c) (simp_all add: ignores_flows_def)

lemma query_flows:
  "\<not> uses_flows (Query q) \<Longrightarrow> handle_query env q session (with_flows f s) = handle_query env q session s"
  by (cases q)
    (simp_all add: get_logs_def list_users_def get_config_def get_ebpf_adapters_def get_traffic_stats_def
      list_subnet_matching_v4_def list_subnet_matching_v6_def Let_def split: option.split)

lemma login_flows:
  "unsafe_login env name pw session (with_flows f s) = apsnd (apsnd (with_flows f)) (unsafe_login env name pw session s)"
  by (simp add: unsafe_login_def split: prod.split)

lemma change_password_flows:
  "change_password_endpoint env pw session (with_flows f s) =
     apsnd (apsnd (with_flows f)) (change_password_endpoint env pw session s)"
  by (auto simp: change_password_endpoint_def split: option.split prod.split sum.split)

lemma restricted_flows:
  assumes "\<And>session. h session (with_flows f s) = apsnd (apsnd (with_flows f)) (h session s)"
  shows "restricted env h session (with_flows f s) = apsnd (apsnd (with_flows f)) (restricted env h session s)"
  using assms by (simp add: restricted_def login_required_def require_completed_password_change_def)

lemma route_flows:
  assumes "\<not> uses_flows req"
  shows "route env req session (with_flows f s) = apsnd (apsnd (with_flows f)) (route env req session s)"
proof (cases req)
  case (Query q)
  then show ?thesis using assms query_flows by (simp add: restricted_flows)
next
  case (Change c)
  then show ?thesis using assms change_flows by (simp add: restricted_flows split: prod.split)
next
  case (UpdateConfig j)
  then show ?thesis
    using update_config_flows by (simp add: ignores_flows_def restricted_flows split: prod.split sum.split)
qed (simp_all add: login_flows change_password_flows login_required_def split: prod.split)

lemma serve_flows:
  assumes "\<not> uses_flows req"
  shows "serve env line req session (with_flows f s) = apsnd (apsnd (with_flows f)) (serve env line req session s)"
  by (cases "route env req session s")
    (simp add: serve_def route_flows [OF assms] log_failed_requests_def Let_def)

section \<open>Packets and requests\<close>

lemma packet_flows:
  "s\<lparr>s_maps := snd (oxidrop N K t1 t2 ctx (s_maps s))\<rparr> = with_flows (snd (oxidrop N K t1 t2 ctx (s_maps s))) s"
  using packet_frame [of N K t1 t2 ctx "s_maps s"] by (simp add: with_flows_def)

text \<open>Any number of packets.\<close>

inductive packets :: "server \<Rightarrow> server \<Rightarrow> bool" where
  none: "packets s s"
| more: "packets s s1 \<Longrightarrow> step (Packet N t1 t2 ctx) s1 s2 \<Longrightarrow> packets s s2"

lemma with_flows_twice [simp]: "with_flows g (with_flows f s) = with_flows g s"
  by (simp add: with_flows_def)

lemma with_flows_same [simp]: "with_flows (s_maps s) s = s"
  by (simp add: with_flows_def)

lemma packets_flows: "packets s s' \<Longrightarrow> s' = with_flows (s_maps s') s"
proof (induction rule: packets.induct)
  case (more s s1 N t1 t2 ctx s2)
  from more.hyps(2) obtain f where "s2 = with_flows f s1"
    by (auto elim!: packetE simp: packet_flows)
  with more.IH show ?case by (metis with_flows_twice with_flows_same)
qed simp

text \<open>
  C17: Requests and packets do not disturb each other: a request that is not for the connection or bucket
  tables gives the same answer and the same session, and has the same effect on everything but these
  tables, when any packets come before it; and it leaves the tables as the packets made them.
\<close>

theorem requests_ignore_packets:
  assumes "\<not> uses_flows req" and "packets s sp"
    and "serve env line req session s = (resp, session', s')"
    and "serve env line req session sp = (resp_p, session_p, sp')"
  shows "resp_p = resp \<and> session_p = session' \<and> sp' = with_flows (s_maps sp) s' \<and>
    s_db sp' = s_db s' \<and> s_ebpf sp' = s_ebpf s' \<and> CONFIG (s_maps sp') = CONFIG (s_maps s') \<and>
    SUBNET_MATCHING_V4 (s_maps sp') = SUBNET_MATCHING_V4 (s_maps s') \<and>
    SUBNET_MATCHING_V6 (s_maps sp') = SUBNET_MATCHING_V6 (s_maps s') \<and>
    ALLOW_LIST_V4 (s_maps sp') = ALLOW_LIST_V4 (s_maps sp) \<and>
    ALLOW_LIST_V6 (s_maps sp') = ALLOW_LIST_V6 (s_maps sp) \<and>
    PACKET_COUNTS_V4 (s_maps sp') = PACKET_COUNTS_V4 (s_maps sp) \<and>
    PACKET_COUNTS_V6 (s_maps sp') = PACKET_COUNTS_V6 (s_maps sp)"
proof -
  have "serve env line req session sp = (resp, session', with_flows (s_maps sp) s')"
    using serve_flows [OF assms(1), of env line session "s_maps sp" s] assms(3)
      packets_flows [OF assms(2)] by simp
  with assms(4) show ?thesis by (auto simp: with_flows_def)
qed

theorem requests_ignore_packets_witness:
  "\<exists>sp resp session' s'. packets sample_filtering sp \<and>
     serve ref_env ''POST /api/v1/config/ebpf/shutdown'' (Change ShutdownEbpf) (Some sample_user) sp =
       (resp, session', with_flows (s_maps sp) s') \<and>
     serve ref_env ''POST /api/v1/config/ebpf/shutdown'' (Change ShutdownEbpf) (Some sample_user) sample_filtering =
       (resp, session', s')"
proof -
  let ?serve = "serve ref_env ''POST /api/v1/config/ebpf/shutdown'' (Change ShutdownEbpf) (Some sample_user)"
  obtain sp where p: "packets sample_filtering sp"
    using packets.more [OF packets.none step.packet [OF ref_env_ok]] by blast
  obtain resp session' s' where s: "?serve sample_filtering = (resp, session', s')" by (metis prod.collapse)
  obtain resp_p session_p sp' where sp: "?serve sp = (resp_p, session_p, sp')" by (metis prod.collapse)
  have "\<not> uses_flows (Change ShutdownEbpf)" by simp
  from requests_ignore_packets [OF this p s sp] p s sp show ?thesis by blast
qed

end
