(* ===== verification/Cleanup_Task.thy ===== *)
theory Cleanup_Task
  imports System
begin

text \<open>
  The cleanup of idle connections in its own steps (\<open>spawn_cleanup_connection_map_after_10_minutes\<close> of
  oxidrop/src/main.rs). The task holds the lock of one table at a time, which keeps other handlers off
  that table, but packets do not take locks: they run between any two of its map operations. Here the
  task is a small machine beside the events of \<open>System\<close>. Alone it is the atomic tick. Among packets and
  requests it opens nothing and removes only what it saw idle in the same round, but it may remove a
  connection that was used in the meantime; and its walk, which follows the table as it changes, ends when
  no more keys come ahead of it.
\<close>

section \<open>The walk over a table\<close>

text \<open>
  The iterator of the source keeps a cursor, the key it gave last, and asks the kernel for the next one
  (\<open>bpf_map_get_next_key\<close>). The kernel answers from the table as it is then: with the key after the
  cursor, with none after the last, and with the first key of the table when there is no cursor yet or the
  cursor's key is gone. The keys ahead of a cursor are those that it will give while nobody changes the
  table. A call that fails would end the walk early; such failures are left out.
\<close>

definition ahead :: "('k, 'v) kmap \<Rightarrow> 'k option \<Rightarrow> 'k list" where
  "ahead m cursor =
     (case cursor of
        None \<Rightarrow> map fst m
      | Some key \<Rightarrow>
          if key \<in> set (map fst m) then tl (dropWhile (\<lambda>k. k \<noteq> key) (map fst m)) else map fst m)"

definition get_next_key :: "('k, 'v) kmap \<Rightarrow> 'k option \<Rightarrow> 'k option" where
  "get_next_key m cursor = (case ahead m cursor of [] \<Rightarrow> None | key # _ \<Rightarrow> Some key)"

lemma suffix_ahead: "suffix (ahead m cursor) (map fst m)"
  by (auto simp: ahead_def intro: suffix_order.trans [OF suffix_tl suffix_dropWhile] split: option.split)

lemma distinct_ahead: "kmap_wf m \<Longrightarrow> distinct (ahead m cursor)"
  using suffix_ahead [of m cursor] by (auto simp: kmap_wf_def suffix_def)

lemma ahead_next:
  assumes "kmap_wf m" and "ahead m cursor = key # ks"
  shows "ahead m (Some key) = ks"
proof -
  obtain pre where pre: "map fst m = pre @ key # ks"
    using suffix_ahead [of m cursor] assms(2) by (auto simp: suffix_def)
  then have "key \<notin> set pre" using assms(1) by (auto simp: kmap_wf_def)
  then have "dropWhile (\<lambda>k. k \<noteq> key) (pre @ key # ks) = key # ks" by (subst dropWhile_append2) auto
  then show ?thesis by (simp only: ahead_def option.case pre) simp
qed

section \<open>The task\<close>

text \<open>
  Waiting for the tick; walking over a table, about to ask for the key after the cursor or to look up the
  key it was given; removing the keys found. Every other position carries the time that the task read at
  its tick and, where there are any, the keys found idle.
\<close>

datatype cleanup_task =
  Idle
| Next4 u64 "ipv4_packet option" "ipv4_packet list"
| Look4 u64 ipv4_packet "ipv4_packet list"
| Remove4 u64 "ipv4_packet list"
| Next6 u64 "ipv6_packet option" "ipv6_packet list"
| Look6 u64 ipv6_packet "ipv6_packet list"
| Remove6 u64 "ipv6_packet list"

text \<open>One entry of the walk, read after its key; an entry that is gone by then is skipped.\<close>

definition visit :: "u64 \<Rightarrow> ('k, allow_list_state) kmap \<Rightarrow> 'k \<Rightarrow> 'k list \<Rightarrow> 'k list" where
  "visit current_bpf_time m key keys_to_remove =
     (case map_of m key of
        Some state_val \<Rightarrow>
          if TIMEOUT_NS < saturating_sub current_bpf_time (last_seen state_val)
          then keys_to_remove @ [key] else keys_to_remove
      | None \<Rightarrow> keys_to_remove)"

definition remove_v4 :: "ipv4_packet \<Rightarrow> server \<Rightarrow> server" where
  "remove_v4 key s = s\<lparr>s_maps := (s_maps s)\<lparr>ALLOW_LIST_V4 := del_key key (ALLOW_LIST_V4 (s_maps s))\<rparr>\<rparr>"

definition remove_v6 :: "ipv6_packet \<Rightarrow> server \<Rightarrow> server" where
  "remove_v6 key s = s\<lparr>s_maps := (s_maps s)\<lparr>ALLOW_LIST_V6 := del_key key (ALLOW_LIST_V6 (s_maps s))\<rparr>\<rparr>"

text \<open>One map operation; \<open>clock\<close> is what \<open>get_bpf_ktime_ns\<close> returns if the step reads it, at the tick.\<close>

fun task_step :: "u64 \<Rightarrow> cleanup_task \<Rightarrow> server \<Rightarrow> cleanup_task \<times> server" where
  "task_step clock Idle s = (Next4 clock None [], s)"
| "task_step clock (Next4 now cursor found) s =
     (case get_next_key (ALLOW_LIST_V4 (s_maps s)) cursor of
        None \<Rightarrow> (Remove4 now found, s)
      | Some key \<Rightarrow> (Look4 now key found, s))"
| "task_step clock (Look4 now key found) s =
     (Next4 now (Some key) (visit now (ALLOW_LIST_V4 (s_maps s)) key found), s)"
| "task_step clock (Remove4 now []) s = (Next6 now None [], s)"
| "task_step clock (Remove4 now (key # found)) s = (Remove4 now found, remove_v4 key s)"
| "task_step clock (Next6 now cursor6 found6) s =
     (case get_next_key (ALLOW_LIST_V6 (s_maps s)) cursor6 of
        None \<Rightarrow> (Remove6 now found6, s)
      | Some k6 \<Rightarrow> (Look6 now k6 found6, s))"
| "task_step clock (Look6 now k6 found6) s =
     (Next6 now (Some k6) (visit now (ALLOW_LIST_V6 (s_maps s)) k6 found6), s)"
| "task_step clock (Remove6 now []) s = (Idle, s)"
| "task_step clock (Remove6 now (k6 # found6)) s = (Remove6 now found6, remove_v6 k6 s)"

section \<open>The task among the other events\<close>

text \<open>The requests that need the lock of a connection table.\<close>

fun uses_v4 :: "request \<Rightarrow> bool" where
  "uses_v4 (Query GetAllowListV4) \<longleftrightarrow> True"
| "uses_v4 (Change (ModifyAllowListV4 _ _)) \<longleftrightarrow> True"
| "uses_v4 (Change (ClearAllowListV4 _)) \<longleftrightarrow> True"
| "uses_v4 _ \<longleftrightarrow> False"

fun uses_v6 :: "request \<Rightarrow> bool" where
  "uses_v6 (Query GetAllowListV6) \<longleftrightarrow> True"
| "uses_v6 (Change (ModifyAllowListV6 _ _)) \<longleftrightarrow> True"
| "uses_v6 (Change (ClearAllowListV6 _)) \<longleftrightarrow> True"
| "uses_v6 _ \<longleftrightarrow> False"

text \<open>The events that cannot happen now: a request for the locked table, a second cleanup.\<close>

fun waits :: "cleanup_task \<Rightarrow> event \<Rightarrow> bool" where
  "waits _ (CleanupTick _) \<longleftrightarrow> True"
| "waits (Next4 _ _ _) (Request _ req _) \<longleftrightarrow> uses_v4 req"
| "waits (Look4 _ _ _) (Request _ req _) \<longleftrightarrow> uses_v4 req"
| "waits (Remove4 _ _) (Request _ req _) \<longleftrightarrow> uses_v4 req"
| "waits (Next6 _ _ _) (Request _ req _) \<longleftrightarrow> uses_v6 req"
| "waits (Look6 _ _ _) (Request _ req _) \<longleftrightarrow> uses_v6 req"
| "waits (Remove6 _ _) (Request _ req _) \<longleftrightarrow> uses_v6 req"
| "waits _ _ \<longleftrightarrow> False"

type_synonym conf = "cleanup_task \<times> server"

text \<open>A step of the task (\<open>None\<close>), or an event.\<close>

inductive interleaved :: "event option \<Rightarrow> conf \<Rightarrow> conf \<Rightarrow> bool" where
  own: "interleaved None (t, s) (task_step clock t s)"
| other: "step ev s s' \<Longrightarrow> \<not> waits t ev \<Longrightarrow> interleaved (Some ev) (t, s) (t, s')"

inductive_cases otherE: "interleaved (Some ev) (t, s) c"
inductive_cases ownE: "interleaved None (t, s) c"

inductive run :: "conf \<Rightarrow> conf \<Rightarrow> bool" where
  stay: "run c c"
| move: "run c c1 \<Longrightarrow> interleaved ev c1 c2 \<Longrightarrow> run c c2"

lemma run_trans: "run c1 c2 \<Longrightarrow> run c c1 \<Longrightarrow> run c c2"
  by (induction rule: run.induct) (auto intro: run.move)

lemma other_keeps_task: "interleaved (Some ev) c c' \<Longrightarrow> fst c' = fst c"
  by (cases c) (auto elim: otherE)

lemma task_step_server_ok: "server_ok s \<Longrightarrow> server_ok (snd (task_step clock t s))"
  by (cases "(clock, t, s)" rule: task_step.cases)
    (auto simp: remove_v4_def remove_v6_def server_ok_def tables_ok_def split: option.split)

lemma interleaved_ok: "interleaved ev c c' \<Longrightarrow> server_ok (snd c) \<Longrightarrow> server_ok (snd c')"
  by (induction rule: interleaved.induct) (auto intro: task_step_server_ok step_ok)

section \<open>When a round ends\<close>

text \<open>
  An event disturbs the walk when it puts a key ahead of it that was not ahead before: a new connection
  in a later place, or every key again, because the one under the cursor is gone. Events that refresh
  entries, or take others away, do not.
\<close>

fun disturbs :: "cleanup_task \<Rightarrow> server \<Rightarrow> server \<Rightarrow> bool" where
  "disturbs (Next4 _ cursor _) s s' \<longleftrightarrow>
     \<not> set (ahead (ALLOW_LIST_V4 (s_maps s')) cursor) \<subseteq> set (ahead (ALLOW_LIST_V4 (s_maps s)) cursor)"
| "disturbs (Look4 _ key _) s s' \<longleftrightarrow>
     \<not> set (ahead (ALLOW_LIST_V4 (s_maps s')) (Some key)) \<subseteq> set (ahead (ALLOW_LIST_V4 (s_maps s)) (Some key))"
| "disturbs (Next6 _ cursor6 _) s s' \<longleftrightarrow>
     \<not> set (ahead (ALLOW_LIST_V6 (s_maps s')) cursor6) \<subseteq> set (ahead (ALLOW_LIST_V6 (s_maps s)) cursor6)"
| "disturbs (Look6 _ k6 _) s s' \<longleftrightarrow>
     \<not> set (ahead (ALLOW_LIST_V6 (s_maps s')) (Some k6)) \<subseteq> set (ahead (ALLOW_LIST_V6 (s_maps s)) (Some k6))"
| "disturbs _ s s' \<longleftrightarrow> False"

text \<open>Where the task is in its round, and how many operations of the present phase are left at most.\<close>

fun phase :: "cleanup_task \<Rightarrow> nat" where
  "phase Idle = 0"
| "phase (Remove6 _ _) = 1"
| "phase (Look6 _ _ _) = 2"
| "phase (Next6 _ _ _) = 2"
| "phase (Remove4 _ _) = 3"
| "phase (Look4 _ _ _) = 4"
| "phase (Next4 _ _ _) = 4"

fun pending :: "cleanup_task \<Rightarrow> server \<Rightarrow> nat" where
  "pending Idle s = 0"
| "pending (Remove6 _ found6) s = length found6"
| "pending (Look6 _ k6 _) s = 2 * length (ahead (ALLOW_LIST_V6 (s_maps s)) (Some k6)) + 2"
| "pending (Next6 _ cursor6 _) s = 2 * length (ahead (ALLOW_LIST_V6 (s_maps s)) cursor6) + 1"
| "pending (Remove4 _ found) s = length found"
| "pending (Look4 _ key _) s = 2 * length (ahead (ALLOW_LIST_V4 (s_maps s)) (Some key)) + 2"
| "pending (Next4 _ cursor _) s = 2 * length (ahead (ALLOW_LIST_V4 (s_maps s)) cursor) + 1"

definition left :: "conf \<Rightarrow> nat \<times> nat" where
  "left = (\<lambda>(t, s). (phase t, pending t s))"

abbreviation shorter :: "((nat \<times> nat) \<times> (nat \<times> nat)) set" where
  "shorter \<equiv> less_than <*lex*> less_than"

lemma own_decreases:
  assumes "interleaved None c c'" and "server_ok (snd c)" and "fst c \<noteq> Idle"
  shows "(left c', left c) \<in> shorter"
proof -
  obtain t s clock where c: "c = (t, s)" "c' = task_step clock t s"
    using assms(1) by (cases c) (auto elim: ownE)
  have wf: "kmap_wf (ALLOW_LIST_V4 (s_maps s))" "kmap_wf (ALLOW_LIST_V6 (s_maps s))"
    using assms(2) c by (simp_all add: server_ok_def tables_ok_def)
  show ?thesis
    using assms(3) unfolding c
    by (cases "(clock, t, s)" rule: task_step.cases)
      (auto simp: left_def get_next_key_def ahead_next [OF wf(1)] ahead_next [OF wf(2)] split: list.split)
qed

lemma ahead_shrinks:
  assumes "kmap_wf m" and "set (ahead m' cursor) \<subseteq> set (ahead m cursor)" and "kmap_wf m'"
  shows "length (ahead m' cursor) \<le> length (ahead m cursor)"
  using card_mono [OF finite_set assms(2)] distinct_ahead assms by (metis distinct_card)

lemma calm_keeps:
  assumes "interleaved (Some ev) c c'" and "server_ok (snd c)" and "\<not> disturbs (fst c) (snd c) (snd c')"
  shows "(left c', left c) \<in> shorter\<^sup>="
proof -
  obtain t s s' where c: "c = (t, s)" "c' = (t, s')"
    using assms(1) by (cases c) (auto elim: otherE)
  have "server_ok s'" using interleaved_ok [OF assms(1,2)] c by simp
  then have wf: "kmap_wf (ALLOW_LIST_V4 (s_maps s))" "kmap_wf (ALLOW_LIST_V6 (s_maps s))"
    "kmap_wf (ALLOW_LIST_V4 (s_maps s'))" "kmap_wf (ALLOW_LIST_V6 (s_maps s'))"
    using assms(2) c by (simp_all add: server_ok_def tables_ok_def)
  show ?thesis
    using assms(3) ahead_shrinks [OF wf(1) _ wf(3)] ahead_shrinks [OF wf(2) _ wf(4)] unfolding c
    by (cases t) (auto simp: left_def le_less)
qed

lemma calm_run:
  assumes "\<And>i. interleaved (evs i) (f i) (f (Suc i))" and "\<And>i. server_ok (snd (f i))"
    and "\<And>j. i \<le> j \<Longrightarrow> j < n \<Longrightarrow> evs j \<noteq> None \<and> \<not> disturbs (fst (f j)) (snd (f j)) (snd (f (Suc j)))"
    and "i \<le> n"
  shows "(left (f n), left (f i)) \<in> shorter\<^sup>="
  using assms(4,3)
proof (induction n rule: dec_induct)
  case (step n)
  then obtain ev where ev: "evs n = Some ev" by (auto simp: less_Suc_eq)
  have "\<not> disturbs (fst (f n)) (snd (f n)) (snd (f (Suc n)))" using step by simp
  with calm_keeps [of ev "f n" "f (Suc n)"] assms(1) [of n] assms(2) [of n] ev
  have "(left (f (Suc n)), left (f n)) \<in> shorter\<^sup>=" by simp
  moreover have "(left (f n), left (f i)) \<in> shorter\<^sup>=" using step by simp
  moreover have "trans shorter" by (intro trans_lex_prod trans_less_than)
  ultimately show ?case by (metis Un_iff pair_in_Id_conv transD)
qed simp

lemma reaches_Idle:
  assumes "\<And>i. interleaved (evs i) (f i) (f (Suc i))" and "\<And>i. server_ok (snd (f i))"
    and "\<And>i. \<exists>j\<ge>i. evs j = None"
    and "\<And>j. n0 \<le> j \<Longrightarrow> evs j \<noteq> None \<Longrightarrow> \<not> disturbs (fst (f j)) (snd (f j)) (snd (f (Suc j)))"
    and "n0 \<le> i"
  shows "\<exists>j\<ge>i. fst (f j) = Idle"
  using assms(5)
proof (induction "left (f i)" arbitrary: i rule: wf_induct_rule [OF wf_lex_prod [OF wf_less_than wf_less_than]])
  case 1
  show ?case
  proof (cases "fst (f i) = Idle")
    case False
    define n where "n = (LEAST j. i \<le> j \<and> evs j = None)"
    have n: "i \<le> n" "evs n = None"
      using assms(3) [of i] LeastI_ex [of "\<lambda>j. i \<le> j \<and> evs j = None"] by (auto simp: n_def)
    have others: "evs j \<noteq> None" if "i \<le> j" "j < n" for j
      using that not_less_Least [of j "\<lambda>j. i \<le> j \<and> evs j = None"] by (auto simp: n_def)
    have "(left (f n), left (f i)) \<in> shorter\<^sup>="
      by (rule calm_run [where evs = evs, OF assms(1,2) _ n(1)]) (use others assms(4) 1(2) in auto)
    moreover have "(left (f (Suc n)), left (f n)) \<in> shorter" if "fst (f n) \<noteq> Idle"
      using own_decreases [of "f n" "f (Suc n)"] assms(1) [of n] assms(2) [of n] n(2) that by simp
    moreover have "trans shorter" by (intro trans_lex_prod trans_less_than)
    ultimately have "fst (f n) = Idle \<or> (left (f (Suc n)), left (f i)) \<in> shorter"
      by (metis Un_iff pair_in_Id_conv transD)
    then show ?thesis
    proof
      assume "(left (f (Suc n)), left (f i)) \<in> shorter"
      from 1(1) [OF this] 1(2) n(1) show ?thesis by (meson le_SucI le_trans)
    qed (use n(1) in blast)
  qed auto
qed

section \<open>The task alone\<close>

text \<open>The steps of the task with nothing in between.\<close>

definition own_steps :: "u64 \<Rightarrow> nat \<Rightarrow> conf \<Rightarrow> conf" where
  "own_steps clock n = (\<lambda>(t, s). task_step clock t s) ^^ n"

lemma own_steps_simps [simp]:
  "own_steps clock 0 c = c"
  "own_steps clock (Suc n) (t, s) = own_steps clock n (task_step clock t s)"
  by (simp_all add: own_steps_def funpow_swap1 split: prod.split)

lemma own_steps_Suc:
  "own_steps clock (Suc n) c = task_step clock (fst (own_steps clock n c)) (snd (own_steps clock n c))"
  by (simp add: own_steps_def case_prod_unfold)

lemma own_steps_add: "own_steps clock (m + n) c = own_steps clock n (own_steps clock m c)"
  by (simp add: own_steps_def add.commute [of m] funpow_add)

lemma fold_visit:
  assumes "kmap_wf m" and "set todo \<subseteq> set m"
  shows "fold (visit now m) (map fst todo) found = found @ expired_keys now todo"
  using assms(2)
proof (induction todo arbitrary: found)
  case (Cons p todo)
  obtain k st where p: "p = (k, st)" by (cases p)
  then have "map_of m k = Some st" using Cons.prems assms(1) by (simp add: kmap_wf_def)
  with Cons p show ?case by (simp add: visit_def expired_keys_def)
qed (simp add: expired_keys_def)

lemma walk4_alone:
  assumes "kmap_wf (ALLOW_LIST_V4 (s_maps s))" and "ahead (ALLOW_LIST_V4 (s_maps s)) cursor = ks"
  shows "own_steps clock (Suc (2 * length ks)) (Next4 now cursor found, s) =
     (Remove4 now (fold (visit now (ALLOW_LIST_V4 (s_maps s))) ks found), s)"
  using assms(2)
proof (induction ks arbitrary: cursor found)
  case (Cons key ks)
  from Cons.IH [OF ahead_next [OF assms(1) Cons.prems]] Cons.prems show ?case
    by (simp add: get_next_key_def)
qed (simp add: get_next_key_def)

lemma walk6_alone:
  assumes "kmap_wf (ALLOW_LIST_V6 (s_maps s))" and "ahead (ALLOW_LIST_V6 (s_maps s)) cursor6 = ks6"
  shows "own_steps clock (Suc (2 * length ks6)) (Next6 now cursor6 found6, s) =
     (Remove6 now (fold (visit now (ALLOW_LIST_V6 (s_maps s))) ks6 found6), s)"
  using assms(2)
proof (induction ks6 arbitrary: cursor6 found6)
  case (Cons k6 ks6)
  from Cons.IH [OF ahead_next [OF assms(1) Cons.prems]] Cons.prems show ?case
    by (simp add: get_next_key_def)
qed (simp add: get_next_key_def)

lemma remove4_alone:
  "own_steps clock (length found) (Remove4 now found, s) = (Remove4 now [], fold remove_v4 found s)"
  by (induction found arbitrary: s) simp_all

lemma remove6_alone:
  "own_steps clock (Suc (length found6)) (Remove6 now found6, s) = (Idle, fold remove_v6 found6 s)"
  by (induction found6 arbitrary: s) simp_all

lemma fold_remove_v4:
  "fold remove_v4 ks s = s\<lparr>s_maps := (s_maps s)\<lparr>ALLOW_LIST_V4 := del_keys ks (ALLOW_LIST_V4 (s_maps s))\<rparr>\<rparr>"
  by (induction ks arbitrary: s) (simp_all add: remove_v4_def del_keys_def)

lemma fold_remove_v6:
  "fold remove_v6 ks6 s = s\<lparr>s_maps := (s_maps s)\<lparr>ALLOW_LIST_V6 := del_keys ks6 (ALLOW_LIST_V6 (s_maps s))\<rparr>\<rparr>"
  by (induction ks6 arbitrary: s) (simp_all add: remove_v6_def del_keys_def)

lemma fold_visit_all:
  "kmap_wf m \<Longrightarrow> fold (visit now m) (map fst m) [] = expired_keys now m"
  by (simp add: fold_visit)

text \<open>
  The number of steps of one round: the tick, two steps for each entry of a table and one more to learn
  that there is no other, one for each entry removed, and one to go on from each table.
\<close>

definition round_steps :: "u64 \<Rightarrow> maps \<Rightarrow> nat" where
  "round_steps now m = 5 + 2 * length (ALLOW_LIST_V4 m) + length (expired_keys now (ALLOW_LIST_V4 m)) +
     2 * length (ALLOW_LIST_V6 m) + length (expired_keys now (ALLOW_LIST_V6 m))"

lemma ahead_None: "ahead m None = map fst m"
  by (simp add: ahead_def)

lemma round4_alone:
  assumes "kmap_wf (ALLOW_LIST_V4 (s_maps s))"
  shows "own_steps now (Suc (Suc (2 * length (ALLOW_LIST_V4 (s_maps s))) +
      length (expired_keys now (ALLOW_LIST_V4 (s_maps s))))) (Idle, s) =
    (Remove4 now [], fold remove_v4 (expired_keys now (ALLOW_LIST_V4 (s_maps s))) s)"
  using walk4_alone [OF assms ahead_None, of now now "[]"]
  by (simp only: own_steps_simps(2) [of _ _ Idle] own_steps_add task_step.simps length_map remove4_alone
      fold_visit_all [OF assms])

lemma round6_alone:
  assumes "kmap_wf (ALLOW_LIST_V6 (s_maps s))"
  shows "own_steps clock (Suc (Suc (2 * length (ALLOW_LIST_V6 (s_maps s))) +
      Suc (length (expired_keys now (ALLOW_LIST_V6 (s_maps s)))))) (Remove4 now [], s) =
    (Idle, fold remove_v6 (expired_keys now (ALLOW_LIST_V6 (s_maps s))) s)"
  using walk6_alone [OF assms ahead_None, of clock now "[]"]
    remove6_alone [of clock "expired_keys now (ALLOW_LIST_V6 (s_maps s))" now s]
  by (simp only: own_steps_simps(2) [of _ _ "Remove4 now []"] own_steps_add task_step.simps length_map
      fold_visit_all [OF assms])

lemma round_alone:
  assumes "kmap_wf (ALLOW_LIST_V4 (s_maps s))" and "kmap_wf (ALLOW_LIST_V6 (s_maps s))"
  shows "own_steps now (round_steps now (s_maps s)) (Idle, s) = (Idle, cleanup_connections now s)"
proof -
  let ?s4 = "fold remove_v4 (expired_keys now (ALLOW_LIST_V4 (s_maps s))) s"
  have v6: "ALLOW_LIST_V6 (s_maps ?s4) = ALLOW_LIST_V6 (s_maps s)" by (simp add: fold_remove_v4)
  have n: "round_steps now (s_maps s) =
      Suc (Suc (2 * length (ALLOW_LIST_V4 (s_maps s))) + length (expired_keys now (ALLOW_LIST_V4 (s_maps s)))) +
      Suc (Suc (2 * length (ALLOW_LIST_V6 (s_maps s))) + Suc (length (expired_keys now (ALLOW_LIST_V6 (s_maps s)))))"
    by (simp add: round_steps_def)
  show ?thesis
    unfolding n own_steps_add [of _ "Suc (Suc (2 * length (ALLOW_LIST_V4 (s_maps s))) + _)"] round4_alone [OF assms(1)]
    using round6_alone [of ?s4 now now] assms(2)
    by (simp only: v6) (simp add: fold_remove_v4 fold_remove_v6 cleanup_connections_def Let_def)
qed

section \<open>What a round removes\<close>

text \<open>The entry of a key is idle for more than ten minutes at \<open>now\<close>.\<close>

definition idle_at :: "u64 \<Rightarrow> ('k, allow_list_state) kmap \<Rightarrow> 'k \<Rightarrow> bool" where
  "idle_at now m key \<longleftrightarrow>
     (\<exists>st. map_of m key = Some st \<and> unat (last_seen st) + 600000000000 < unat now)"

lemma in_visit: "k \<in> set (visit now m key found) \<longleftrightarrow> k \<in> set found \<or> (k = key \<and> idle_at now m key)"
  by (auto simp: visit_def idle_at_def timeout_nat split: option.splits)

fun found_v4 :: "cleanup_task \<Rightarrow> ipv4_packet set" where
  "found_v4 (Next4 _ _ found) = set found"
| "found_v4 (Look4 _ _ found) = set found"
| "found_v4 (Remove4 _ found) = set found"
| "found_v4 _ = {}"

fun found_v6 :: "cleanup_task \<Rightarrow> ipv6_packet set" where
  "found_v6 (Next6 _ _ found6) = set found6"
| "found_v6 (Look6 _ _ found6) = set found6"
| "found_v6 (Remove6 _ found6) = set found6"
| "found_v6 _ = {}"

text \<open>The time that the task read at the tick of its round.\<close>

fun clock_of :: "cleanup_task \<Rightarrow> u64 option" where
  "clock_of Idle = None"
| "clock_of (Next4 now _ _) = Some now"
| "clock_of (Look4 now _ _) = Some now"
| "clock_of (Remove4 now _) = Some now"
| "clock_of (Next6 now _ _) = Some now"
| "clock_of (Look6 now _ _) = Some now"
| "clock_of (Remove6 now _) = Some now"

lemma clock_of_None: "clock_of t = None \<longleftrightarrow> t = Idle"
  by (cases t) simp_all

lemma task_step_clock:
  "t \<noteq> Idle \<Longrightarrow> fst (task_step clock t s) = Idle \<or> clock_of (fst (task_step clock t s)) = clock_of t"
  by (cases "(clock, t, s)" rule: task_step.cases) (simp_all split: option.split)

lemma task_step_found:
  assumes "clock_of t = Some now"
  shows "k \<in> found_v4 (fst (task_step clock t s)) \<Longrightarrow> k \<in> found_v4 t \<or> idle_at now (ALLOW_LIST_V4 (s_maps s)) k"
    and "k6 \<in> found_v6 (fst (task_step clock t s)) \<Longrightarrow> k6 \<in> found_v6 t \<or> idle_at now (ALLOW_LIST_V6 (s_maps s)) k6"
  using assms
  by (cases "(clock, t, s)" rule: task_step.cases; auto simp: in_visit split: option.splits)+

text \<open>The configurations of one round: no tick in between.\<close>

inductive within_round :: "conf \<Rightarrow> conf \<Rightarrow> bool" where
  stay: "within_round c c"
| move: "within_round c c1 \<Longrightarrow> interleaved ev c1 c2 \<Longrightarrow> ev = None \<longrightarrow> fst c1 \<noteq> Idle \<Longrightarrow> within_round c c2"

text \<open>
  The entry of \<open>k\<close> was seen idle in the round that \<open>c\<close> belongs to: there is the tick of this round, in a
  state \<open>sI\<close> reached from the start, at which the task read the time \<open>now\<close>, and since then a moment when
  the entry had been idle for more than ten minutes at \<open>now\<close>.
\<close>

definition seen_idle ::
    "server \<Rightarrow> conf \<Rightarrow> (server \<Rightarrow> ('k, allow_list_state) kmap) \<Rightarrow> u64 \<Rightarrow> server \<Rightarrow> 'k \<Rightarrow> bool" where
  "seen_idle s0 c table now sI k \<longleftrightarrow>
     run (Idle, s0) (Idle, sI) \<and>
     (\<exists>c1. within_round (task_step now Idle sI) c1 \<and> within_round c1 c \<and> idle_at now (table (snd c1)) k)"

lemma seen_idle_move:
  "seen_idle s0 c table now sI k \<Longrightarrow> interleaved ev c c' \<Longrightarrow> ev = None \<longrightarrow> fst c \<noteq> Idle \<Longrightarrow>
     seen_idle s0 c' table now sI k"
  unfolding seen_idle_def by (blast intro: within_round.move)

lemma seen_idle_now:
  "run (Idle, s0) (Idle, sI) \<Longrightarrow> within_round (task_step now Idle sI) c \<Longrightarrow> idle_at now (table (snd c)) k \<Longrightarrow>
     seen_idle s0 c table now sI k"
  unfolding seen_idle_def by (blast intro: within_round.stay)

text \<open>The round of a configuration, and what the task has found in it.\<close>

definition round_state :: "server \<Rightarrow> conf \<Rightarrow> bool" where
  "round_state s0 c \<longleftrightarrow> fst c = Idle \<or>
     (\<exists>now sI. clock_of (fst c) = Some now \<and> run (Idle, s0) (Idle, sI) \<and>
        within_round (task_step now Idle sI) c \<and>
        (\<forall>k \<in> found_v4 (fst c). seen_idle s0 c (\<lambda>s. ALLOW_LIST_V4 (s_maps s)) now sI k) \<and>
        (\<forall>k6 \<in> found_v6 (fst c). seen_idle s0 c (\<lambda>s. ALLOW_LIST_V6 (s_maps s)) now sI k6))"

lemma round_state_move:
  assumes "run (Idle, s0) c" and "round_state s0 c" and step: "interleaved ev c c'"
  shows "round_state s0 c'"
proof (cases "fst c = Idle")
  case True
  then obtain s where c: "c = (Idle, s)" by (cases c) auto
  show ?thesis
  proof (cases ev)
    case None
    then obtain clock where c': "c' = task_step clock Idle s" using step c by (auto elim: ownE)
    show ?thesis
      unfolding round_state_def
      by (intro disjI2 exI [of _ clock] exI [of _ s] conjI)
        (use assms(1) c in \<open>auto simp: c' simp del: task_step.simps intro: within_round.stay, simp_all\<close>)
  next
    case (Some e)
    then show ?thesis using other_keeps_task step True by (simp add: round_state_def)
  qed
next
  case False
  then obtain now sI where old: "clock_of (fst c) = Some now" "run (Idle, s0) (Idle, sI)"
      "within_round (task_step now Idle sI) c"
    and v4: "\<And>k. k \<in> found_v4 (fst c) \<Longrightarrow> seen_idle s0 c (\<lambda>s. ALLOW_LIST_V4 (s_maps s)) now sI k"
    and v6: "\<And>k6. k6 \<in> found_v6 (fst c) \<Longrightarrow> seen_idle s0 c (\<lambda>s. ALLOW_LIST_V6 (s_maps s)) now sI k6"
    using assms(2) by (auto simp: round_state_def)
  have on: "seen_idle s0 c table now sI k \<Longrightarrow> seen_idle s0 c' table now sI k"
    for table :: "server \<Rightarrow> ('k, allow_list_state) kmap" and k
    by (rule seen_idle_move [OF _ step]) (use False in simp_all)
  have here: "idle_at now (table (snd c)) k \<Longrightarrow> seen_idle s0 c' table now sI k"
    for table :: "server \<Rightarrow> ('k, allow_list_state) kmap" and k
    by (rule on [OF seen_idle_now [OF old(2,3)]])
  have here4: "idle_at now (ALLOW_LIST_V4 (s_maps (snd c))) k \<Longrightarrow>
      seen_idle s0 c' (\<lambda>s. ALLOW_LIST_V4 (s_maps s)) now sI k" for k
    by (rule here)
  have here6: "idle_at now (ALLOW_LIST_V6 (s_maps (snd c))) k6 \<Longrightarrow>
      seen_idle s0 c' (\<lambda>s. ALLOW_LIST_V6 (s_maps s)) now sI k6" for k6
    by (rule here)
  have round: "within_round (task_step now Idle sI) c'"
    using within_round.move [OF old(3) step] False by blast
  have "fst c' = Idle \<or> (clock_of (fst c') = Some now \<and>
      (\<forall>k \<in> found_v4 (fst c'). k \<in> found_v4 (fst c) \<or> idle_at now (ALLOW_LIST_V4 (s_maps (snd c))) k) \<and>
      (\<forall>k6 \<in> found_v6 (fst c'). k6 \<in> found_v6 (fst c) \<or> idle_at now (ALLOW_LIST_V6 (s_maps (snd c))) k6))"
  proof (cases ev)
    case None
    then obtain clock where c': "c' = task_step clock (fst c) (snd c)" using step by (cases c) (auto elim: ownE)
    show ?thesis
      using task_step_clock [OF False, of clock "snd c"] task_step_found [OF old(1), of _ clock "snd c"] old(1)
      unfolding c' by auto
  next
    case (Some e)
    then show ?thesis using other_keeps_task step old(1) by simp
  qed
  then show ?thesis
    unfolding round_state_def using old(2) round on [OF v4] on [OF v6] here4 here6 by blast
qed

lemma run_round_state: "run (Idle, s0) c \<Longrightarrow> round_state s0 c"
proof (induction "(Idle, s0)" c rule: run.induct)
  case (move c1 ev c2)
  then show ?case using round_state_move by blast
qed (simp add: round_state_def)

lemma task_step_cases:
  obtains (none) "snd (task_step clock t s) = s"
  | (v4) now key found where "t = Remove4 now (key # found)" and "snd (task_step clock t s) = remove_v4 key s"
  | (v6) now k6 found6 where "t = Remove6 now (k6 # found6)" and "snd (task_step clock t s) = remove_v6 k6 s"
  by (cases "(clock, t, s)" rule: task_step.cases) (simp_all split: option.splits)

lemma task_step_effect:
  "same_rules s (snd (task_step clock t s)) \<and>
   (map_of (ALLOW_LIST_V4 (s_maps (snd (task_step clock t s)))) k \<noteq> map_of (ALLOW_LIST_V4 (s_maps s)) k \<longrightarrow>
      map_of (ALLOW_LIST_V4 (s_maps (snd (task_step clock t s)))) k = None \<and> t \<noteq> Idle \<and> k \<in> found_v4 t) \<and>
   (map_of (ALLOW_LIST_V6 (s_maps (snd (task_step clock t s)))) k6 \<noteq> map_of (ALLOW_LIST_V6 (s_maps s)) k6 \<longrightarrow>
      map_of (ALLOW_LIST_V6 (s_maps (snd (task_step clock t s)))) k6 = None \<and> t \<noteq> Idle \<and> k6 \<in> found_v6 t)"
  by (cases rule: task_step_cases [of clock t s])
    (auto simp: remove_v4_def remove_v6_def same_rules_def same_policy_def map_simps)

section \<open>What disturbs a walk, and what does not\<close>

text \<open>Packets that refresh an entry leave the order of the keys alone.\<close>

lemma ahead_write [simp]: "ahead (kmap_write k f m) cursor = ahead m cursor"
  by (simp only: ahead_def fst_kmap_write)

text \<open>Nor does the removal of a key that the cursor does not stand on put any key ahead of it.\<close>

lemma tl_dropWhile_filter:
  assumes "c \<noteq> k" and "c \<in> set ks"
  shows "tl (dropWhile (\<lambda>x. x \<noteq> c) (filter (\<lambda>x. x \<noteq> k) ks)) =
    filter (\<lambda>x. x \<noteq> k) (tl (dropWhile (\<lambda>x. x \<noteq> c) ks))"
  using assms by (induction ks) auto

lemma ahead_del_key:
  assumes "cursor \<noteq> Some k"
  shows "set (ahead (del_key k m) cursor) \<subseteq> set (ahead m cursor)"
proof -
  have keys: "map fst (del_key k m) = filter (\<lambda>x. x \<noteq> k) (map fst m)"
    by (induction m) (auto simp: del_key_def)
  show ?thesis
  proof (cases cursor)
    case (Some c)
    with assms show ?thesis
      unfolding ahead_def keys Some by (auto simp: tl_dropWhile_filter simp del: set_map)
  qed (auto simp: ahead_def keys simp del: set_map)
qed

lemma run_own_steps: "run c (own_steps clock n c)"
proof (induction n)
  case (Suc n)
  obtain t s where ts: "own_steps clock n c = (t, s)" by fastforce
  from run.move [OF Suc [unfolded ts] interleaved.own [of t s clock]] show ?case
    by (simp only: own_steps_Suc ts fst_conv snd_conv)
qed (simp add: run.stay)

lemma fold_visit_prefix: "\<exists>rest. fold (visit now m) ks found = found @ rest"
proof (induction ks arbitrary: found)
  case (Cons k ks)
  have "\<exists>r. visit now m k found = found @ r" by (auto simp: visit_def split: option.split)
  with Cons.IH [of "visit now m k found"] show ?case by auto
qed simp

section \<open>Properties of a round\<close>

text \<open>A filtering server with one idle connection.\<close>

definition sample_idle :: server where
  "sample_idle = sample_filtering\<lparr>s_maps := sample_maps\<lparr>
     ALLOW_LIST_V4 := [(sample_key4, \<lparr>als_action = Allow, last_seen = 5\<rparr>)]\<rparr>\<rparr>"

lemma sample_idle_ok: "server_ok sample_idle"
  using sample_denying_ok by (simp add: sample_idle_def server_ok_def tables_ok_def kmap_wf_def)

lemma sample_idle_config [simp]: "current_config (s_maps sample_idle) = sample_config"
  by (simp add: sample_idle_def current_config_def)

lemma sample_idle_at: "idle_at 600000000006 (ALLOW_LIST_V4 (s_maps sample_idle)) sample_key4"
  by (simp add: idle_at_def sample_idle_def)

text \<open>
  C12: When a round of the cleanup ends: in every interleaving of the task with packets, requests and
  pruning in which the task is scheduled again and again, either it is back at its wait again and again, or
  its walks are disturbed again and again without end: some event puts a key ahead of the cursor that was
  not ahead of it before, a new connection in a later place, or all keys anew when the key under the cursor
  is gone. Packets of known connections and removals of other keys, however many, do not keep the task from
  its end; nor does anything that happens while it removes.
\<close>

theorem cleanup_terminates:
  assumes "\<forall>i. interleaved (evs i) (f i) (f (Suc i))" and "server_ok (snd (f 0))"
    and "\<forall>i. \<exists>j\<ge>i. evs j = None"
  shows "(\<forall>i. \<exists>j\<ge>i. fst (f j) = Idle) \<or>
    (\<forall>n. \<exists>j\<ge>n. evs j \<noteq> None \<and> disturbs (fst (f j)) (snd (f j)) (snd (f (Suc j))))"
proof -
  have ok: "server_ok (snd (f i))" for i
    using assms(1,2) interleaved_ok by (induction i) blast+
  have "\<exists>j\<ge>i. fst (f j) = Idle"
    if "\<And>j. n \<le> j \<Longrightarrow> evs j \<noteq> None \<Longrightarrow> \<not> disturbs (fst (f j)) (snd (f j)) (snd (f (Suc j)))" for i n
  proof -
    have "\<exists>j\<ge>max n i. fst (f j) = Idle"
      by (rule reaches_Idle [where evs = evs and f = f and ?n0.0 = n]) (use assms(1,3) ok that in auto)
    then show ?thesis by auto
  qed
  then show ?thesis by blast
qed

theorem cleanup_terminates_witness:
  "\<exists>j\<ge>1. fst (own_steps 9 j (Idle, sample_idle)) = Idle"
proof -
  let ?f = "\<lambda>i. own_steps 9 i (Idle, sample_idle)"
  have step: "interleaved None (?f i) (?f (Suc i))" for i
    using interleaved.own [of "fst (?f i)" "snd (?f i)" 9] by (simp only: own_steps_Suc prod.collapse)
  have "(\<forall>i. \<exists>j\<ge>i. fst (?f j) = Idle) \<or>
      (\<forall>n. \<exists>j\<ge>n. (None :: event option) \<noteq> None \<and> disturbs (fst (?f j)) (snd (?f j)) (snd (?f (Suc j))))"
  proof (rule cleanup_terminates)
    show "\<forall>i. interleaved None (?f i) (?f (Suc i))" using step by blast
    show "server_ok (snd (?f 0))" using sample_idle_ok by (simp only: own_steps_simps snd_conv)
    show "\<forall>i :: nat. \<exists>j\<ge>i. (None :: event option) = None" by auto
  qed
  then show ?thesis by blast
qed

text \<open>
  C14: With nothing in between, a round is the atomic tick of the other theories: after exactly the steps
  for the wait, the two walks and the removals the task is back at its wait, and the tables are those
  of \<open>cleanup_connections\<close>.
\<close>

theorem cleanup_alone_is_atomic:
  assumes "server_ok s"
  shows "own_steps now (round_steps now (s_maps s)) (Idle, s) = (Idle, cleanup_connections now s)"
  by (rule round_alone) (use assms in \<open>simp_all add: server_ok_def tables_ok_def\<close>)

theorem cleanup_alone_is_atomic_witness:
  "own_steps 600000000006 8 (Idle, sample_filtering\<lparr>s_maps := sample_maps\<lparr>
     ALLOW_LIST_V4 := [(sample_key4, \<lparr>als_action = Deny, last_seen = 5\<rparr>)]\<rparr>\<rparr>) =
   (Idle, sample_filtering\<lparr>s_maps := sample_maps\<lparr>ALLOW_LIST_V4 := []\<rparr>\<rparr>)"
  using cleanup_alone_is_atomic [OF sample_denying_ok, of 600000000006]
  by (simp add: round_steps_def cleanup_connections_def Let_def expired_keys_def timeout_nat sample_maps_def
      del_keys_def del_key_def)

text \<open>
  C13: What a round does among packets and requests: each of its steps changes no rule, and it changes a
  connection table only by removing an entry, one that the task has seen idle in this very round: at the
  tick of the round it read the time \<open>now\<close>, and between that tick and the step there was a moment when the
  entry had been idle for more than ten minutes at \<open>now\<close>.
\<close>

theorem cleanup_removes_seen_idle:
  assumes "run (Idle, s0) (t, s)" and "task_step clock t s = (t', s')"
  shows "same_rules s s' \<and>
    (map_of (ALLOW_LIST_V4 (s_maps s')) k \<noteq> map_of (ALLOW_LIST_V4 (s_maps s)) k \<longrightarrow>
      map_of (ALLOW_LIST_V4 (s_maps s')) k = None \<and>
      (\<exists>now sI t1 s1. clock_of t = Some now \<and> run (Idle, s0) (Idle, sI) \<and>
        within_round (task_step now Idle sI) (t1, s1) \<and> within_round (t1, s1) (t, s) \<and>
        idle_at now (ALLOW_LIST_V4 (s_maps s1)) k)) \<and>
    (map_of (ALLOW_LIST_V6 (s_maps s')) k6 \<noteq> map_of (ALLOW_LIST_V6 (s_maps s)) k6 \<longrightarrow>
      map_of (ALLOW_LIST_V6 (s_maps s')) k6 = None \<and>
      (\<exists>now sI t1 s1. clock_of t = Some now \<and> run (Idle, s0) (Idle, sI) \<and>
        within_round (task_step now Idle sI) (t1, s1) \<and> within_round (t1, s1) (t, s) \<and>
        idle_at now (ALLOW_LIST_V6 (s_maps s1)) k6))"
proof -
  have s': "snd (task_step clock t s) = s'" using assms(2) by simp
  have "\<exists>now sI. clock_of t = Some now \<and>
      (\<forall>k \<in> found_v4 t. seen_idle s0 (t, s) (\<lambda>s. ALLOW_LIST_V4 (s_maps s)) now sI k) \<and>
      (\<forall>k6 \<in> found_v6 t. seen_idle s0 (t, s) (\<lambda>s. ALLOW_LIST_V6 (s_maps s)) now sI k6)" if "t \<noteq> Idle"
    using run_round_state [OF assms(1)] that by (auto simp: round_state_def)
  then show ?thesis
    using task_step_effect [of s clock t k k6, unfolded s'] unfolding seen_idle_def split_paired_Ex snd_conv
    by blast
qed

theorem cleanup_removes_seen_idle_witness:
  "\<exists>sI t1 s1. run (Idle, sample_idle) (Idle, sI) \<and> within_round (task_step 600000000006 Idle sI) (t1, s1) \<and>
     idle_at 600000000006 (ALLOW_LIST_V4 (s_maps s1)) sample_key4"
proof -
  let ?n = "600000000006"
  have wf: "kmap_wf (ALLOW_LIST_V4 (s_maps sample_idle))"
    using sample_idle_ok by (simp add: server_ok_def tables_ok_def)
  have keys: "ahead (ALLOW_LIST_V4 (s_maps sample_idle)) None = [sample_key4]"
    by (simp add: ahead_None sample_idle_def)
  have "visit ?n (ALLOW_LIST_V4 (s_maps sample_idle)) sample_key4 [] = [sample_key4]"
    by (simp add: visit_def timeout_nat sample_idle_def)
  then have "run (Next4 ?n None [], sample_idle) (Remove4 ?n [sample_key4], sample_idle)"
    using run_own_steps [of "(Next4 ?n None [], sample_idle)" 0 "Suc (2 * length [sample_key4])"]
    by (simp only: walk4_alone [OF wf keys] fold_simps)
  moreover have "run (Idle, sample_idle) (Next4 ?n None [], sample_idle)"
    using run.move [OF run.stay interleaved.own [of Idle sample_idle ?n]] by simp
  ultimately have "run (Idle, sample_idle) (Remove4 ?n [sample_key4], sample_idle)" by (rule run_trans)
  from cleanup_removes_seen_idle [OF this, of ?n "Remove4 ?n []" "remove_v4 sample_key4 sample_idle" sample_key4]
  show ?thesis by (auto simp: remove_v4_def sample_idle_def map_simps)
qed

text \<open>
  C19: The round is not atomic, and a connection can pay for it: when a packet uses a connection after
  the task found it idle and before it removes it, the packet is handled as usual and refreshes the
  entry, and yet the entry goes, and the reply to the packet is dropped. A tick after the packet, not
  more than ten minutes later, leaves the connection in place. Here the task finds the key, walks to the
  end of the table, then comes the packet, then the removal.
\<close>

theorem cleanup_races_with_packets:
  assumes "env_ok env" and "server_ok s" and "idle_at now (ALLOW_LIST_V4 (s_maps s)) key"
    and "map_option als_action (map_of (ALLOW_LIST_V4 (s_maps s)) key) \<noteq> Some Deny"
    and "arm_v4 N ctx (s_maps s)" and "packet_direction ctx (s_maps s) = Outgoing"
    and "parse_v4 N ctx Outgoing = Inr (key, ext, proto, False)"
    and "\<not> subnet_denies_v4 (e_kern env) (current_config (s_maps s)) (s_maps s) ext"
    and "ins_allow_v4 (e_kern env) (ALLOW_LIST_V4 (s_maps s)) key \<lparr>als_action = Allow, last_seen = t1\<rparr> \<noteq> None"
    and "s1 = s\<lparr>s_maps := snd (oxidrop N (e_kern env) t1 t2 ctx (s_maps s))\<rparr>"
  shows "(\<exists>others. run (Look4 now key [], s) (Remove4 now others, remove_v4 key s1)) \<and>
    map_of (ALLOW_LIST_V4 (s_maps s1)) key = Some \<lparr>als_action = Allow, last_seen = t1\<rparr> \<and>
    map_of (ALLOW_LIST_V4 (s_maps (remove_v4 key s1))) key = None \<and>
    (\<forall>N' ctx' ext' proto' K t3 t4. arm_v4 N' ctx' (s_maps s) \<longrightarrow> packet_direction ctx' (s_maps s) = Incoming \<longrightarrow>
       parse_v4 N' ctx' Incoming = Inr (key, ext', proto', False) \<longrightarrow>
       fst (oxidrop N' K t3 t4 ctx' (s_maps (remove_v4 key s1))) = Some XDP_DROP) \<and>
    (unat now \<le> unat t1 + 600000000000 \<longrightarrow>
       map_of (ALLOW_LIST_V4 (s_maps (cleanup_connections now s1))) key =
         Some \<lparr>als_action = Allow, last_seen = t1\<rparr>)"
proof -
  let ?c = "current_config (s_maps s)"
  have "map_of (ALLOW_LIST_V4 (snd (filter_v4 (e_kern env) ?c t1 t2 Outgoing (key, ext, proto, False) (s_maps s)))) key =
      Some \<lparr>als_action = Allow, last_seen = t1\<rparr>"
    by (rule filter_v4_outgoing [OF kern_okD(1) [OF env_okD(2) [OF assms(1)]] assms(4,9,8)])
  then have fresh: "map_of (ALLOW_LIST_V4 (s_maps s1)) key = Some \<lparr>als_action = Allow, last_seen = t1\<rparr>"
    using oxidrop_v4_snd [OF assms(5), of "(key, ext, proto, False)"] assms(6,7,10) by simp
  have "visit now (ALLOW_LIST_V4 (s_maps s)) key [] = [key]"
    using assms(3) by (auto simp: visit_def idle_at_def timeout_nat)
  then have "run (Look4 now key [], s) (Next4 now (Some key) [key], s)"
    using run.move [OF run.stay interleaved.own [of "Look4 now key []" s 0]] by simp
  moreover have wf: "kmap_wf (ALLOW_LIST_V4 (s_maps s))" using assms(2) by (simp add: server_ok_def tables_ok_def)
  obtain others where "fold (visit now (ALLOW_LIST_V4 (s_maps s)))
      (ahead (ALLOW_LIST_V4 (s_maps s)) (Some key)) [key] = key # others"
    using fold_visit_prefix [of now "ALLOW_LIST_V4 (s_maps s)" _ "[key]"] by (metis append_Cons append_Nil)
  then have "run (Next4 now (Some key) [key], s) (Remove4 now (key # others), s)"
    using run_own_steps [of "(Next4 now (Some key) [key], s)" 0] wf
      walk4_alone [where s = s and cursor = "Some key" and found = "[key]" and now = now and clock = 0, OF _ refl]
    by metis
  ultimately have "run (Look4 now key [], s) (Remove4 now (key # others), s)" by (rule run_trans [rotated])
  moreover have "interleaved (Some (Packet N t1 t2 ctx)) (Remove4 now (key # others), s) (Remove4 now (key # others), s1)"
    unfolding assms(10) by (rule interleaved.other [OF step.packet [OF assms(1)]]) simp
  ultimately have "run (Look4 now key [], s) (Remove4 now (key # others), s1)" by (rule run.move)
  then have "run (Look4 now key [], s) (Remove4 now others, remove_v4 key s1)"
    using run.move [OF _ interleaved.own [of "Remove4 now (key # others)" s1 0]] by simp
  then have "\<exists>others. run (Look4 now key [], s) (Remove4 now others, remove_v4 key s1)" by blast
  moreover have "fst (oxidrop N' K t3 t4 ctx' (s_maps (remove_v4 key s1))) = Some XDP_DROP"
    if "arm_v4 N' ctx' (s_maps s)" and "packet_direction ctx' (s_maps s) = Incoming"
      and "parse_v4 N' ctx' Incoming = Inr (key, ext', proto', False)" for N' ctx' ext' proto' K t3 t4
  proof -
    have "CONFIG (s_maps (remove_v4 key s1)) = CONFIG (s_maps s)"
      using packet_frame by (simp add: assms(10) remove_v4_def)
    then have "current_config (s_maps (remove_v4 key s1)) = current_config (s_maps s)"
      by (simp add: current_config_def)
    then have "arm_v4 N' ctx' (s_maps (remove_v4 key s1))"
      and "packet_direction ctx' (s_maps (remove_v4 key s1)) = Incoming"
      using that(1,2) by (simp_all add: arm_v4_def packet_direction_def)
    then show ?thesis
      using not_allowed_dropped [OF _ _ that(3)] by (simp add: remove_v4_def map_simps)
  qed
  moreover have "map_of (ALLOW_LIST_V4 (s_maps (cleanup_connections now s1))) key =
      Some \<lparr>als_action = Allow, last_seen = t1\<rparr>" if "unat now \<le> unat t1 + 600000000000"
  proof -
    have "server_ok s1" using step_ok [OF step.packet [OF assms(1)] assms(2)] by (simp add: assms(10))
    then have "kmap_wf (ALLOW_LIST_V4 (s_maps s1))" by (simp add: server_ok_def tables_ok_def)
    then show ?thesis
      using that fresh by (simp add: cleanup_connections_def Let_def map_of_cleanup timeout_nat)
  qed
  ultimately show ?thesis using fresh by (simp add: remove_v4_def map_simps)
qed

theorem cleanup_races_with_packets_witness:
  "\<exists>s1. map_of (ALLOW_LIST_V4 (s_maps s1)) sample_key4 = Some \<lparr>als_action = Allow, last_seen = 600000000006\<rparr> \<and>
     (\<exists>others. run (Look4 600000000006 sample_key4 [], sample_idle)
       (Remove4 600000000006 others, remove_v4 sample_key4 s1)) \<and>
     fst (oxidrop wire_net ref_kern 600000000008 600000000009 (inbound4 ACK)
       (s_maps (remove_v4 sample_key4 s1))) = Some XDP_DROP"
proof -
  have K: "e_kern ref_env = ref_kern" by (simp add: ref_env_def)
  let ?s1 = "sample_idle\<lparr>s_maps := snd (oxidrop wire_net ref_kern 600000000006 600000000007 (outbound4 ACK)
    (s_maps sample_idle))\<rparr>"
  have subnet: "\<not> subnet_denies_v4 ref_kern (current_config (s_maps sample_idle)) (s_maps sample_idle) outside4"
    by (simp add: subnet_denies_v4_def sample_idle_def)
  have room: "ins_allow_v4 ref_kern (ALLOW_LIST_V4 (s_maps sample_idle)) sample_key4
      \<lparr>als_action = Allow, last_seen = 600000000006\<rparr> \<noteq> None"
    by (simp add: lru_put_def sample_idle_def)
  have allowed: "map_option als_action (map_of (ALLOW_LIST_V4 (s_maps sample_idle)) sample_key4) \<noteq> Some Deny"
    by (simp add: sample_idle_def)
  note race = cleanup_races_with_packets [OF ref_env_ok sample_idle_ok sample_idle_at allowed
      sample_arm_v4(2) [OF sample_idle_config] sample_direction(2) [OF sample_idle_config]
      sample_parse_v4(3), unfolded K, OF subnet room refl, of 600000000007]
  then have "fst (oxidrop wire_net ref_kern 600000000008 600000000009 (inbound4 ACK)
      (s_maps (remove_v4 sample_key4 ?s1))) = Some XDP_DROP"
    using sample_arm_v4(1) [OF sample_idle_config] sample_direction(1) [OF sample_idle_config]
      sample_parse_v4(1) by blast
  with race show ?thesis by blast
qed

end
