(* ===== verification/Cleanup_Endless.thy ===== *)
theory Cleanup_Endless
  imports Cleanup_Task
begin

text \<open>
  A round of the cleanup that does not end. Two connections from inside take turns: one is opened, the
  other is closed while the walk stands on it. The kernel then starts the walk again at the first key of the
  table, which is the new connection, and so on; four packets in a circle keep the task walking, with the lock of
  the table in its hand. The condition of \<open>Cleanup_Task\<close> on when a round ends cannot be dropped.
\<close>

section \<open>Two connections\<close>

definition port_conn :: "u8 \<Rightarrow> ipv4_packet" where
  "port_conn p = ipv4_packet_new 0x0A000001 0x01010101 (0x1F00 + ucast p) 443 6"

definition port_frame :: "u8 \<Rightarrow> u8 \<Rightarrow> xdp_ctx" where
  "port_frame p f = \<lparr>ctx_data = 4096, ctx_packet = tcp_packet4 inside4 outside4 [31, p] [1, 187] f,
     ctx_ingress_ifindex = 1\<rparr>"

abbreviation conn_a :: ipv4_packet where "conn_a \<equiv> port_conn 144"
abbreviation conn_b :: ipv4_packet where "conn_b \<equiv> port_conn 145"

lemma conn_neq [simp]: "conn_a \<noteq> conn_b" "conn_b \<noteq> conn_a"
  by (simp_all add: port_conn_def ipv4_packet_new_def)

lemma port_parse:
  "parse_v4 wire_net (port_frame 144 ACK) Outgoing = Inr (conn_a, outside4, IpTcp, False)"
  "parse_v4 wire_net (port_frame 144 FIN) Outgoing = Inr (conn_a, outside4, IpTcp, True)"
  "parse_v4 wire_net (port_frame 145 ACK) Outgoing = Inr (conn_b, outside4, IpTcp, False)"
  "parse_v4 wire_net (port_frame 145 FIN) Outgoing = Inr (conn_b, outside4, IpTcp, True)"
  by (simp_all add: parse_v4_def port_frame_def sample_bytes sample_parsing
      l4_ports_v4_def flow_key_v4_def port_conn_def)

text \<open>A server with the given connections, each opened by a packet at 5 and metered at 6.\<close>

definition with_conns :: "ipv4_packet list \<Rightarrow> server" where
  "with_conns ks = sample_filtering\<lparr>s_maps := sample_maps\<lparr>
     ALLOW_LIST_V4 := map (\<lambda>k. (k, \<lparr>als_action = Allow, last_seen = 5\<rparr>)) ks,
     PACKET_COUNTS_V4 := map (\<lambda>k. (k, \<lparr>tokens = 999, last_update = 6\<rparr>)) ks\<rparr>\<rparr>"

lemma with_conns_sel [simp]:
  "current_config (s_maps (with_conns ks)) = sample_config"
  "ALLOW_LIST_V4 (s_maps (with_conns ks)) = map (\<lambda>k. (k, \<lparr>als_action = Allow, last_seen = 5\<rparr>)) ks"
  by (simp_all add: with_conns_def current_config_def)

definition sent :: "u8 \<Rightarrow> u8 \<Rightarrow> event" where
  "sent p f = Packet wire_net 5 6 (port_frame p f)"

lemma sent_step:
  assumes "parse_v4 wire_net (port_frame p f) Outgoing = Inr x"
    and "snd (filter_v4 ref_kern sample_config 5 6 Outgoing x (s_maps s)) = s_maps s'"
    and "current_config (s_maps s) = sample_config" and "s' = s\<lparr>s_maps := s_maps s'\<rparr>"
  shows "step (sent p f) s s'"
proof -
  have K: "e_kern ref_env = ref_kern" by (simp add: ref_env_def)
  have dir: "packet_direction (port_frame p f) (s_maps s) = Outgoing"
    using assms(3) by (simp add: packet_direction_def traffic_direction_def port_frame_def)
  have arm: "arm_v4 wire_net (port_frame p f) (s_maps s)"
    using assms(3) by (simp add: arm_v4_def packet_ether_type_def port_frame_def sample_bytes sample_parsing
        wire_ether_type_def flags_contains_def activater_defs)
  have "snd (oxidrop wire_net ref_kern 5 6 (port_frame p f) (s_maps s)) = s_maps s'"
    using oxidrop_v4_snd [OF arm, of x ref_kern 5 6] assms(1-3) dir by simp
  then have "s' = s\<lparr>s_maps := snd (oxidrop wire_net ref_kern 5 6 (port_frame p f) (s_maps s))\<rparr>"
    using assms(4) by simp
  then show ?thesis
    using step.packet [OF ref_env_ok, of wire_net 5 6 "port_frame p f" s] by (simp add: sent_def K)
qed

lemma open_effect:
  assumes "k \<noteq> k'"
  shows "snd (filter_v4 ref_kern sample_config 5 6 Outgoing (k, outside4, IpTcp, False) (s_maps (with_conns [k']))) =
    s_maps (with_conns [k, k'])"
  using assms
  by (simp add: filter_v4_def subnet_denies_v4_def track_v4_def with_conns_def put_or_keep_def lru_put_def
      LRU_MAX_ENTRIES_def del_key_def flow_bucket_def fresh_bucket_def ddos_and_bucket_ending_v4_def
      evaluate_bucket_def active_profile_def Let_def take_Cons')

lemma close_effect:
  assumes "k \<noteq> k'"
  shows "snd (filter_v4 ref_kern sample_config 5 6 Outgoing (k', outside4, IpTcp, True) (s_maps (with_conns [k, k']))) =
    s_maps (with_conns [k])"
  using assms
  by (simp add: filter_v4_def subnet_denies_v4_def with_conns_def forget_v4_def del_key_def)

lemma with_conns_maps: "with_conns ks' = (with_conns ks)\<lparr>s_maps := s_maps (with_conns ks')\<rparr>"
  by (simp add: with_conns_def)

lemma turn_a:
  "step (sent 144 ACK) (with_conns [conn_b]) (with_conns [conn_a, conn_b])"
  "step (sent 145 FIN) (with_conns [conn_a, conn_b]) (with_conns [conn_a])"
  by (rule sent_step [OF port_parse(1) open_effect _ with_conns_maps], simp_all)
    (rule sent_step [OF port_parse(4) close_effect _ with_conns_maps], simp_all)

lemma turn_b:
  "step (sent 145 ACK) (with_conns [conn_a]) (with_conns [conn_b, conn_a])"
  "step (sent 144 FIN) (with_conns [conn_b, conn_a]) (with_conns [conn_b])"
  by (rule sent_step [OF port_parse(3) open_effect _ with_conns_maps], simp_all)
    (rule sent_step [OF port_parse(2) close_effect _ with_conns_maps], simp_all)

section \<open>The circle\<close>

text \<open>The walk stands on a connection that is about to go, and is given the other one.\<close>

definition circle :: "(event option \<times> conf) list" where
  "circle =
     [(None, (Next4 10 (Some conn_a) [], with_conns [conn_b])),
      (None, (Look4 10 conn_b [], with_conns [conn_b])),
      (Some (sent 144 ACK), (Next4 10 (Some conn_b) [], with_conns [conn_b])),
      (Some (sent 145 FIN), (Next4 10 (Some conn_b) [], with_conns [conn_a, conn_b])),
      (None, (Next4 10 (Some conn_b) [], with_conns [conn_a])),
      (None, (Look4 10 conn_a [], with_conns [conn_a])),
      (Some (sent 145 ACK), (Next4 10 (Some conn_a) [], with_conns [conn_a])),
      (Some (sent 144 FIN), (Next4 10 (Some conn_a) [], with_conns [conn_b, conn_a]))]"

lemma own_move: "task_step 0 t s = (t', s') \<Longrightarrow> interleaved None (t, s) (t', s')"
  using interleaved.own [of t s 0] by simp

lemma sent_move: "step (sent p f) s s' \<Longrightarrow> interleaved (Some (sent p f)) (t, s) (t, s')"
  by (rule interleaved.other, assumption) (cases t; simp add: sent_def)

lemma circle_moves:
  assumes "i < 8"
  shows "interleaved (fst (circle ! i)) (snd (circle ! i)) (snd (circle ! (Suc i mod 8)))"
proof -
  have not_idle: "visit 10 (map (\<lambda>k. (k, \<lparr>als_action = Allow, last_seen = 5\<rparr>)) [k]) k [] = []" for k :: ipv4_packet
    by (simp add: visit_def timeout_nat)
  have walks: "interleaved None (Next4 10 (Some conn_a) [], with_conns [conn_b]) (Look4 10 conn_b [], with_conns [conn_b])"
    "interleaved None (Look4 10 conn_b [], with_conns [conn_b]) (Next4 10 (Some conn_b) [], with_conns [conn_b])"
    "interleaved None (Next4 10 (Some conn_b) [], with_conns [conn_a]) (Look4 10 conn_a [], with_conns [conn_a])"
    "interleaved None (Look4 10 conn_a [], with_conns [conn_a]) (Next4 10 (Some conn_a) [], with_conns [conn_a])"
    by (rule own_move, simp add: get_next_key_def ahead_def not_idle [simplified])+
  from assms consider "i = 0" | "i = 1" | "i = 2" | "i = 3" | "i = 4" | "i = 5" | "i = 6" | "i = 7" by linarith
  then show ?thesis
    using walks turn_a [THEN sent_move] turn_b [THEN sent_move]
    by cases (simp_all add: circle_def)
qed

text \<open>
  The circle begins in an ordinary state: the task has just seen the only connection of the server, in a
  round of its own. From there on the run takes statements of the task again and again, and never reaches
  the wait.
\<close>

theorem cleanup_may_never_end:
  "\<exists>evs f. run (Idle, with_conns [conn_a]) (f 0) \<and> server_ok (with_conns [conn_a]) \<and>
     (\<forall>i. interleaved (evs i) (f i) (f (Suc i))) \<and> (\<forall>i. \<exists>j\<ge>i. evs j = None) \<and> (\<forall>i. fst (f i) \<noteq> Idle)"
proof -
  let ?at = "\<lambda>i :: nat. circle ! ((i + 6) mod 8)"
  have "interleaved (fst (?at i)) (snd (?at i)) (snd (?at (Suc i)))" for i
    using circle_moves [of "(i + 6) mod 8"] by (simp add: mod_Suc_eq)
  moreover have "\<exists>j\<ge>i. fst (?at j) = None" for i
    by (rule exI [of _ "8 * i + 2"]) (simp add: circle_def)
  moreover have "fst (snd (?at i)) \<noteq> Idle" for i
  proof -
    have "?at i \<in> set circle" by (rule nth_mem) (simp add: circle_def)
    moreover have "\<forall>x \<in> set circle. fst (snd x) \<noteq> Idle" by (simp add: circle_def)
    ultimately show ?thesis by blast
  qed
  moreover have "run (Idle, with_conns [conn_a]) (snd (?at 0))"
  proof -
    have "own_steps 10 (Suc (Suc (Suc 0))) (Idle, with_conns [conn_a]) =
        (Next4 10 (Some conn_a) [], with_conns [conn_a])"
      by (simp add: get_next_key_def ahead_def visit_def timeout_nat)
    moreover have "snd (?at 0) = (Next4 10 (Some conn_a) [], with_conns [conn_a])" by (simp add: circle_def)
    ultimately show ?thesis using run_own_steps [of "(Idle, with_conns [conn_a])" 10 "Suc (Suc (Suc 0))"] by simp
  qed
  moreover have "server_ok (with_conns [conn_a])"
    using sample_idle_ok by (simp add: sample_idle_def with_conns_def server_ok_def tables_ok_def kmap_wf_def)
  ultimately show ?thesis by (intro exI [of _ "\<lambda>i. fst (?at i)"] exI [of _ "\<lambda>i. snd (?at i)"] conjI) blast+
qed

end
