(* ===== verification/Bucket_Race.thy ===== *)
theory Bucket_Race
  imports Flow_Rate
begin

text \<open>
  The bucket of a flow on several processors (\<open>xdp_firewall\<close> and \<open>ddos_and_bucket_ending_v4\<close> of
  oxidrop-ebpf/src/main.rs). The program copies the bucket out of the map, evaluates the copy, and
  inserts it again; the map operations are atomic, the three together are not. Here the two accesses
  are steps of their own, taken by processors in any order. One packet after the other gives the
  sequential program, to which the bound of \<open>Flow_Rate\<close> applies; packets that read before the first of
  them writes all see the same token.
\<close>

section \<open>The two accesses\<close>

text \<open>Reading: \<open>PACKET_COUNTS_V4.get(..).copied()\<close> and the evaluation of the copy.\<close>

definition read_bucket ::
    "rate_profile \<Rightarrow> ipv4_packet \<Rightarrow> u64 \<Rightarrow> maps \<Rightarrow> (firewall_error, u32) result \<times> token_bucket_state" where
  "read_bucket p key now m = evaluate_bucket (flow_bucket (PACKET_COUNTS_V4 m) key p now) p now"

text \<open>Writing: \<open>let _ = PACKET_COUNTS_V4.insert(..)\<close>.\<close>

definition write_bucket :: "kern \<Rightarrow> ipv4_packet \<Rightarrow> token_bucket_state \<Rightarrow> maps \<Rightarrow> maps" where
  "write_bucket K key bucket m =
     m\<lparr>PACKET_COUNTS_V4 := put_or_keep (ins_counts_v4 K) (PACKET_COUNTS_V4 m) key bucket\<rparr>"

lemma ending_v4_accesses:
  assumes "ddos_activated c"
  shows "ddos_and_bucket_ending_v4 K c (flow_bucket (PACKET_COUNTS_V4 m) key p now) now p key dir m =
    (case read_bucket p key now m of (r, bucket) \<Rightarrow>
      (case r of Inr _ \<Rightarrow> Inr (redirect_or_pass K c dir) | Inl _ \<Rightarrow> Inl (Fw RateLimited),
       write_bucket K key bucket m))"
  using assms
  by (auto simp: ddos_and_bucket_ending_v4_def read_bucket_def write_bucket_def Let_def
      split: prod.split sum.split)

section \<open>Processors\<close>

datatype access = Read nat u64 | Write nat

text \<open>The maps, the evaluated copy that each processor holds, and the verdicts so far.\<close>

type_synonym cpus = "maps \<times> (nat \<Rightarrow> token_bucket_state option) \<times> (firewall_error, u32) result list"

fun cpu_step :: "kern \<Rightarrow> rate_profile \<Rightarrow> ipv4_packet \<Rightarrow> access \<Rightarrow> cpus \<Rightarrow> cpus" where
  "cpu_step K p key (Read i now) (m, held, out) =
     (case read_bucket p key now m of (r, bucket) \<Rightarrow> (m, held(i := Some bucket), out @ [r]))"
| "cpu_step K p key (Write i) (m, held, out) =
     (case held i of
        None \<Rightarrow> (m, held, out)
      | Some bucket \<Rightarrow> (write_bucket K key bucket m, held(i := None), out))"

text \<open>One packet after the other on one processor, and all the reads before the writes on as many.\<close>

definition in_turn :: "u64 list \<Rightarrow> access list" where
  "in_turn ts = concat (map (\<lambda>t. [Read 0 t, Write 0]) ts)"

definition at_once :: "u64 list \<Rightarrow> access list" where
  "at_once ts = map (\<lambda>(i, t). Read i t) (enumerate 0 ts) @ map Write [0..<length ts]"

section \<open>No refill between\<close>

text \<open>At the times \<open>ts\<close> the bucket gets no token back.\<close>

definition no_refill :: "rate_profile \<Rightarrow> token_bucket_state \<Rightarrow> u64 list \<Rightarrow> bool" where
  "no_refill p b ts \<longleftrightarrow>
     (\<forall>t \<in> set ts. drop_bit (unat (rate_shift p AND 63)) (saturating_sub t (last_update b)) = 0)"

lemma evaluate_no_refill:
  assumes "drop_bit (unat (rate_shift p AND 63)) (saturating_sub t (last_update b)) = 0"
  shows "evaluate_bucket b p t = (if 0 < tokens b then (Inr XDP_PASS, b\<lparr>tokens := tokens b - 1\<rparr>) else (Inl RateLimited, b))"
  using assms by (simp add: evaluate_bucket_def Let_def)

lemma write_bucket_lookup:
  assumes "lru_map (ins_counts_v4 K)" and "\<And>m v. ins_counts_v4 K m key v \<noteq> None"
  shows "map_of (PACKET_COUNTS_V4 (write_bucket K key bucket m)) key = Some bucket"
  using lru_map.put_lookup [OF assms(1), of "PACKET_COUNTS_V4 m" key bucket] assms(2)
  by (simp add: write_bucket_def)

lemma read_at_once:
  assumes "map_of (PACKET_COUNTS_V4 m) key = Some b" and "0 < tokens b" and "no_refill p b ts"
  shows "fold (cpu_step K p key) (map (\<lambda>(i, t). Read i t) (enumerate n ts)) (m, held, out) =
    (m, \<lambda>i. if n \<le> i \<and> i < n + length ts then Some (b\<lparr>tokens := tokens b - 1\<rparr>) else held i,
     out @ replicate (length ts) (Inr XDP_PASS))"
  using assms(3)
proof (induction ts arbitrary: n held out)
  case Nil
  show ?case by (auto simp: fun_eq_iff)
next
  case (Cons t ts)
  then have "read_bucket p key t m = (Inr XDP_PASS, b\<lparr>tokens := tokens b - 1\<rparr>)"
    using assms(1,2) by (simp add: read_bucket_def flow_bucket_def evaluate_no_refill no_refill_def)
  moreover have "no_refill p b ts" using Cons.prems by (simp add: no_refill_def)
  ultimately show ?case
    by (simp add: Cons.IH) (auto simp: fun_eq_iff)
qed

lemma write_at_once:
  assumes "lru_map (ins_counts_v4 K)" and "\<And>m v. ins_counts_v4 K m key v \<noteq> None"
    and "\<forall>i \<in> set is. held i = Some bucket" and "distinct is" and "is \<noteq> []"
  shows "\<exists>m' held'. fold (cpu_step K p key) (map Write is) (m, held, out) = (m', held', out) \<and>
    map_of (PACKET_COUNTS_V4 m') key = Some bucket"
  using assms(3-5)
proof (induction "is" arbitrary: m held)
  case (Cons i "is")
  have step: "cpu_step K p key (Write i) (m, held, out) = (write_bucket K key bucket m, held(i := None), out)"
    using Cons.prems(1) by simp
  show ?case
  proof (cases "is = []")
    case True
    have "map_of (PACKET_COUNTS_V4 (write_bucket K key bucket m)) key = Some bucket"
      by (rule write_bucket_lookup [OF assms(1,2)])
    with True step show ?thesis by simp
  next
    case False
    have "\<forall>j \<in> set is. (held(i := None)) j = Some bucket" using Cons.prems(1,2) by auto
    from Cons.IH [OF this _ False, of "write_bucket K key bucket m"] Cons.prems(2) show ?thesis
      by (simp only: list.map fold_simps step distinct.simps simp_thms)
  qed
qed simp

lemma turn_step:
  assumes "read_bucket p key t m = (r, bucket)"
  shows "fold (cpu_step K p key) (in_turn (t # ts)) (m, held, out) =
    fold (cpu_step K p key) (in_turn ts) (write_bucket K key bucket m, held(0 := None), out @ [r])"
  using assms by (simp add: in_turn_def)

lemma run_in_turn:
  assumes "lru_map (ins_counts_v4 K)" and "\<And>m v. ins_counts_v4 K m key v \<noteq> None"
    and "map_of (PACKET_COUNTS_V4 m) key = Some b" and "no_refill p b ts"
  shows "snd (snd (fold (cpu_step K p key) (in_turn ts) (m, held, out))) =
    out @ replicate (min (unat (tokens b)) (length ts)) (Inr XDP_PASS) @
       replicate (length ts - unat (tokens b)) (Inl RateLimited)"
  using assms(3,4)
proof (induction ts arbitrary: m b held out)
  case (Cons t ts)
  let ?b = "snd (evaluate_bucket b p t)"
  have e: "evaluate_bucket b p t =
      (if 0 < tokens b then (Inr XDP_PASS, b\<lparr>tokens := tokens b - 1\<rparr>) else (Inl RateLimited, b))"
    using Cons.prems(2) by (simp add: evaluate_no_refill no_refill_def)
  have r: "read_bucket p key t m = (fst (evaluate_bucket b p t), ?b)"
    using Cons.prems(1) by (simp add: read_bucket_def flow_bucket_def)
  have w: "map_of (PACKET_COUNTS_V4 (write_bucket K key ?b m)) key = Some ?b"
    by (rule write_bucket_lookup [OF assms(1,2)])
  have "no_refill p ?b ts" using Cons.prems(2) by (simp add: e no_refill_def)
  note IH = Cons.IH [OF w this]
  show ?case
  proof (cases "0 < tokens b")
    case True
    then have "unat (tokens b) \<noteq> 0" by (simp add: word_less_nat_alt)
    then obtain k where k: "unat (tokens b) = Suc k" using not0_implies_Suc by blast
    then have "unat (tokens b - 1) = k" using unat_dec [OF True] by simp
    with True k show ?thesis by (simp only: turn_step [OF r] IH) (simp add: e)
  next
    case False
    then have "tokens b = 0" using word_neq_0_conv by blast
    then show ?thesis by (simp only: turn_step [OF r] IH) (simp add: e)
  qed
qed (simp add: in_turn_def)

text \<open>
  C18: The limit of a flow does not hold across processors. While no token comes back, packets that
  are handled one after the other pass while the bucket has tokens and are refused from then on; the
  same packets on as many processors all pass when each reads the bucket before the first writes it,
  however many they are, and together they cost a single token.
\<close>

theorem bucket_is_not_atomic:
  assumes "lru_map (ins_counts_v4 K)" and "\<And>m v. ins_counts_v4 K m key v \<noteq> None"
    and "map_of (PACKET_COUNTS_V4 m) key = Some b" and "0 < tokens b"
    and "no_refill p b ts" and "ts \<noteq> []"
  shows "snd (snd (fold (cpu_step K p key) (in_turn ts) (m, held, []))) =
      replicate (min (unat (tokens b)) (length ts)) (Inr XDP_PASS) @
      replicate (length ts - unat (tokens b)) (Inl RateLimited) \<and>
    (\<exists>m' held'. fold (cpu_step K p key) (at_once ts) (m, held, []) =
        (m', held', replicate (length ts) (Inr XDP_PASS)) \<and>
      map_of (PACKET_COUNTS_V4 m') key = Some (b\<lparr>tokens := tokens b - 1\<rparr>))"
proof
  show "snd (snd (fold (cpu_step K p key) (in_turn ts) (m, held, []))) =
      replicate (min (unat (tokens b)) (length ts)) (Inr XDP_PASS) @
      replicate (length ts - unat (tokens b)) (Inl RateLimited)"
    using run_in_turn [OF assms(1,2,3,5)] by simp
  let ?held = "\<lambda>i. if 0 \<le> i \<and> i < 0 + length ts then Some (b\<lparr>tokens := tokens b - 1\<rparr>) else held i"
  have "\<forall>i \<in> set [0..<length ts]. ?held i = Some (b\<lparr>tokens := tokens b - 1\<rparr>)" by simp
  from write_at_once [OF assms(1,2) this distinct_upt]
  show "\<exists>m' held'. fold (cpu_step K p key) (at_once ts) (m, held, []) =
        (m', held', replicate (length ts) (Inr XDP_PASS)) \<and>
      map_of (PACKET_COUNTS_V4 m') key = Some (b\<lparr>tokens := tokens b - 1\<rparr>)"
    using assms(6) by (simp only: at_once_def fold_append comp_apply read_at_once [OF assms(3-5)]) simp
qed

definition last_token :: maps where
  "last_token = sample_maps\<lparr>PACKET_COUNTS_V4 := [(sample_key4, \<lparr>tokens = 1, last_update = 4\<rparr>)]\<rparr>"

theorem bucket_is_not_atomic_witness:
  "snd (snd (fold (cpu_step ref_kern \<lparr>rate_shift = 20, burst = 2\<rparr> sample_key4) (in_turn [5, 6, 7])
      (last_token, \<lambda>_. None, []))) = [Inr XDP_PASS, Inl RateLimited, Inl RateLimited] \<and>
   snd (snd (fold (cpu_step ref_kern \<lparr>rate_shift = 20, burst = 2\<rparr> sample_key4) (at_once [5, 6, 7])
      (last_token, \<lambda>_. None, []))) = [Inr XDP_PASS, Inr XDP_PASS, Inr XDP_PASS]"
proof -
  let ?b = "\<lparr>tokens = 1, last_update = 4\<rparr> :: token_bucket_state"
  have *: "lru_map (ins_counts_v4 ref_kern)" "\<And>m v. ins_counts_v4 ref_kern m sample_key4 v \<noteq> None"
    "map_of (PACKET_COUNTS_V4 last_token) sample_key4 = Some ?b" "0 < tokens ?b"
    "no_refill \<lparr>rate_shift = 20, burst = 2\<rparr> ?b [5, 6, 7]" "[5, 6, 7 :: u64] \<noteq> []"
    by (simp_all add: lru_map_lru_put lru_put_def no_refill_def saturating_sub_def last_token_def)
  show ?thesis
    using bucket_is_not_atomic [OF *, of "\<lambda>_. None"] by (auto simp: numeral_eq_Suc)
qed

end
