(* ===== verification/Bootstrap_Race.thy ===== *)
theory Bootstrap_Race
  imports Server
begin

text \<open>
  Accounts created at the same time (\<open>bootstrap_default_admin\<close>, \<open>create_default_admin\<close> and
  \<open>create_user\<close> of oxidrop/src/db.rs). The bootstrap counts the users, writes two log entries and
  inserts the administrator in four statements; other tasks and processes on the same database run
  between them. Here every statement is a step of its own, taken by any number of bootstraps in any
  order; the unique name makes the last of them harmless. A creation is a single statement, so
  creations at the same time are creations in some order.
\<close>

section \<open>The bootstrap in its statements\<close>

datatype bootstrap_task = CountRows | LogEmpty | LogPassword | InsertAdmin | Returned "(user_error, unit) result"

fun bootstrap_step ::
    "services \<Rightarrow> sql_faults \<Rightarrow> string \<Rightarrow> int \<Rightarrow> bootstrap_task \<Rightarrow> database \<Rightarrow> bootstrap_task \<times> database" where
  "bootstrap_step S flt salt now CountRows d =
     (if flt CountUsers then (Returned (Inl (Database SqlFailed)), d)
      else if length (users d) = 0 then (LogEmpty, d) else (Returned (Inr ()), d))"
| "bootstrap_step S flt salt now LogEmpty d =
     (LogPassword, snd (record_log S flt now ''WARN'' ''Database empty; bootstrapping default admin''
                          (Some ''system'') d))"
| "bootstrap_step S flt salt now LogPassword d =
     (InsertAdmin, snd (record_log S flt now ''WARN'' ''Temporary default admin password was generated''
                          (Some ''system'') d))"
| "bootstrap_step S flt salt now InsertAdmin d =
     (case internal_insert_user S flt salt DEFAULT_ADMIN_USERNAME DEFAULT_ADMIN_PASSWORD Admin
             permissions_all 1 True d of
        (Inr _, d') \<Rightarrow> (Returned (Inr ()), d')
      | (Inl (UserExists _), d') \<Rightarrow> (Returned (Inr ()), d')
      | (Inl e, d') \<Rightarrow> (Returned (Inl e), d'))"
| "bootstrap_step S flt salt now (Returned r) d = (Returned r, d)"

text \<open>Task \<open>i\<close> draws its own salt; a schedule says whose turn it is.\<close>

definition bootstrap_turn ::
    "services \<Rightarrow> sql_faults \<Rightarrow> (nat \<Rightarrow> string) \<Rightarrow> int \<Rightarrow> nat \<Rightarrow>
     (nat \<Rightarrow> bootstrap_task) \<times> database \<Rightarrow> (nat \<Rightarrow> bootstrap_task) \<times> database" where
  "bootstrap_turn S flt salts now i = (\<lambda>(tasks, d).
     case bootstrap_step S flt (salts i) now (tasks i) d of (t, d') \<Rightarrow> (tasks(i := t), d'))"

definition run_bootstraps ::
    "services \<Rightarrow> sql_faults \<Rightarrow> (nat \<Rightarrow> string) \<Rightarrow> int \<Rightarrow> nat list \<Rightarrow> database \<Rightarrow>
     (nat \<Rightarrow> bootstrap_task) \<times> database" where
  "run_bootstraps S flt salts now schedule d =
     fold (bootstrap_turn S flt salts now) schedule (\<lambda>_. CountRows, d)"

text \<open>Undisturbed, the four statements are the operation.\<close>

lemma bootstrap_alone:
  "run_bootstraps S flt salts now [0, 0, 0, 0] d =
    (case bootstrap_default_admin S flt (salts 0) now d of (r, d') \<Rightarrow> ((\<lambda>_. CountRows)(0 := Returned r), d'))"
  by (auto simp: run_bootstraps_def bootstrap_turn_def bootstrap_default_admin_def create_default_admin_def
      Let_def split: prod.split sum.split user_error.split)

fun phase :: "bootstrap_task \<Rightarrow> nat" where
  "phase CountRows = 0"
| "phase LogEmpty = 1"
| "phase LogPassword = 2"
| "phase InsertAdmin = 3"
| "phase (Returned _) = 4"

lemma phase_4: "4 \<le> phase t \<longleftrightarrow> (\<exists>r. t = Returned r)"
  by (cases t) auto

lemma bootstrap_step_phase: "bootstrap_step S flt salt now t d = (t', d') \<Longrightarrow> min 4 (Suc (phase t)) \<le> phase t'"
  by (cases t) (auto split: if_splits prod.splits sum.splits user_error.splits)

definition default_admin_row :: "user_row \<Rightarrow> bool" where
  "default_admin_row u \<longleftrightarrow> u_username u = DEFAULT_ADMIN_USERNAME \<and> u_role u = ''admin'' \<and>
     u_action_permissions u = 7 \<and> u_password_must_be_changed u = 1 \<and> u_is_active u = 1"

text \<open>What holds at any time: no user yet, or the administrator.\<close>

definition bootstrapped :: "user_row list \<Rightarrow> bool" where
  "bootstrapped us \<longleftrightarrow> (\<exists>u. us = [u] \<and> default_admin_row u)"

lemma insert_admin:
  assumes "argon_hash S salt DEFAULT_ADMIN_PASSWORD = Inr h" and "\<not> flt InsertUser"
    and "users d = [] \<or> bootstrapped (users d)"
  shows "\<exists>d'. bootstrap_step S flt salt now InsertAdmin d = (Returned (Inr ()), d') \<and> bootstrapped (users d')"
  using assms
  by (auto simp: internal_insert_user_def hash_password_def insert_user_row_def user_check_def
      permissions_all_eq bootstrapped_def default_admin_row_def)

lemma bootstrap_step_inv:
  assumes "argon_hash S salt DEFAULT_ADMIN_PASSWORD = Inr h" and "\<not> flt CountUsers" and "\<not> flt InsertUser"
    and "users d = [] \<or> bootstrapped (users d)" and "\<And>r. t = Returned r \<Longrightarrow> r = Inr () \<and> bootstrapped (users d)"
    and "bootstrap_step S flt salt now t d = (t', d')"
  shows "(users d' = [] \<or> bootstrapped (users d')) \<and> (bootstrapped (users d) \<longrightarrow> bootstrapped (users d')) \<and>
    (\<forall>r. t' = Returned r \<longrightarrow> r = Inr () \<and> bootstrapped (users d'))"
proof (cases t)
  case InsertAdmin
  with insert_admin [of S salt h flt d now] assms show ?thesis by auto
qed (use assms in \<open>auto split: if_splits\<close>)

lemma run_bootstraps_inv:
  assumes "\<And>salt. \<exists>h. argon_hash S salt DEFAULT_ADMIN_PASSWORD = Inr h"
    and "\<not> flt CountUsers" and "\<not> flt InsertUser" and "users d = []"
    and "run_bootstraps S flt salts now schedule d = (tasks, d')"
  shows "(users d' = [] \<or> bootstrapped (users d')) \<and>
    (\<forall>i r. tasks i = Returned r \<longrightarrow> r = Inr () \<and> bootstrapped (users d')) \<and>
    (\<forall>i. min 4 (count_list schedule i) \<le> phase (tasks i))"
  using assms(5)
proof (induction schedule arbitrary: tasks d' rule: rev_induct)
  case Nil
  then show ?case using assms(4) by (auto simp: run_bootstraps_def)
next
  case (snoc i schedule)
  obtain ts d1 where r: "run_bootstraps S flt salts now schedule d = (ts, d1)" by fastforce
  obtain t d2 where t: "bootstrap_step S flt (salts i) now (ts i) d1 = (t, d2)" by fastforce
  have tasks: "tasks = ts(i := t)" "d' = d2"
    using snoc.prems r t by (simp_all add: run_bootstraps_def bootstrap_turn_def)
  obtain h where h: "argon_hash S (salts i) DEFAULT_ADMIN_PASSWORD = Inr h" using assms(1) by blast
  note IH = snoc.IH [OF r]
  have inv: "users d1 = [] \<or> bootstrapped (users d1)"
    and ret: "\<And>r. ts i = Returned r \<Longrightarrow> r = Inr () \<and> bootstrapped (users d1)" using IH by blast+
  from bootstrap_step_inv [OF h assms(2,3) inv ret t]
  have step: "users d2 = [] \<or> bootstrapped (users d2)" "bootstrapped (users d1) \<Longrightarrow> bootstrapped (users d2)"
    "\<And>r. t = Returned r \<Longrightarrow> r = Inr () \<and> bootstrapped (users d2)" by blast+
  have "min 4 (count_list (schedule @ [i]) j) \<le> phase (tasks j)" for j
    using IH bootstrap_step_phase [OF t] by (cases "j = i") (auto simp: tasks dest!: spec [of _ j])
  moreover have "r = Inr () \<and> bootstrapped (users d2)" if "tasks j = Returned r" for j r
    using that IH step(2,3) by (cases "j = i") (auto simp: tasks)
  ultimately show ?case using step(1) by (auto simp: tasks(2))
qed

section \<open>Creations at the same time\<close>

text \<open>The same account, requested by several tasks, each with its own salt, in the order of their statements.\<close>

fun create_all ::
    "services \<Rightarrow> sql_faults \<Rightarrow> caller_context \<Rightarrow> string \<Rightarrow> string \<Rightarrow> roles_user \<Rightarrow> u8 \<Rightarrow> bool \<Rightarrow> string list \<Rightarrow>
     database \<Rightarrow> (user_error, unit) result list \<times> database" where
  "create_all S flt caller name pw role perms must [] d = ([], d)"
| "create_all S flt caller name pw role perms must (salt # salts) d =
     (case create_user S flt salt caller name pw role perms must d of
        (r, d1) \<Rightarrow> (case create_all S flt caller name pw role perms must salts d1 of (rs, d2) \<Rightarrow> (r # rs, d2)))"

lemma create_taken:
  assumes "may caller CREATE" and "validate_password pw = Inr ()" and "argon_hash S salt pw = Inr h"
    and "\<not> flt InsertUser" and "uint perms \<le> 7" and "name \<in> u_username ` set (users d)"
  shows "create_user S flt salt caller name pw role perms must d = (Inl (UserExists name), d)"
  using assms by (cases role) (auto simp: create_user_def internal_insert_user_def hash_password_def
      insert_user_row_def user_check_def)

lemma create_free:
  assumes "may caller CREATE" and "validate_password pw = Inr ()" and "argon_hash S salt pw = Inr h"
    and "\<not> flt InsertUser" and "uint perms \<le> 7" and "name \<notin> u_username ` set (users d)"
  shows "\<exists>d'. create_user S flt salt caller name pw role perms must d = (Inr (), d') \<and>
    length (users d') = Suc (length (users d)) \<and> name \<in> u_username ` set (users d')"
  using assms by (cases role) (auto simp: create_user_def internal_insert_user_def hash_password_def
      insert_user_row_def user_check_def)

lemma create_all_taken:
  assumes "may caller CREATE" and "validate_password pw = Inr ()" and "\<And>salt. \<exists>h. argon_hash S salt pw = Inr h"
    and "\<not> flt InsertUser" and "uint perms \<le> 7" and "name \<in> u_username ` set (users d)"
  shows "create_all S flt caller name pw role perms must salts d =
    (replicate (length salts) (Inl (UserExists name)), d)"
proof (induction salts)
  case (Cons salt salts)
  obtain h where h: "argon_hash S salt pw = Inr h" using assms(3) by blast
  have "create_user S flt salt caller name pw role perms must d = (Inl (UserExists name), d)"
    by (rule create_taken [OF assms(1,2) h]) (use assms(4-6) in simp_all)
  with Cons show ?case by simp
qed simp

lemma create_all_free:
  assumes "may caller CREATE" and "validate_password pw = Inr ()" and "\<And>salt. \<exists>h. argon_hash S salt pw = Inr h"
    and "\<not> flt InsertUser" and "uint perms \<le> 7" and "name \<notin> u_username ` set (users d)" and "salts \<noteq> []"
  shows "\<exists>d'. create_all S flt caller name pw role perms must salts d =
      (Inr () # replicate (length salts - 1) (Inl (UserExists name)), d') \<and>
    length (users d') = Suc (length (users d))"
proof -
  obtain salt rest where salts: "salts = salt # rest" using assms(7) by (cases salts) auto
  obtain h where h: "argon_hash S salt pw = Inr h" using assms(3) by blast
  have "\<exists>d1. create_user S flt salt caller name pw role perms must d = (Inr (), d1) \<and>
      length (users d1) = Suc (length (users d)) \<and> name \<in> u_username ` set (users d1)"
    by (rule create_free [OF assms(1,2) h]) (use assms(4-6) in simp_all)
  then obtain d1 where d1: "create_user S flt salt caller name pw role perms must d = (Inr (), d1)"
    "length (users d1) = Suc (length (users d))" "name \<in> u_username ` set (users d1)" by blast
  have "create_all S flt caller name pw role perms must rest d1 =
      (replicate (length rest) (Inl (UserExists name)), d1)"
    by (rule create_all_taken) (use assms(1-5) d1(3) in simp_all)
  with d1(1,2) show ?thesis by (simp add: salts)
qed

section \<open>Properties\<close>

text \<open>
  C36: Any number of bootstraps on an empty database, their statements interleaved in any order, end in
  one administrator: at no time is there another account, every bootstrap that returns has succeeded
  and finds the administrator there, and each returns after at most four steps of its own.
\<close>

theorem concurrent_bootstraps:
  assumes "\<And>salt. \<exists>h. argon_hash S salt DEFAULT_ADMIN_PASSWORD = Inr h"
    and "\<not> flt CountUsers" and "\<not> flt InsertUser" and "users d = []"
    and "run_bootstraps S flt salts now schedule d = (tasks, d')"
  shows "(users d' = [] \<or> bootstrapped (users d')) \<and>
    (\<forall>i r. tasks i = Returned r \<longrightarrow> r = Inr () \<and> bootstrapped (users d')) \<and>
    (\<forall>i. 4 \<le> count_list schedule i \<longrightarrow> (\<exists>r. tasks i = Returned r))"
proof -
  note inv = run_bootstraps_inv [OF assms]
  have "\<exists>r. tasks i = Returned r" if "4 \<le> count_list schedule i" for i
    using inv that phase_4 [of "tasks i"] by (auto dest!: spec [of _ i])
  with inv show ?thesis by blast
qed

theorem concurrent_bootstraps_witness:
  "bootstrapped (users (snd (run_bootstraps ref_services no_faults (\<lambda>_. ''s'') 5 [0, 1, 2, 0, 2, 1, 1, 0, 0, 2]
     empty_database)))"
proof -
  obtain tasks d' where r: "run_bootstraps ref_services no_faults (\<lambda>_. ''s'') 5 [0, 1, 2, 0, 2, 1, 1, 0, 0, 2]
      empty_database = (tasks, d')" by fastforce
  have "\<exists>h. argon_hash ref_services salt DEFAULT_ADMIN_PASSWORD = Inr h" for salt
    by (simp add: ref_services_def)
  from concurrent_bootstraps [OF this _ _ _ r] have *: "\<forall>i r. tasks i = Returned r \<longrightarrow> bootstrapped (users d')"
    "4 \<le> count_list [0, 1, 2, 0, 2, 1, 1, 0, 0, 2 :: nat] 0 \<longrightarrow> (\<exists>r. tasks 0 = Returned r)"
    by (simp_all add: empty_database_def)
  then obtain r' where "tasks 0 = Returned r'" by auto
  with *(1) have "bootstrapped (users d')" by blast
  then show ?thesis by (simp only: r snd_conv)
qed

text \<open>
  Of any number of creations of the same free name, one is answered with success, the first, and every
  other with the error that says so; the database has one account more.
\<close>

theorem one_creation_succeeds:
  assumes "may caller CREATE" and "validate_password pw = Inr ()" and "\<And>salt. \<exists>h. argon_hash S salt pw = Inr h"
    and "\<not> flt InsertUser" and "uint perms \<le> 7" and "name \<notin> u_username ` set (users d)" and "salts \<noteq> []"
  shows "\<exists>d'. create_all S flt caller name pw role perms must salts d =
      (Inr () # replicate (length salts - 1) (Inl (UserExists name)), d') \<and>
    length (users d') = Suc (length (users d))"
  by (rule create_all_free) (use assms in simp_all)

theorem one_creation_succeeds_witness:
  "fst (create_all ref_services no_faults \<lparr>caller_role = Admin, caller_permissions = 7\<rparr> ''eve''
     ''correct horse battery'' Viewer 0 True [''a'', ''b'', ''c''] empty_database) =
   [Inr (), Inl (UserExists ''eve''), Inl (UserExists ''eve'')]"
proof -
  have "\<exists>h. argon_hash ref_services salt ''correct horse battery'' = Inr h" for salt
    by (simp add: ref_services_def)
  moreover have "may \<lparr>caller_role = Admin, caller_permissions = 7\<rparr> CREATE"
    by (simp add: may_def flags_contains_def CREATE_def)
  moreover have "validate_password ''correct horse battery'' = Inr ()" by code_simp
  ultimately show ?thesis
    using one_creation_succeeds [of "\<lparr>caller_role = Admin, caller_permissions = 7\<rparr>" "''correct horse battery''"
        ref_services no_faults 0 "''eve''" empty_database "[''a'', ''b'', ''c'']" Viewer True]
    by (auto simp: empty_database_def numeral_eq_Suc)
qed

end
