(* ===== verification/Config_Locks.thy ===== *)
theory Config_Locks
  imports Config_Handlers Status_Handlers
begin

text \<open>
  The configuration endpoints at the same time (\<open>update_config\<close>, \<open>shutdown_ebpf\<close>,
  \<open>restart_ebpf\<close>, \<open>get_config\<close> of oxidrop/src/state.rs and \<open>get_ebpf_adapters\<close> of
  oxidrop/src/ebpf.rs). A change takes the lock of the configuration map, then perhaps the lock of
  the eBPF handle, and awaits the database and the log with them held; the status request takes the
  second lock alone. Here every statement between two awaits is a step of its own, requests take
  steps in any order, and a request that waits for a held lock stays where it is. Whatever the order,
  the requests are answered as if they had run one after the other, and they never deadlock.
\<close>

section \<open>The requests in their statements\<close>

datatype config_request = UpdateRequest config_patch | ShutdownRequest | RestartRequest | ReadRequest | AdaptersRequest

record config_job =
  j_env :: env
  j_request :: config_request
  j_session :: "app_user option"

text \<open>
  Where a request is. The user is the caller, the configuration the handler's \<open>cfg\<close>, the
  string the error the handler is about to report.
\<close>

datatype config_pc =
    Arrived
  | WantConfig app_user
  | WantRead
  | WantAdapters
  | ReadAdapters
  | ReadConfig app_user
  | WantEbpf app_user firewall_config
  | UseEbpf app_user firewall_config
  | LogAttached app_user firewall_config ebpf_programm
  | ClearLive app_user firewall_config string
  | ClearRow app_user firewall_config string
  | LogFailure app_user string string
  | SetLive app_user firewall_config
  | SaveRow app_user firewall_config
  | LogDone app_user firewall_config
  | Answered response

text \<open>Before the first lock: the guards and the validation of the patch.\<close>

definition arrive :: "config_job \<Rightarrow> server \<Rightarrow> config_pc" where
  "arrive j s =
     (case j_request j of
        UpdateRequest patch \<Rightarrow>
          (case j_session j of
             None \<Rightarrow> Answered (S_UNAUTHORIZED, NoBody)
           | Some u \<Rightarrow>
               if may (caller_of u) MODIFY then
                 (case patch_validate patch of
                    Inl msg \<Rightarrow> Answered (S_BAD_REQUEST, Text msg)
                  | Inr _ \<Rightarrow> WantConfig u)
               else Answered (S_UNAUTHORIZED, NoBody))
      | ReadRequest \<Rightarrow> WantRead
      | AdaptersRequest \<Rightarrow>
          if j_session j = None \<or> s_ebpf s = None
          then Answered (get_ebpf_adapters (j_env j) (j_session j) s) else WantAdapters
      | _ \<Rightarrow>
          (case authorized_ebpf_action s (j_session j) of
             Inl status \<Rightarrow> Answered (status, NoBody)
           | Inr u \<Rightarrow> WantConfig u))"

text \<open>With the configuration read: an update patches it, and needs the eBPF handle for new adapters only.\<close>

definition got_config :: "config_job \<Rightarrow> app_user \<Rightarrow> server \<Rightarrow> config_pc" where
  "got_config j u s =
     (case (j_request j, config_get (j_env j) s) of
        (UpdateRequest patch, None) \<Rightarrow>
          Answered (S_INTERNAL_SERVER_ERROR, Text ''CONFIG map not initialized'')
      | (UpdateRequest patch, Some cfg) \<Rightarrow>
          if (p_incoming_ethernet_adapter patch \<noteq> None \<or> p_output_ethernet_adapter patch \<noteq> None) \<and>
             s_ebpf s \<noteq> None
          then WantEbpf u (patch_apply patch cfg) else SetLive u (patch_apply patch cfg)
      | (_, None) \<Rightarrow> Answered (S_INTERNAL_SERVER_ERROR, Text ''CONFIG map unavailable'')
      | (_, Some cfg) \<Rightarrow> WantEbpf u cfg)"

text \<open>
  With the handle locked. A request gets here only when there is a handle, so the first case never
  happens; it answers as the handlers of \<open>Config_Handlers\<close> do.
\<close>

definition use_ebpf :: "config_job \<Rightarrow> app_user \<Rightarrow> firewall_config \<Rightarrow> server \<Rightarrow> config_pc \<times> server" where
  "use_ebpf j u cfg s =
     (case s_ebpf s of
        None \<Rightarrow>
          (case j_request j of
             UpdateRequest patch \<Rightarrow> (SetLive u cfg, s)
           | _ \<Rightarrow> (Answered (S_INTERNAL_SERVER_ERROR, Text ''CONFIG map unavailable''), s))
      | Some e \<Rightarrow>
          (case j_request j of
             UpdateRequest patch \<Rightarrow>
               (case reboot (e_xdp_ok (j_env j)) (e_attach (j_env j)) cfg e of
                  (Inl error, e') \<Rightarrow> (ClearLive u (no_adapters cfg) error, s\<lparr>s_ebpf := Some e'\<rparr>)
                | (Inr _, e') \<Rightarrow> (LogAttached u cfg e', s\<lparr>s_ebpf := Some e'\<rparr>))
           | RestartRequest \<Rightarrow>
               if incoming_ethernet_adapter cfg = None \<and> output_ethernet_adapter cfg = None
               then (Answered (S_NO_CONTENT, NoBody), s)
               else (case reboot (e_xdp_ok (j_env j)) (e_attach (j_env j)) cfg e of
                  (Inl error, e') \<Rightarrow>
                    (LogFailure u (''eBPF restart failed: '' @ error) ''Failed to restart eBPF'', s\<lparr>s_ebpf := Some e'\<rparr>)
                | (Inr _, e') \<Rightarrow> (LogDone u cfg, s\<lparr>s_ebpf := Some e'\<rparr>))
           | _ \<Rightarrow>
               (case shut_down_working_ebpf (e_xdp_ok (j_env j)) e of
                  (Inl error, e') \<Rightarrow>
                    (LogFailure u (''eBPF shutdown failed: '' @ error) ''Failed to shut down eBPF'', s\<lparr>s_ebpf := Some e'\<rparr>)
                | (Inr _, e') \<Rightarrow> (SetLive u (no_adapters cfg), s\<lparr>s_ebpf := Some e'\<rparr>))))"

text \<open>What the three changes say at their end.\<close>

fun set_failure :: "config_request \<Rightarrow> string" where
  "set_failure (UpdateRequest _) = ''Failed to update CONFIG map''"
| "set_failure _ = ''Failed to clear eBPF adapter configuration''"

fun save_failure :: "config_request \<Rightarrow> string" where
  "save_failure (UpdateRequest _) = ''Failed to persist firewall configuration''"
| "save_failure _ = ''Failed to persist eBPF adapter configuration''"

fun done_message :: "config_request \<Rightarrow> string" where
  "done_message (UpdateRequest _) = ''Firewall configuration updated''"
| "done_message RestartRequest = ''eBPF program restarted''"
| "done_message _ = ''eBPF program shut down''"

fun done_response :: "config_request \<Rightarrow> firewall_config \<Rightarrow> response" where
  "done_response (UpdateRequest _) cfg = (S_OK, ConfigJson cfg)"
| "done_response _ cfg = (S_NO_CONTENT, NoBody)"

fun job_step :: "config_job \<Rightarrow> config_pc \<Rightarrow> server \<Rightarrow> config_pc \<times> server" where
  "job_step j Arrived s = (arrive j s, s)"
| "job_step j (WantConfig u) s = (ReadConfig u, s)"
| "job_step j WantRead s = (Answered (get_config (j_env j) s), s)"
| "job_step j WantAdapters s = (ReadAdapters, s)"
| "job_step j ReadAdapters s = (Answered (get_ebpf_adapters (j_env j) (j_session j) s), s)"
| "job_step j (ReadConfig u) s = (got_config j u s, s)"
| "job_step j (WantEbpf u cfg) s = (UseEbpf u cfg, s)"
| "job_step j (UseEbpf u cfg) s = use_ebpf j u cfg s"
| "job_step j (LogAttached u cfg e) s =
     (SetLive u cfg, log_event (j_env j) ''INFO'' (attachment_message e) (Some (au_username u)) s)"
| "job_step j (ClearLive u cfg error) s = (ClearRow u cfg error, try_config_set (j_env j) cfg s)"
| "job_step j (ClearRow u cfg error) s =
     (LogFailure u (''Failed to attach eBPF adapters: '' @ error)
        ''Failed to attach eBPF program to the selected adapters'', snd (save_config (j_env j) cfg s))"
| "job_step j (LogFailure u message answer) s =
     (Answered (S_INTERNAL_SERVER_ERROR, Text answer),
      log_event (j_env j) ''ERROR'' message (Some (au_username u)) s)"
| "job_step j (SetLive u cfg) s =
     (case config_set (j_env j) cfg s of
        None \<Rightarrow> (Answered (S_INTERNAL_SERVER_ERROR, Text (set_failure (j_request j))), s)
      | Some s' \<Rightarrow> (SaveRow u cfg, s'))"
| "job_step j (SaveRow u cfg) s =
     (case save_config (j_env j) cfg s of
        (Inl _, s') \<Rightarrow> (Answered (S_INTERNAL_SERVER_ERROR, Text (save_failure (j_request j))), s')
      | (Inr _, s') \<Rightarrow> (LogDone u cfg, s'))"
| "job_step j (LogDone u cfg) s =
     (Answered (done_response (j_request j) cfg),
      log_event (j_env j) ''INFO'' (done_message (j_request j)) (Some (au_username u)) s)"
| "job_step j (Answered r) s = (Answered r, s)"

section \<open>The locks\<close>

text \<open>
  Every change holds the configuration to its end. An update releases the eBPF handle with the
  block that used it; a shutdown and a restart keep it.
\<close>

fun holds_config :: "config_pc \<Rightarrow> bool" where
  "holds_config Arrived = False"
| "holds_config (WantConfig _) = False"
| "holds_config WantRead = False"
| "holds_config WantAdapters = False"
| "holds_config ReadAdapters = False"
| "holds_config (Answered _) = False"
| "holds_config _ = True"

fun is_update :: "config_request \<Rightarrow> bool" where
  "is_update (UpdateRequest _) = True"
| "is_update _ = False"

fun holds_ebpf :: "config_job \<Rightarrow> config_pc \<Rightarrow> bool" where
  "holds_ebpf j ReadAdapters = True"
| "holds_ebpf j (UseEbpf _ _) = True"
| "holds_ebpf j (LogAttached _ _ _) = True"
| "holds_ebpf j (ClearLive _ _ _) = True"
| "holds_ebpf j (ClearRow _ _ _) = True"
| "holds_ebpf j (LogFailure _ _ _) = True"
| "holds_ebpf j (SetLive _ _) = (\<not> is_update (j_request j))"
| "holds_ebpf j (SaveRow _ _) = (\<not> is_update (j_request j))"
| "holds_ebpf j (LogDone _ _) = (\<not> is_update (j_request j))"
| "holds_ebpf j _ = False"

text \<open>Which lock the next statement takes, and whether another request has it.\<close>

fun blocked :: "config_job list \<Rightarrow> config_pc list \<Rightarrow> config_pc \<Rightarrow> bool" where
  "blocked jobs pcs (WantConfig _) = list_ex holds_config pcs"
| "blocked jobs pcs WantRead = list_ex holds_config pcs"
| "blocked jobs pcs WantAdapters = list_ex (\<lambda>(j, pc). holds_ebpf j pc) (zip jobs pcs)"
| "blocked jobs pcs (WantEbpf _ _) = list_ex (\<lambda>(j, pc). holds_ebpf j pc) (zip jobs pcs)"
| "blocked jobs pcs _ = False"

text \<open>The turn of request \<open>i\<close>: nothing when it is blocked, its next statement otherwise.\<close>

definition turn :: "config_job list \<Rightarrow> nat \<Rightarrow> config_pc list \<times> server \<Rightarrow> config_pc list \<times> server" where
  "turn jobs i = (\<lambda>(pcs, s).
     if length pcs \<le> i \<or> blocked jobs pcs (pcs ! i) then (pcs, s)
     else case job_step (jobs ! i) (pcs ! i) s of (pc, s') \<Rightarrow> (pcs[i := pc], s'))"

definition run_jobs :: "config_job list \<Rightarrow> nat list \<Rightarrow> server \<Rightarrow> config_pc list \<times> server" where
  "run_jobs jobs schedule s = fold (turn jobs) schedule (replicate (length jobs) Arrived, s)"

text \<open>The same requests one after the other, each run whole by its handler.\<close>

definition handle_whole :: "config_job \<Rightarrow> server \<Rightarrow> response \<times> server" where
  "handle_whole j s =
     (case j_request j of
        UpdateRequest patch \<Rightarrow> update_config (j_env j) patch (j_session j) s
      | ShutdownRequest \<Rightarrow> shutdown_ebpf (j_env j) (j_session j) s
      | RestartRequest \<Rightarrow> restart_ebpf (j_env j) (j_session j) s
      | ReadRequest \<Rightarrow> (get_config (j_env j) s, s)
      | AdaptersRequest \<Rightarrow> (get_ebpf_adapters (j_env j) (j_session j) s, s))"

fun one_by_one :: "config_job list \<Rightarrow> nat list \<Rightarrow> server \<Rightarrow> (nat \<times> response) list \<times> server" where
  "one_by_one jobs [] s = ([], s)"
| "one_by_one jobs (i # order) s =
     (case handle_whole (jobs ! i) s of (r, s') \<Rightarrow>
        (case one_by_one jobs order s' of (rs, s'') \<Rightarrow> ((i, r) # rs, s'')))"

section \<open>A request alone\<close>

text \<open>How far a request is; nine statements answer it.\<close>

fun progress :: "config_pc \<Rightarrow> nat" where
  "progress Arrived = 0"
| "progress (WantConfig _) = 1"
| "progress WantRead = 1"
| "progress WantAdapters = 1"
| "progress ReadAdapters = 2"
| "progress (ReadConfig _) = 2"
| "progress (WantEbpf _ _) = 3"
| "progress (UseEbpf _ _) = 4"
| "progress (LogAttached _ _ _) = 5"
| "progress (ClearLive _ _ _) = 5"
| "progress (SetLive _ _) = 6"
| "progress (ClearRow _ _ _) = 6"
| "progress (SaveRow _ _) = 7"
| "progress (LogFailure _ _ _) = 7"
| "progress (LogDone _ _) = 8"
| "progress (Answered _) = 9"

fun statements :: "config_job \<Rightarrow> nat \<Rightarrow> config_pc \<times> server \<Rightarrow> config_pc \<times> server" where
  "statements j 0 x = x"
| "statements j (Suc n) x = statements j n (case x of (pc, s) \<Rightarrow> job_step j pc s)"

definition complete :: "config_job \<Rightarrow> config_pc \<Rightarrow> server \<Rightarrow> config_pc \<times> server" where
  "complete j pc s = statements j 9 (pc, s)"

lemma progress_le: "progress pc \<le> 9"
  by (cases pc) simp_all

lemma progress_9: "9 \<le> progress pc \<longleftrightarrow> (\<exists>r. pc = Answered r)"
  by (cases pc) simp_all

lemma arrive_progress: "1 \<le> progress (arrive j s)"
  by (auto simp: arrive_def split: config_request.split option.split sum.split)

lemma got_config_progress: "3 \<le> progress (got_config j u s)"
  by (auto simp: got_config_def split: config_request.split option.split)

lemma use_ebpf_progress: "5 \<le> progress (fst (use_ebpf j u cfg s))"
  by (auto simp: use_ebpf_def split: config_request.split option.split prod.split sum.split)

lemma step_progress: "(\<forall>r. pc \<noteq> Answered r) \<Longrightarrow> Suc (progress pc) \<le> progress (fst (job_step j pc s))"
  using arrive_progress [of j s] got_config_progress [of j _ s] use_ebpf_progress [of j _ _ s]
  by (cases pc) (auto simp: eval_nat_numeral split: option.split prod.split sum.split)

lemma statements_Answered [simp]: "statements j n (Answered r, s) = (Answered r, s)"
  by (induction n) simp_all

lemma statements_snoc: "statements j (Suc n) x = (case statements j n x of (pc, s) \<Rightarrow> job_step j pc s)"
  by (induction n arbitrary: x) simp_all

lemma statements_progress: "min 9 (progress pc + n) \<le> progress (fst (statements j n (pc, s)))"
proof (induction n arbitrary: pc s)
  case (Suc n)
  show ?case
  proof (cases "\<exists>r. pc = Answered r")
    case False
    then have "Suc (progress pc) \<le> progress (fst (job_step j pc s))" by (intro step_progress) blast
    with Suc [of "fst (job_step j pc s)" "snd (job_step j pc s)"] show ?thesis by simp
  qed auto
qed simp

lemma complete_Answered: "\<exists>r. fst (complete j pc s) = Answered r"
  using statements_progress [of pc 9 j s] progress_9 by (simp add: complete_def)

lemma complete_job_step: "complete j (fst (job_step j pc s)) (snd (job_step j pc s)) = complete j pc s"
proof -
  obtain r s' where c: "complete j pc s = (Answered r, s')"
    using complete_Answered [of j pc s] by (cases "complete j pc s") auto
  have "complete j (fst (job_step j pc s)) (snd (job_step j pc s)) = statements j (Suc 9) (pc, s)"
    unfolding complete_def by (simp only: statements.simps prod.case prod.collapse)
  also have "\<dots> = complete j pc s"
    using c unfolding statements_snoc complete_def by simp
  finally show ?thesis .
qed

text \<open>Uninterrupted, the statements are the handler.\<close>

lemma complete_next: "complete j pc s = (case job_step j pc s of (pc', s') \<Rightarrow> complete j pc' s')"
  using complete_job_step [of j pc s] by (simp add: case_prod_unfold)

lemma complete_simps:
  "complete j (Answered r) s = (Answered r, s)"
  "complete j Arrived s = complete j (arrive j s) s"
  "complete j (WantConfig u) s = complete j (ReadConfig u) s"
  "complete j WantRead s = (Answered (get_config (j_env j) s), s)"
  "complete j WantAdapters s = complete j ReadAdapters s"
  "complete j ReadAdapters s = (Answered (get_ebpf_adapters (j_env j) (j_session j) s), s)"
  "complete j (ReadConfig u) s = complete j (got_config j u s) s"
  "complete j (WantEbpf u cfg) s = complete j (UseEbpf u cfg) s"
  "complete j (UseEbpf u cfg) s = (case use_ebpf j u cfg s of (pc', s') \<Rightarrow> complete j pc' s')"
  by (simp add: complete_def) (subst complete_next, simp add: complete_def)+

lemma complete_failure:
  "complete j (LogFailure u message text) s =
     (Answered (S_INTERNAL_SERVER_ERROR, Text text), log_event (j_env j) ''ERROR'' message (Some (au_username u)) s)"
  by (subst complete_next) (simp add: complete_simps)

lemma complete_attach_failure:
  "complete j (ClearLive u cfg error) s =
     (Answered (S_INTERNAL_SERVER_ERROR, Text ''Failed to attach eBPF program to the selected adapters''),
      log_event (j_env j) ''ERROR'' (''Failed to attach eBPF adapters: '' @ error) (Some (au_username u))
        (snd (save_config (j_env j) cfg (try_config_set (j_env j) cfg s))))"
  by (subst complete_next, simp, subst complete_next) (simp add: complete_failure)

lemma complete_done:
  "complete j (LogDone u cfg) s =
     (Answered (done_response (j_request j) cfg),
      log_event (j_env j) ''INFO'' (done_message (j_request j)) (Some (au_username u)) s)"
  by (subst complete_next) (simp add: complete_simps)

lemma complete_commit:
  "complete j (SetLive u cfg) s =
     (case config_set (j_env j) cfg s of
        None \<Rightarrow> (Answered (S_INTERNAL_SERVER_ERROR, Text (set_failure (j_request j))), s)
      | Some s1 \<Rightarrow>
          (case save_config (j_env j) cfg s1 of
             (Inl _, s2) \<Rightarrow> (Answered (S_INTERNAL_SERVER_ERROR, Text (save_failure (j_request j))), s2)
           | (Inr _, s2) \<Rightarrow>
               (Answered (done_response (j_request j) cfg),
                log_event (j_env j) ''INFO'' (done_message (j_request j)) (Some (au_username u)) s2)))"
proof (cases "config_set (j_env j) cfg s")
  case (Some s1)
  have "complete j (SetLive u cfg) s = complete j (SaveRow u cfg) s1"
    by (subst complete_next) (simp add: Some)
  also have "\<dots> = (case job_step j (SaveRow u cfg) s1 of (pc', s') \<Rightarrow> complete j pc' s')"
    by (rule complete_next)
  finally show ?thesis by (simp add: Some complete_simps complete_done split: prod.split sum.split)
qed (subst complete_next, simp add: complete_simps)

lemma complete_attached:
  "complete j (LogAttached u cfg e) s =
     complete j (SetLive u cfg) (log_event (j_env j) ''INFO'' (attachment_message e) (Some (au_username u)) s)"
  by (subst complete_next) simp

lemmas complete_rules = complete_simps complete_failure complete_attach_failure complete_done
  complete_commit complete_attached

text \<open>Uninterrupted, the statements are the handler.\<close>

lemma alone_shutdown:
  assumes "j_request j = ShutdownRequest"
  shows "complete j Arrived s = (case handle_whole j s of (r, s') \<Rightarrow> (Answered r, s'))"
proof (cases "authorized_ebpf_action s (j_session j)")
  case (Inr u)
  with assms show ?thesis
    by (auto simp: complete_rules arrive_def got_config_def use_ebpf_def handle_whole_def shutdown_ebpf_def
        with_ebpf_and_config_def Let_def split: sum.split option.split prod.split)
qed (use assms in \<open>simp add: complete_rules arrive_def handle_whole_def shutdown_ebpf_def with_ebpf_and_config_def\<close>)

lemma alone_restart:
  assumes "j_request j = RestartRequest"
  shows "complete j Arrived s = (case handle_whole j s of (r, s') \<Rightarrow> (Answered r, s'))"
proof (cases "authorized_ebpf_action s (j_session j)")
  case (Inr u)
  with assms show ?thesis
    by (auto simp: complete_rules arrive_def got_config_def use_ebpf_def handle_whole_def restart_ebpf_def
        with_ebpf_and_config_def ebpf_reboot_def split: sum.split option.split prod.split)
qed (use assms in \<open>simp add: complete_rules arrive_def handle_whole_def restart_ebpf_def with_ebpf_and_config_def\<close>)

lemma complete_update_commit:
  assumes "j_request j = UpdateRequest patch"
  shows "complete j (SetLive u cfg) s = (case commit_config (j_env j) u cfg s of (r, s') \<Rightarrow> (Answered r, s'))"
  using assms by (simp add: complete_commit commit_config_def split: option.split prod.split sum.split)

lemma complete_update_use:
  assumes "j_request j = UpdateRequest patch" and "s_ebpf s = Some e"
  shows "complete j (UseEbpf u cfg) s =
    (case reboot (e_xdp_ok (j_env j)) (e_attach (j_env j)) cfg e of
       (Inl error, e') \<Rightarrow> complete j (ClearLive u (no_adapters cfg) error) (s\<lparr>s_ebpf := Some e'\<rparr>)
     | (Inr _, e') \<Rightarrow> complete j (LogAttached u cfg e') (s\<lparr>s_ebpf := Some e'\<rparr>))"
  using assms by (simp add: complete_simps use_ebpf_def split: prod.split sum.split)

lemma alone_update:
  assumes j: "j_request j = UpdateRequest patch"
  shows "complete j Arrived s = (case handle_whole j s of (r, s') \<Rightarrow> (Answered r, s'))"
proof (cases "\<exists>u x cfg. j_session j = Some u \<and> may (caller_of u) MODIFY \<and> patch_validate patch = Inr x \<and>
    config_get (j_env j) s = Some cfg")
  case False
  with j show ?thesis
    by (auto simp: complete_simps arrive_def got_config_def handle_whole_def update_config_def guarded_def
        split: option.split sum.split)
next
  case True
  then obtain u x cfg where t: "j_session j = Some u" "may (caller_of u) MODIFY"
    "patch_validate patch = Inr x" "config_get (j_env j) s = Some cfg" by blast
  show ?thesis
  proof (cases "(p_incoming_ethernet_adapter patch \<noteq> None \<or> p_output_ethernet_adapter patch \<noteq> None) \<and> s_ebpf s \<noteq> None")
    case False
    with j t show ?thesis
      by (auto simp: complete_simps arrive_def got_config_def handle_whole_def update_config_def guarded_def
          complete_update_commit)
  next
    case True
    then obtain e where e: "s_ebpf s = Some e" by blast
    have "complete j Arrived s = complete j (UseEbpf u (patch_apply patch cfg)) s"
      using True j t by (simp add: complete_simps arrive_def got_config_def)
    with True j t e show ?thesis
      by (auto simp: complete_update_use complete_attach_failure complete_attached complete_update_commit
          handle_whole_def update_config_def guarded_def ebpf_reboot_def Let_def split: prod.split sum.split)
  qed
qed

lemma alone: "complete j Arrived s = (case handle_whole j s of (r, s') \<Rightarrow> (Answered r, s'))"
proof (cases "j_request j")
  case ReadRequest
  then show ?thesis by (simp add: complete_simps arrive_def handle_whole_def)
next
  case AdaptersRequest
  then show ?thesis by (simp add: complete_simps arrive_def handle_whole_def)
qed (simp_all add: alone_update alone_shutdown alone_restart)

section \<open>What a statement keeps\<close>

abbreviation has_ebpf :: "server \<Rightarrow> bool" where
  "has_ebpf s \<equiv> s_ebpf s \<noteq> None"

text \<open>A request is decided when the handle or the map is about to change for it, or it is answered.\<close>

abbreviation decided :: "config_pc \<Rightarrow> bool" where
  "decided pc \<equiv> 5 \<le> progress pc"

lemma config_set_ebpf: "config_set env cfg s = Some s' \<Longrightarrow> s_ebpf s' = s_ebpf s"
  by (auto simp: config_set_def split: if_splits)

lemma try_config_set_ebpf [simp]: "s_ebpf (try_config_set env cfg s) = s_ebpf s"
  by (auto simp: try_config_set_def config_set_ebpf split: option.split)

lemma save_config_ebpf: "save_config env cfg s = (r, s') \<Longrightarrow> s_ebpf s' = s_ebpf s"
  using save_config_sel(2) [of env cfg s] by simp

lemma step_has_ebpf: "has_ebpf (snd (job_step j pc s)) \<longleftrightarrow> has_ebpf s"
  by (cases pc) (auto simp: use_ebpf_def config_set_ebpf save_config_ebpf
      split: option.split prod.split sum.split config_request.split)

lemma statements_has_ebpf: "has_ebpf (snd (statements j n (pc, s))) \<longleftrightarrow> has_ebpf s"
proof (induction n arbitrary: pc s)
  case (Suc n)
  with step_has_ebpf [of j pc s] show ?case by (cases "job_step j pc s") simp
qed simp

lemma answer_has_ebpf: "handle_whole j s = (r, s') \<Longrightarrow> has_ebpf s' \<longleftrightarrow> has_ebpf s"
  using alone [of j s] statements_has_ebpf [of j 9 Arrived s] by (simp add: complete_def)

lemma arrive_cong: "has_ebpf s = has_ebpf t \<Longrightarrow> arrive j s = arrive j t"
  by (auto simp: arrive_def authorized_ebpf_action_def get_ebpf_adapters_def result_bind_def
      split: config_request.split option.split sum.split)

text \<open>Only the holder of the configuration changes anything, and nothing before it is decided.\<close>

lemma step_waiting: "\<not> holds_config pc \<Longrightarrow> snd (job_step j pc s) = s"
  by (cases pc) simp_all

lemma step_undecided: "\<not> decided (fst (job_step j pc s)) \<Longrightarrow> snd (job_step j pc s) = s"
  using use_ebpf_progress [of j _ _ s] by (cases pc) (auto split: option.splits prod.splits sum.splits)

lemma decided_waiting: "decided pc \<Longrightarrow> \<not> holds_config pc \<Longrightarrow> \<exists>r. pc = Answered r"
  by (cases pc) simp_all

lemma arrive_waits: "\<not> holds_config (arrive j s)"
  by (auto simp: arrive_def split: config_request.split option.split sum.split)

lemma acquire_config: "holds_config (fst (job_step j pc s)) \<Longrightarrow> holds_config pc \<or> (\<exists>u. pc = WantConfig u)"
  using arrive_waits [of j s] by (cases pc) simp_all

lemma acquire_ebpf:
  "holds_ebpf j (fst (job_step j pc s)) \<Longrightarrow> holds_ebpf j pc \<or> pc = WantAdapters \<or> (\<exists>u cfg. pc = WantEbpf u cfg)"
  by (cases pc) (auto simp: arrive_def got_config_def
      split: config_request.splits option.splits sum.splits prod.splits if_splits)

text \<open>Once the handle is released, the rest of the request leaves it as it is.\<close>

lemma released_keeps_ebpf:
  assumes "decided pc" and "\<not> holds_ebpf j pc"
  shows "s_ebpf (snd (complete j pc s)) = s_ebpf s"
proof (cases pc)
  case (SaveRow u cfg)
  then show ?thesis
    by (subst complete_next) (auto simp: complete_simps complete_done save_config_ebpf split: prod.split sum.split)
qed (use assms in \<open>auto simp: complete_simps complete_commit complete_done config_set_ebpf save_config_ebpf
       split: option.split prod.split sum.split\<close>)

lemma one_by_one_snoc:
  assumes "one_by_one jobs order s = (rs, a)" and "handle_whole (jobs ! i) a = (r, a')"
  shows "one_by_one jobs (order @ [i]) s = (rs @ [(i, r)], a')"
  using assms by (induction order arbitrary: s rs) (auto split: prod.splits)

section \<open>The invariant of the requests\<close>

text \<open>At most one request holds each lock.\<close>

definition exclusive :: "config_job list \<Rightarrow> config_pc list \<Rightarrow> bool" where
  "exclusive jobs pcs \<longleftrightarrow>
     (\<forall>i < length pcs. \<forall>k < length pcs. i \<noteq> k \<longrightarrow>
        \<not> (holds_config (pcs ! i) \<and> holds_config (pcs ! k)) \<and>
        \<not> (holds_ebpf (jobs ! i) (pcs ! i) \<and> holds_ebpf (jobs ! k) (pcs ! k)))"

text \<open>
  A request that is not decided would still, run to its end, do what its handler does; a request that
  holds no lock of the configuration, from any state. A decided one has its place in the sequence and
  its answer there, and its remaining statements lead to the state \<open>a\<close> the sequence ends in.
\<close>

definition in_place :: "config_job \<Rightarrow> bool \<Rightarrow> server \<Rightarrow> server \<Rightarrow> (nat \<times> response) list \<Rightarrow> nat \<Rightarrow> config_pc \<Rightarrow> bool" where
  "in_place j present s a rs i pc \<longleftrightarrow>
     (if decided pc
      then (\<exists>r. (i, r) \<in> set rs \<and> fst (complete j pc s) = Answered r) \<and>
           (holds_config pc \<longrightarrow> snd (complete j pc s) = a)
      else if holds_config pc then complete j pc s = complete j Arrived s
      else \<forall>t. has_ebpf t = present \<longrightarrow> complete j pc t = complete j Arrived t)"

definition settled :: "config_pc list \<Rightarrow> bool" where
  "settled pcs \<longleftrightarrow> (\<forall>pc \<in> set pcs. decided pc \<longrightarrow> \<not> holds_config pc)"

definition serialised ::
    "config_job list \<Rightarrow> server \<Rightarrow> nat list \<Rightarrow> config_pc list \<Rightarrow> server \<Rightarrow> (nat \<times> response) list \<Rightarrow> server \<Rightarrow> bool" where
  "serialised jobs s0 order pcs s rs a \<longleftrightarrow>
     length pcs = length jobs \<and> distinct order \<and>
     set order = {i. i < length jobs \<and> decided (pcs ! i)} \<and>
     exclusive jobs pcs \<and> one_by_one jobs order s0 = (rs, a) \<and>
     has_ebpf s = has_ebpf s0 \<and> has_ebpf a = has_ebpf s0 \<and>
     (\<forall>i < length jobs. in_place (jobs ! i) (has_ebpf s0) s a rs i (pcs ! i)) \<and>
     (settled pcs \<longrightarrow> s = a)"

lemma in_place_other:
  assumes "in_place j present s a rs i pc" and "set rs \<subseteq> set rs'" and "holds_config pc \<Longrightarrow> s' = s \<and> a' = a"
  shows "in_place j present s' a' rs' i pc"
proof (cases "decided pc")
  case True
  with assms show ?thesis
    by (cases "holds_config pc") (auto simp: in_place_def complete_simps dest!: decided_waiting)
next
  case False
  with assms show ?thesis by (cases "holds_config pc") (simp_all add: in_place_def)
qed

lemma exclusive_step:
  assumes "exclusive jobs pcs" and "length pcs = length jobs" and "i < length pcs"
    and "\<not> blocked jobs pcs (pcs ! i)"
  shows "exclusive jobs (pcs[i := fst (job_step (jobs ! i) (pcs ! i) s)])"
proof -
  let ?pc = "fst (job_step (jobs ! i) (pcs ! i) s)"
  have config: "\<not> (holds_config ?pc \<and> holds_config (pcs ! k))" if "k < length pcs" "k \<noteq> i" for k
    using acquire_config [of "jobs ! i" "pcs ! i" s] assms that
    by (auto simp: exclusive_def list_ex_length)
  have ebpf: "\<not> (holds_ebpf (jobs ! i) ?pc \<and> holds_ebpf (jobs ! k) (pcs ! k))"
    if "k < length pcs" "k \<noteq> i" for k
    using acquire_ebpf [of "jobs ! i" "pcs ! i" s] assms that
    by (auto simp: exclusive_def list_ex_length)
  show ?thesis
    unfolding exclusive_def
  proof (intro allI impI)
    fix k l
    assume kl: "k < length (pcs[i := ?pc])" "l < length (pcs[i := ?pc])" "k \<noteq> l"
    consider "k = i" | "l = i" | "k \<noteq> i" "l \<noteq> i" by blast
    then show "\<not> (holds_config (pcs[i := ?pc] ! k) \<and> holds_config (pcs[i := ?pc] ! l)) \<and>
      \<not> (holds_ebpf (jobs ! k) (pcs[i := ?pc] ! k) \<and> holds_ebpf (jobs ! l) (pcs[i := ?pc] ! l))"
    proof cases
      case 1
      then show ?thesis using kl config [of l] ebpf [of l] by simp
    next
      case 2
      then show ?thesis using kl config [of k] ebpf [of k] by auto
    next
      case 3
      then show ?thesis using kl assms(1) by (simp add: exclusive_def)
    qed
  qed
qed

text \<open>An answer given without the configuration's lock is right where the sequence stands.\<close>

lemma serialised_same_ebpf:
  assumes "serialised jobs s0 order pcs s rs a" and "i < length jobs" and "pcs ! i = ReadAdapters"
  shows "s_ebpf s = s_ebpf a"
proof (cases "settled pcs")
  case False
  then obtain k where k: "k < length pcs" "decided (pcs ! k)" "holds_config (pcs ! k)"
    by (auto simp: settled_def in_set_conv_nth)
  with assms have "snd (complete (jobs ! k) (pcs ! k) s) = a"
    by (auto simp: serialised_def in_place_def)
  moreover have "\<not> holds_ebpf (jobs ! k) (pcs ! k)"
    using assms k by (cases "k = i") (auto simp: serialised_def exclusive_def)
  ultimately show ?thesis using released_keeps_ebpf [of "pcs ! k" "jobs ! k" s] k by auto
qed (use assms in \<open>simp add: serialised_def\<close>)

lemma adapters_cong: "s_ebpf s = s_ebpf t \<Longrightarrow> get_ebpf_adapters env session s = get_ebpf_adapters env session t"
  by (simp add: get_ebpf_adapters_def Let_def)

lemma waiting_answer:
  assumes inv: "serialised jobs s0 order pcs s rs a" and i: "i < length jobs"
    and pc: "\<not> decided (pcs ! i)" "\<not> holds_config (pcs ! i)" "\<not> blocked jobs pcs (pcs ! i)"
    and step: "job_step (jobs ! i) (pcs ! i) s = (Answered r, s')"
  shows "handle_whole (jobs ! i) a = (r, a)"
proof -
  have present: "has_ebpf a = has_ebpf s" using inv by (simp add: serialised_def)
  have "complete (jobs ! i) (pcs ! i) a = (Answered r, a)"
  proof (cases "pcs ! i")
    case Arrived
    with step have "arrive (jobs ! i) s = Answered r" by auto
    with arrive_cong [OF present] Arrived show ?thesis by (simp add: complete_simps)
  next
    case WantRead
    with pc(3) have "settled pcs" by (auto simp: settled_def list_ex_iff)
    with inv have "s = a" by (simp add: serialised_def)
    with step WantRead show ?thesis by (auto simp: complete_simps)
  next
    case ReadAdapters
    with step have "get_ebpf_adapters (j_env (jobs ! i)) (j_session (jobs ! i)) s = r" by auto
    with adapters_cong [OF serialised_same_ebpf [OF inv i ReadAdapters]] ReadAdapters show ?thesis
      by (simp add: complete_simps)
  qed (use pc step in simp_all)
  moreover have "complete (jobs ! i) (pcs ! i) a = complete (jobs ! i) Arrived a"
    using inv i pc by (simp add: serialised_def in_place_def)
  ultimately show ?thesis using alone [of "jobs ! i" a] by (auto split: prod.splits)
qed

lemma got_config_next:
  "\<not> holds_config (got_config j u s) \<Longrightarrow> decided (got_config j u s)"
  by (auto simp: got_config_def split: config_request.split option.split)

lemma still_waiting:
  assumes "\<not> decided (fst (job_step j pc s))" and "\<not> holds_config (fst (job_step j pc s))"
  shows "pc = Arrived \<or> pc = WantAdapters"
  using assms use_ebpf_progress [of j _ _ s] got_config_next [of j _ s]
  by (cases pc) (auto split: option.splits prod.splits sum.splits)

text \<open>A statement that leaves the request undecided changes nothing and adds nothing to the sequence.\<close>

lemma serialised_undecided:
  assumes inv: "serialised jobs s0 order pcs s rs a" and i: "i < length jobs"
    and free: "\<not> blocked jobs pcs (pcs ! i)"
    and step: "job_step (jobs ! i) (pcs ! i) s = (pc', s')" and pc': "\<not> decided pc'"
  shows "serialised jobs s0 order (pcs[i := pc']) s' rs a"
proof -
  have len: "length pcs = length jobs" and ex: "exclusive jobs pcs" and present: "has_ebpf s = has_ebpf s0"
    and all: "\<And>k. k < length jobs \<Longrightarrow> in_place (jobs ! k) (has_ebpf s0) s a rs k (pcs ! k)"
    using inv by (simp_all add: serialised_def)
  have s': "s' = s" using step_undecided [of "jobs ! i" "pcs ! i" s] step pc' by simp
  have pc: "\<not> decided (pcs ! i)"
    using step_progress [of "pcs ! i" "jobs ! i" s] step pc' by (cases "pcs ! i") auto
  have run: "complete (jobs ! i) pc' s = complete (jobs ! i) (pcs ! i) s"
    using complete_job_step [of "jobs ! i" "pcs ! i" s] step s' by simp
  have fresh: "complete (jobs ! i) (pcs ! i) s = complete (jobs ! i) Arrived s"
    using all [OF i] pc present by (cases "holds_config (pcs ! i)") (simp_all add: in_place_def)
  have "in_place (jobs ! i) (has_ebpf s0) s a rs i pc'"
  proof (cases "holds_config pc'")
    case False
    have "complete (jobs ! i) pc' t = complete (jobs ! i) Arrived t" if t: "has_ebpf t = has_ebpf s0" for t
    proof -
      consider (Arrived) "pcs ! i = Arrived" | (WantAdapters) "pcs ! i = WantAdapters"
        using still_waiting [of "jobs ! i" "pcs ! i" s] step pc' False by auto
      then show ?thesis
      proof cases
        case Arrived
        with step have "pc' = arrive (jobs ! i) s" by auto
        also have "\<dots> = arrive (jobs ! i) t" by (rule arrive_cong) (use t present in simp)
        finally show ?thesis by (simp add: complete_simps)
      next
        case WantAdapters
        with step all [OF i] t show ?thesis by (auto simp: in_place_def complete_simps)
      qed
    qed
    with False pc' show ?thesis by (simp add: in_place_def)
  qed (use run fresh pc' in \<open>simp add: in_place_def\<close>)
  then have "in_place (jobs ! k) (has_ebpf s0) s a rs k (pcs[i := pc'] ! k)" if "k < length jobs" for k
    using all that len by (cases "k = i") simp_all
  moreover have "exclusive jobs (pcs[i := pc'])"
    using exclusive_step [OF ex len _ free, of s] i len step by simp
  moreover have "settled (pcs[i := pc']) \<Longrightarrow> s = a"
    using inv pc' pc i len unfolding serialised_def settled_def
    by (metis in_set_conv_nth length_list_update nth_list_update_neq)
  moreover have "{k. k < length jobs \<and> decided (pcs[i := pc'] ! k)} = {k. k < length jobs \<and> decided (pcs ! k)}"
    using pc pc' len i by (auto simp: nth_list_update split: if_splits)
  ultimately show ?thesis using inv by (simp add: serialised_def s')
qed

text \<open>The others, when one request moves: only the holder of the configuration changes the state.\<close>

lemma others_in_place:
  assumes inv: "serialised jobs s0 order pcs s rs a" and i: "i < length jobs" and k: "k < length jobs" "k \<noteq> i"
    and step: "job_step (jobs ! i) (pcs ! i) s = (pc', s')" and rs: "set rs \<subseteq> set rs'"
    and a: "a' = a \<or> holds_config (pcs ! i)"
  shows "in_place (jobs ! k) (has_ebpf s0) s' a' rs' k (pcs[i := pc'] ! k)"
proof -
  have "s' = s \<and> a' = a" if "holds_config (pcs ! k)"
  proof -
    have "\<not> holds_config (pcs ! i)" using inv i k that by (auto simp: serialised_def exclusive_def)
    then show ?thesis using step_waiting [of "pcs ! i" "jobs ! i" s] step a by simp
  qed
  moreover have "in_place (jobs ! k) (has_ebpf s0) s a rs k (pcs ! k)" using inv k by (simp add: serialised_def)
  ultimately have "in_place (jobs ! k) (has_ebpf s0) s' a' rs' k (pcs ! k)"
    using in_place_other rs by blast
  then show ?thesis using k by simp
qed

text \<open>The statement that decides a request gives it the next place in the sequence.\<close>

lemma deciding_answer:
  assumes inv: "serialised jobs s0 order pcs s rs a" and i: "i < length jobs"
    and free: "\<not> blocked jobs pcs (pcs ! i)" and pc: "\<not> decided (pcs ! i)"
    and step: "job_step (jobs ! i) (pcs ! i) s = (pc', s')" and pc': "decided pc'"
    and ans: "handle_whole (jobs ! i) a = (r, a')"
  shows "fst (complete (jobs ! i) pc' s') = Answered r \<and> (holds_config (pcs ! i) \<longrightarrow> snd (complete (jobs ! i) pc' s') = a') \<and>
    (\<not> holds_config (pcs ! i) \<longrightarrow> pc' = Answered r \<and> s' = s \<and> a' = a)"
proof (cases "holds_config (pcs ! i)")
  case True
  have "settled pcs"
    using inv i pc True unfolding serialised_def exclusive_def settled_def by (metis in_set_conv_nth)
  then have "s = a" using inv by (simp add: serialised_def)
  moreover have "complete (jobs ! i) (pcs ! i) s = complete (jobs ! i) Arrived s"
    using inv i pc True by (simp add: serialised_def in_place_def)
  ultimately have "complete (jobs ! i) pc' s' = (Answered r, a')"
    using complete_job_step [of "jobs ! i" "pcs ! i" s] step alone [of "jobs ! i" a] ans by simp
  with True show ?thesis by simp
next
  case False
  have "\<not> holds_config pc'"
    using acquire_config [of "jobs ! i" "pcs ! i" s] False step pc' by auto
  with pc' obtain r' where r': "pc' = Answered r'" using decided_waiting by blast
  have "handle_whole (jobs ! i) a = (r', a)"
    using waiting_answer [OF inv i pc False free] step r' by simp
  then show ?thesis
    using ans r' False step_waiting [OF False, of "jobs ! i" s] step by (simp add: complete_simps)
qed

lemma serialised_decides:
  assumes inv: "serialised jobs s0 order pcs s rs a" and i: "i < length jobs"
    and free: "\<not> blocked jobs pcs (pcs ! i)" and pc: "\<not> decided (pcs ! i)"
    and step: "job_step (jobs ! i) (pcs ! i) s = (pc', s')" and pc': "decided pc'"
  shows "\<exists>rs' a'. serialised jobs s0 (order @ [i]) (pcs[i := pc']) s' rs' a'"
proof -
  obtain r a' where ans: "handle_whole (jobs ! i) a = (r, a')" by fastforce
  have len: "length pcs = length jobs" and ex: "exclusive jobs pcs"
    and run: "one_by_one jobs order s0 = (rs, a)"
    using inv by (simp_all add: serialised_def)
  note d = deciding_answer [OF inv i free pc step pc' ans]
  have "holds_config pc' \<Longrightarrow> holds_config (pcs ! i)" using d by auto
  moreover have "\<exists>q. (i, q) \<in> set (rs @ [(i, r)]) \<and> fst (complete (jobs ! i) pc' s') = Answered q"
    by (rule exI [of _ r]) (use d in simp)
  ultimately have "in_place (jobs ! i) (has_ebpf s0) s' a' (rs @ [(i, r)]) i pc'"
    using d pc' by (simp add: in_place_def)
  moreover have "in_place (jobs ! k) (has_ebpf s0) s' a' (rs @ [(i, r)]) k (pcs[i := pc'] ! k)"
    if "k < length jobs" "k \<noteq> i" for k
    by (rule others_in_place [OF inv i that step]) (use d in auto)
  ultimately have all: "in_place (jobs ! k) (has_ebpf s0) s' a' (rs @ [(i, r)]) k (pcs[i := pc'] ! k)"
    if "k < length jobs" for k
    using that len by (cases "k = i") simp_all
  have settled: "s' = a'" if q: "settled (pcs[i := pc'])"
  proof (cases "holds_config (pcs ! i)")
    case True
    have "\<not> holds_config pc'" using q pc' i len by (auto simp: settled_def set_update_memI)
    then obtain r' where "pc' = Answered r'" using decided_waiting pc' by blast
    with True d show ?thesis by (simp add: complete_simps)
  next
    case False
    have "settled pcs"
      using q pc i len unfolding settled_def
      by (metis in_set_conv_nth length_list_update nth_list_update_neq)
    with False d inv show ?thesis by (simp add: serialised_def)
  qed
  have "set (order @ [i]) = {k. k < length jobs \<and> decided (pcs[i := pc'] ! k)}"
    using inv pc' i len by (auto simp: serialised_def nth_list_update)
  moreover have "distinct (order @ [i])" using inv pc by (simp add: serialised_def)
  moreover have "exclusive jobs (pcs[i := pc'])"
    using exclusive_step [OF ex len _ free, of s] i len step by simp
  moreover have "has_ebpf s' = has_ebpf s0" "has_ebpf a' = has_ebpf s0"
    using inv step_has_ebpf [of "jobs ! i" "pcs ! i" s] step answer_has_ebpf [OF ans]
    by (simp_all add: serialised_def)
  ultimately have "serialised jobs s0 (order @ [i]) (pcs[i := pc']) s' (rs @ [(i, r)]) a'"
    using one_by_one_snoc [OF run ans] all settled len by (simp add: serialised_def)
  then show ?thesis by blast
qed

text \<open>The statements after it run to the state the sequence has already reached.\<close>

lemma serialised_continues:
  assumes inv: "serialised jobs s0 order pcs s rs a" and i: "i < length jobs"
    and free: "\<not> blocked jobs pcs (pcs ! i)" and pc: "decided (pcs ! i)"
    and step: "job_step (jobs ! i) (pcs ! i) s = (pc', s')"
  shows "serialised jobs s0 order (pcs[i := pc']) s' rs a"
proof (cases "holds_config (pcs ! i)")
  case False
  with pc obtain r where "pcs ! i = Answered r" using decided_waiting by blast
  with step have "pc' = pcs ! i" "s' = s" by auto
  with inv show ?thesis by simp
next
  case True
  have len: "length pcs = length jobs" and ex: "exclusive jobs pcs" using inv by (simp_all add: serialised_def)
  have "\<forall>r. pcs ! i \<noteq> Answered r" using True by (cases "pcs ! i") auto
  then have pc': "decided pc'" using step_progress [of "pcs ! i" "jobs ! i" s] step pc by simp
  have run: "complete (jobs ! i) pc' s' = complete (jobs ! i) (pcs ! i) s"
    using complete_job_step [of "jobs ! i" "pcs ! i" s] step by simp
  have "in_place (jobs ! i) (has_ebpf s0) s a rs i (pcs ! i)" using inv i by (simp add: serialised_def)
  with pc True have ends: "snd (complete (jobs ! i) (pcs ! i) s) = a" and
    "in_place (jobs ! i) (has_ebpf s0) s' a rs i pc'"
    using pc' by (simp_all add: in_place_def run)
  moreover have "in_place (jobs ! k) (has_ebpf s0) s' a rs k (pcs[i := pc'] ! k)"
    if "k < length jobs" "k \<noteq> i" for k
    by (rule others_in_place [OF inv i that step]) simp_all
  ultimately have all: "in_place (jobs ! k) (has_ebpf s0) s' a rs k (pcs[i := pc'] ! k)"
    if "k < length jobs" for k
    using that len by (cases "k = i") simp_all
  have settled: "s' = a" if q: "settled (pcs[i := pc'])"
  proof -
    have "\<not> holds_config pc'" using q pc' i len by (auto simp: settled_def set_update_memI)
    then obtain r where "pc' = Answered r" using decided_waiting pc' by blast
    with run ends show ?thesis by (metis complete_simps(1) snd_conv)
  qed
  have "{k. k < length jobs \<and> decided (pcs[i := pc'] ! k)} = {k. k < length jobs \<and> decided (pcs ! k)}"
    using pc pc' len i by (auto simp: nth_list_update split: if_splits)
  moreover have "exclusive jobs (pcs[i := pc'])"
    using exclusive_step [OF ex len _ free, of s] i len step by simp
  moreover have "has_ebpf s' = has_ebpf s0"
    using inv step_has_ebpf [of "jobs ! i" "pcs ! i" s] step by (simp add: serialised_def)
  ultimately show ?thesis using inv all settled len by (simp add: serialised_def)
qed

lemma serialised_turn:
  assumes "serialised jobs s0 order pcs s rs a" and "turn jobs i (pcs, s) = (pcs', s')"
  shows "\<exists>order' rs' a'. serialised jobs s0 order' pcs' s' rs' a'"
proof (cases "length pcs \<le> i \<or> blocked jobs pcs (pcs ! i)")
  case False
  obtain pc' t where step: "job_step (jobs ! i) (pcs ! i) s = (pc', t)" by fastforce
  have i: "i < length jobs" using False assms(1) by (simp add: serialised_def)
  have eq: "pcs' = pcs[i := pc']" "s' = t" using assms(2) False step by (simp_all add: turn_def)
  consider "decided (pcs ! i)" | "\<not> decided (pcs ! i)" "decided pc'" | "\<not> decided pc'" by blast
  then show ?thesis
    using serialised_continues [OF assms(1) i _ _ step] serialised_decides [OF assms(1) i _ _ step]
      serialised_undecided [OF assms(1) i _ step] False unfolding eq by cases blast+
qed (use assms in \<open>auto simp: turn_def\<close>)

lemma serialised_start: "serialised jobs s [] (replicate (length jobs) Arrived) s [] s"
  by (simp add: serialised_def exclusive_def in_place_def settled_def)

lemma serialised_run:
  "run_jobs jobs schedule s = (pcs, s') \<Longrightarrow> \<exists>order rs a. serialised jobs s order pcs s' rs a"
proof (induction schedule arbitrary: pcs s' rule: rev_induct)
  case Nil
  then show ?case using serialised_start [of jobs s] by (auto simp: run_jobs_def)
next
  case (snoc i schedule)
  obtain pcs1 s1 where r: "run_jobs jobs schedule s = (pcs1, s1)" by fastforce
  with snoc.prems have "turn jobs i (pcs1, s1) = (pcs, s')" by (simp add: run_jobs_def)
  with snoc.IH [OF r] serialised_turn show ?case by blast
qed

section \<open>No deadlock\<close>

definition total :: "config_pc list \<Rightarrow> nat" where
  "total pcs = sum_list (map progress pcs)"

lemma total_update: "i < length pcs \<Longrightarrow> total (pcs[i := pc]) + progress (pcs ! i) = total pcs + progress pc"
  by (induction pcs arbitrary: i) (auto simp: total_def less_Suc_eq_0_disj split: nat.split)

lemma total_le: "total pcs \<le> 9 * length pcs"
  using progress_le by (induction pcs) (auto simp: total_def add_mono)

lemma turn_moves:
  assumes "turn jobs i (pcs, s) = (pcs', s')"
  shows "(pcs', s') = (pcs, s) \<or> total pcs < total pcs'"
proof (cases "length pcs \<le> i \<or> blocked jobs pcs (pcs ! i) \<or> (\<exists>r. pcs ! i = Answered r)")
  case True
  show ?thesis
  proof (cases "length pcs \<le> i \<or> blocked jobs pcs (pcs ! i)")
    case False
    with True obtain r where r: "pcs ! i = Answered r" by blast
    have "turn jobs i (pcs, s) = (pcs[i := pcs ! i], s)" using False r by (simp add: turn_def)
    with assms show ?thesis by simp
  qed (use assms in \<open>auto simp: turn_def\<close>)
next
  case False
  with assms have i: "i < length pcs" and "pcs' = pcs[i := fst (job_step (jobs ! i) (pcs ! i) s)]"
    by (auto simp: turn_def split: prod.splits)
  with total_update [OF i, of "fst (job_step (jobs ! i) (pcs ! i) s)"]
    step_progress [of "pcs ! i" "jobs ! i" s] False show ?thesis by auto
qed

lemma turn_enabled:
  assumes "i < length pcs" and "\<not> blocked jobs pcs (pcs ! i)" and "\<forall>r. pcs ! i \<noteq> Answered r"
  shows "total pcs < total (fst (turn jobs i (pcs, s)))"
  using assms total_update [OF assms(1), of "fst (job_step (jobs ! i) (pcs ! i) s)"]
    step_progress [of "pcs ! i" "jobs ! i" s]
  by (simp add: turn_def case_prod_unfold not_le)

lemma turn_length [simp]: "length (fst (turn jobs i x)) = length (fst x)"
  by (simp add: turn_def case_prod_unfold)

lemma turns_length [simp]: "length (fst (fold (turn jobs) schedule x)) = length (fst x)"
  by (induction schedule arbitrary: x) simp_all

lemma turns_mono: "total (fst x) \<le> total (fst (fold (turn jobs) schedule x))"
proof (induction schedule arbitrary: x)
  case (Cons i schedule)
  obtain pcs s pcs' s' where x: "x = (pcs, s)" "turn jobs i (pcs, s) = (pcs', s')" by (metis surj_pair)
  with turn_moves [OF x(2)] Cons [of "(pcs', s')"] show ?case by auto
qed simp

text \<open>A request that holds a lock and is not waiting for another can always go on; so can any request when no lock is held.\<close>

lemma some_enabled:
  assumes "k < length pcs" and "\<forall>r. pcs ! k \<noteq> Answered r" and "length pcs = length jobs"
  shows "\<exists>i < length pcs. \<not> blocked jobs pcs (pcs ! i) \<and> (\<forall>r. pcs ! i \<noteq> Answered r)"
proof -
  consider (ebpf) i where "i < length pcs" "holds_ebpf (jobs ! i) (pcs ! i)"
    | (config) i where "i < length pcs" "holds_config (pcs ! i)" "\<not> list_ex (\<lambda>(j, pc). holds_ebpf j pc) (zip jobs pcs)"
    | (none) "\<not> list_ex holds_config pcs" "\<not> list_ex (\<lambda>(j, pc). holds_ebpf j pc) (zip jobs pcs)"
    using assms(3) by (auto simp: list_ex_length)
  then show ?thesis
  proof cases
    case ebpf
    then have "\<not> blocked jobs pcs (pcs ! i) \<and> (\<forall>r. pcs ! i \<noteq> Answered r)" by (cases "pcs ! i") auto
    with ebpf show ?thesis by blast
  next
    case config
    then have "\<not> blocked jobs pcs (pcs ! i) \<and> (\<forall>r. pcs ! i \<noteq> Answered r)" by (cases "pcs ! i") auto
    with config show ?thesis by blast
  next
    case none
    then have "\<not> blocked jobs pcs (pcs ! k)" by (cases "pcs ! k") auto
    with assms show ?thesis by blast
  qed
qed

lemma round_moves:
  assumes "i \<in> set schedule" and "i < length pcs" and "\<not> blocked jobs pcs (pcs ! i)"
    and "\<forall>r. pcs ! i \<noteq> Answered r"
  shows "total pcs < total (fst (fold (turn jobs) schedule (pcs, s)))"
  using assms(1)
proof (induction schedule)
  case (Cons k schedule)
  obtain pcs' s' where k: "turn jobs k (pcs, s) = (pcs', s')" by fastforce
  show ?case
  proof (cases "(pcs', s') = (pcs, s)")
    case True
    then have "k \<noteq> i" using turn_enabled [OF assms(2-4), of s] k by auto
    with Cons True k show ?thesis by simp
  next
    case False
    then have "total pcs < total pcs'" using turn_moves [OF k] by blast
    with turns_mono [of "(pcs', s')" jobs schedule] k show ?thesis by simp
  qed
qed simp

lemma total_full: "9 * length pcs \<le> total pcs \<longleftrightarrow> (\<forall>pc \<in> set pcs. \<exists>r. pc = Answered r)"
proof (induction pcs)
  case (Cons pc pcs)
  have "9 * length (pc # pcs) \<le> total (pc # pcs) \<longleftrightarrow> 9 \<le> progress pc \<and> 9 * length pcs \<le> total pcs"
    using progress_le [of pc] total_le [of pcs] by (auto simp: total_def)
  with Cons show ?case by (simp add: progress_9)
qed (simp add: total_def)

lemma rounds_answer:
  assumes "\<forall>round \<in> set rounds. {..<length jobs} \<subseteq> set round" and "length pcs = length jobs"
  shows "min (9 * length jobs) (length rounds) \<le> total (fst (fold (turn jobs) (concat rounds) (pcs, s)))"
  using assms
proof (induction rounds rule: rev_induct)
  case (snoc round rounds)
  obtain pcs1 s1 where x: "fold (turn jobs) (concat rounds) (pcs, s) = (pcs1, s1)" by fastforce
  have len: "length pcs1 = length jobs"
    using turns_length [of jobs "concat rounds" "(pcs, s)"] x snoc.prems by simp
  show ?case
  proof (cases "9 * length pcs1 \<le> total pcs1")
    case True
    with turns_mono [of "(pcs1, s1)" jobs round] x len show ?thesis by simp
  next
    case False
    then obtain k where "k < length pcs1" "\<forall>r. pcs1 ! k \<noteq> Answered r"
      by (auto simp: total_full in_set_conv_nth)
    from some_enabled [OF this len] obtain i where i: "i < length pcs1"
      "\<not> blocked jobs pcs1 (pcs1 ! i)" "\<forall>r. pcs1 ! i \<noteq> Answered r" by blast
    have "i \<in> set round" using snoc.prems i(1) len by auto
    from round_moves [OF this i, of s1] have "total pcs1 < total (fst (fold (turn jobs) round (pcs1, s1)))" .
    moreover have "min (9 * length jobs) (length rounds) \<le> total pcs1"
      using snoc x by simp
    ultimately show ?thesis using x by simp
  qed
qed simp

section \<open>A shutdown and a status request at the same time\<close>

text \<open>The shutdown finds the handle locked by the status request, waits one turn, and goes on.\<close>

definition sample_jobs :: "config_job list" where
  "sample_jobs = map (\<lambda>request. \<lparr>j_env = ref_env, j_request = request, j_session = Some sample_user\<rparr>)
     [ShutdownRequest, AdaptersRequest]"

definition sample_schedule :: "nat list" where
  "sample_schedule = [1, 0, 1, 0, 0, 0, 1, 0, 0, 0, 0, 0]"

fun answered_status :: "config_pc \<Rightarrow> status option" where
  "answered_status (Answered r) = Some (fst r)"
| "answered_status _ = None"

lemma answered_status_Some: "answered_status pc = Some st \<longleftrightarrow> (\<exists>body. pc = Answered (st, body))"
  by (cases pc) auto

lemma sample_facts:
  "authorized_ebpf_action sample_server (Some sample_user) = Inr sample_user"
  "s_ebpf sample_server = Some new_programm"
  "config_get ref_env sample_server = Some firewall_config_default"
  "shut_down_working_ebpf (e_xdp_ok ref_env) new_programm = (Inr (), new_programm)"
  "no_adapters firewall_config_default = firewall_config_default"
  "config_set ref_env cfg s = Some (s\<lparr>s_maps := (s_maps s)\<lparr>CONFIG := Some cfg\<rparr>\<rparr>)"
  by (simp_all add: authorized_ebpf_Inr sample_user_may sample_server_def config_get_def ref_env_def
      shut_down_working_ebpf_def new_programm_def no_adapters_def firewall_config_default_def config_set_def)

lemma sample_save: "\<exists>s'. save_config ref_env firewall_config_default s = (Inr (), s')"
  by (simp add: save_config_def save_firewall_config_def config_to_row_def sqlite_integer_def ref_env_def
      firewall_config_default_def)

lemma sample_run:
  "map answered_status
     (fst (run_jobs sample_jobs sample_schedule sample_server)) = [Some S_NO_CONTENT, Some S_OK]"
proof -
  obtain s' where "save_config ref_env firewall_config_default
      (sample_server\<lparr>s_ebpf := Some new_programm,
         s_maps := (s_maps sample_server)\<lparr>CONFIG := Some firewall_config_default\<rparr>\<rparr>) = (Inr (), s')"
    using sample_save by blast
  then show ?thesis
    by (simp add: run_jobs_def sample_jobs_def sample_schedule_def turn_def arrive_def sample_facts
        numeral_eq_Suc got_config_def use_ebpf_def get_ebpf_adapters_def case_prod_unfold Let_def)
qed

section \<open>Properties\<close>

text \<open>
  C34: Requests that read and change the configuration and the eBPF program at the same time, their
  statements interleaved in any order the two locks allow, are answered as if the handlers had run
  one after the other: once all are answered there is an order of them in which the handlers, run
  whole, give each request the answer it got and leave the server in the state it is in.
\<close>

theorem concurrent_requests_serialise:
  assumes "run_jobs jobs schedule s = (pcs, s')"
    and "\<forall>i < length jobs. \<exists>r. pcs ! i = Answered r"
  shows "\<exists>order rs. distinct order \<and> set order = {..<length jobs} \<and> one_by_one jobs order s = (rs, s') \<and>
    (\<forall>i < length jobs. \<exists>r. pcs ! i = Answered r \<and> (i, r) \<in> set rs)"
proof -
  obtain order rs a where inv: "serialised jobs s order pcs s' rs a" using serialised_run [OF assms(1)] by blast
  have "settled pcs"
    unfolding settled_def
  proof
    fix pc assume "pc \<in> set pcs"
    then obtain r where "pc = Answered r" using assms(2) inv by (fastforce simp: serialised_def in_set_conv_nth)
    then show "decided pc \<longrightarrow> \<not> holds_config pc" by simp
  qed
  then have "s' = a" using inv by (simp add: serialised_def)
  moreover have "set order = {..<length jobs}" using inv assms(2) by (fastforce simp: serialised_def)
  moreover have "\<exists>r. pcs ! i = Answered r \<and> (i, r) \<in> set rs" if i: "i < length jobs" for i
  proof -
    obtain r where r: "pcs ! i = Answered r" using assms(2) i by blast
    have "in_place (jobs ! i) (has_ebpf s) s' a rs i (pcs ! i)" using inv i by (simp add: serialised_def)
    then have "(i, r) \<in> set rs" by (auto simp: in_place_def r complete_simps)
    with r show ?thesis by blast
  qed
  ultimately show ?thesis using inv unfolding serialised_def by blast
qed

theorem concurrent_requests_serialise_witness:
  "\<exists>order rs. distinct order \<and> set order = {..<2} \<and>
    one_by_one sample_jobs order sample_server = (rs, snd (run_jobs sample_jobs sample_schedule sample_server))"
proof -
  obtain pcs s' where r: "run_jobs sample_jobs sample_schedule sample_server = (pcs, s')" by fastforce
  have two: "length sample_jobs = 2" by (simp add: sample_jobs_def)
  have answered: "\<forall>i < length sample_jobs. \<exists>r. pcs ! i = Answered r"
    using sample_run unfolding r two by (auto simp: map_eq_Cons_conv answered_status_Some less_2_cases_iff)
  show ?thesis using concurrent_requests_serialise [OF r answered] unfolding r two snd_conv by blast
qed

text \<open>
  C32: The two locks are never held in a circle, whatever requests come: in as many rounds as there
  are statements, nine for each request, every request is answered, where a round gives each request
  at least one turn, in any order, and a turn in which it is blocked passes.
\<close>

theorem requests_never_deadlock:
  assumes "\<forall>round \<in> set rounds. {..<length jobs} \<subseteq> set round" and "9 * length jobs \<le> length rounds"
    and "run_jobs jobs (concat rounds) s = (pcs, s')"
  shows "length pcs = length jobs \<and> (\<forall>pc \<in> set pcs. \<exists>r. pc = Answered r)"
proof -
  have "length (fst (run_jobs jobs (concat rounds) s)) = length jobs" by (simp add: run_jobs_def)
  then have "length pcs = length jobs" by (simp add: assms(3))
  moreover have "9 * length jobs \<le> total pcs"
    using rounds_answer [OF assms(1), of "replicate (length jobs) Arrived" s] assms(2)
      arg_cong [OF assms(3), of fst] by (simp add: run_jobs_def)
  ultimately show ?thesis using total_full [of pcs] by simp
qed

theorem requests_never_deadlock_witness:
  "list_all (\<lambda>pc. \<exists>r. pc = Answered r)
     (fst (run_jobs sample_jobs (concat (replicate 18 [1, 0])) sample_server))"
proof -
  obtain pcs s' where r: "run_jobs sample_jobs (concat (replicate 18 [1, 0])) sample_server = (pcs, s')"
    by fastforce
  have "\<forall>round \<in> set (replicate 18 [1, 0 :: nat]). {..<length sample_jobs} \<subseteq> set round"
    by (auto simp: sample_jobs_def)
  moreover have "9 * length sample_jobs \<le> length (replicate 18 [1, 0 :: nat])" by (simp add: sample_jobs_def)
  ultimately show ?thesis using requests_never_deadlock [OF _ _ r] unfolding r fst_conv list_all_iff by blast
qed

end
