(* ===== verification/Db_Tests.thy ===== *)
theory Db_Tests
  imports Bootstrap_Race
begin

text \<open>
  The tests of oxidrop/src/db.rs, each as the predicate that its assertions make on the model, with the
  password library (\<open>S\<close>), the salts drawn and, for the tests that spawn tasks, their schedule as
  arguments. They hold for any library that hashes.
\<close>

text \<open>\<open>setup_test_db\<close>: a new database after its migrations.\<close>

definition setup_test_db :: database where
  "setup_test_db = empty_database"

definition admin_ctx :: caller_context where
  "admin_ctx = \<lparr>caller_role = Admin, caller_permissions = permissions_all\<rparr>"

definition test_subnet_mutations_require_rbac_permissions :: bool where
  "test_subnet_mutations_require_rbac_permissions =
     (let viewer_ctx = \<lparr>caller_role = Viewer, caller_permissions = permissions_all\<rparr>;
          (denied_save, db) = save_subnet_v4 no_faults viewer_ctx 0x0a000100 24 Allow setup_test_db;
          (saved, db) = save_subnet_v4 no_faults admin_ctx 0x0a000100 24 Allow db;
          (denied_delete, db) = delete_subnet_v4 no_faults viewer_ctx 0x0a000100 24 db;
          (deleted, db) = delete_subnet_v4 no_faults admin_ctx 0x0a000100 24 db
      in denied_save = Inl LackingPermission \<and> saved = Inr () \<and>
         denied_delete = Inl LackingPermission \<and> deleted = Inr ())"

definition test_rbac_only_admin_with_create_can_create_users :: "services \<Rightarrow> (nat \<Rightarrow> string) \<Rightarrow> bool" where
  "test_rbac_only_admin_with_create_can_create_users S salts =
     (let viewer_ctx = \<lparr>caller_role = Viewer, caller_permissions = permissions_all\<rparr>;
          admin_no_create_ctx = \<lparr>caller_role = Admin, caller_permissions = MODIFY OR DELETE\<rparr>;
          admin_create_ctx = \<lparr>caller_role = Admin, caller_permissions = CREATE\<rparr>;
          (err_viewer, db) = create_user S no_faults (salts 0) viewer_ctx ''user1'' ''ValidPassword123!'' Viewer
                               NONE True setup_test_db;
          (err_admin, db) = create_user S no_faults (salts 1) admin_no_create_ctx ''user2'' ''ValidPassword123!''
                              Viewer NONE True db;
          (res, db) = create_user S no_faults (salts 2) admin_create_ctx ''user3'' ''ValidPassword123!'' Viewer
                        NONE True db
      in err_viewer = Inl LackingPermission \<and> err_admin = Inl LackingPermission \<and> res = Inr ())"

definition test_crud_rename_user_enforces_unique_constraint :: "services \<Rightarrow> (nat \<Rightarrow> string) \<Rightarrow> bool" where
  "test_crud_rename_user_enforces_unique_constraint S salts =
     (let (alpha, db) = create_user S no_faults (salts 0) admin_ctx ''alpha'' ''ValidPassword123!'' Viewer
                          NONE True setup_test_db;
          (beta, db) = create_user S no_faults (salts 1) admin_ctx ''beta'' ''ValidPassword123!'' Viewer
                         NONE True db;
          (err, db) = change_username no_faults admin_ctx ''alpha'' ''beta'' db
      in alpha = Inr () \<and> beta = Inr () \<and> err = Inl (UserExists ''beta''))"

definition is_weak_password :: "(user_error, unit) result \<Rightarrow> bool" where
  "is_weak_password r = (case r of Inl (WeakPassword _) \<Rightarrow> True | _ \<Rightarrow> False)"

definition test_security_weak_passwords_are_rejected :: "services \<Rightarrow> (nat \<Rightarrow> string) \<Rightarrow> bool" where
  "test_security_weak_passwords_are_rejected S salts =
     (let (err_short, db) = create_user S no_faults (salts 0) admin_ctx ''user1'' ''short'' Viewer
                              NONE True setup_test_db;
          (err_dict, db) = create_user S no_faults (salts 1) admin_ctx ''user2'' ''password123'' Viewer
                             NONE True db
      in is_weak_password err_short \<and> is_weak_password err_dict)"

definition test_crud_operations_on_nonexistent_user_yield_not_found :: "services \<Rightarrow> (nat \<Rightarrow> string) \<Rightarrow> bool" where
  "test_crud_operations_on_nonexistent_user_yield_not_found S salts =
     (let ghost = ''ghost_user'';
          (err_mod, db) = modify_user S no_faults (salts 0) admin_ctx ghost Viewer NONE 1 None setup_test_db;
          (err_del, db) = delete_user no_faults ghost admin_ctx db;
          (err_ren, db) = change_username no_faults admin_ctx ghost ''new_ghost'' db
      in err_mod = Inl (NotFound ghost) \<and> err_del = Inl (NotFound ghost) \<and> err_ren = Inl (NotFound ghost))"

definition test_concurrency_race_condition_on_user_creation :: "services \<Rightarrow> (nat \<Rightarrow> string) \<Rightarrow> bool" where
  "test_concurrency_race_condition_on_user_creation S salts =
     (let results = fst (create_all S no_faults admin_ctx ''concurrent_user'' ''ValidPassword123!'' Viewer
                           NONE True (map salts [0..<10]) setup_test_db);
          successes = length (filter (\<lambda>r. case r of Inr _ \<Rightarrow> True | Inl _ \<Rightarrow> False) results);
          exists_errors = length (filter (\<lambda>r. case r of Inl (UserExists _) \<Rightarrow> True | _ \<Rightarrow> False) results)
      in successes = 1 \<and> exists_errors = 9 \<and> length results = successes + exists_errors)"

definition test_concurrency_race_condition_on_bootstrap ::
    "services \<Rightarrow> (nat \<Rightarrow> string) \<Rightarrow> int \<Rightarrow> nat list \<Rightarrow> bool" where
  "test_concurrency_race_condition_on_bootstrap S salts now schedule =
     (case run_bootstraps S no_faults salts now schedule setup_test_db of
        (tasks, db) \<Rightarrow> list_all (\<lambda>i. tasks i = Returned (Inr ())) [0..<5] \<and> length (users db) = 1)"

definition test_rbac_modify_rename_delete_requires_exact_permissions :: "services \<Rightarrow> (nat \<Rightarrow> string) \<Rightarrow> bool" where
  "test_rbac_modify_rename_delete_requires_exact_permissions S salts =
     (let target = ''target_user'';
          no_mod_del_ctx = \<lparr>caller_role = Admin, caller_permissions = CREATE\<rparr>;
          (created, db) = create_user S no_faults (salts 0) admin_ctx target ''ValidPassword123!'' Viewer
                            NONE True setup_test_db;
          (err_mod, db) = modify_user S no_faults (salts 1) no_mod_del_ctx target Admin NONE 1 None db;
          (err_ren, db) = change_username no_faults no_mod_del_ctx target ''new_name'' db;
          (err_del, db) = delete_user no_faults target no_mod_del_ctx db
      in created = Inr () \<and> err_mod = Inl LackingPermission \<and> err_ren = Inl LackingPermission \<and>
         err_del = Inl LackingPermission)"

section \<open>They pass\<close>

lemma admin_ctx_may [simp]:
  "may admin_ctx CREATE" "may admin_ctx MODIFY" "may admin_ctx DELETE"
  by (simp_all add: admin_ctx_def may_def flags_contains_def permissions_all_eq CREATE_def MODIFY_def DELETE_def)

lemma test_passwords:
  "validate_password ''ValidPassword123!'' = Inr ()"
  "is_weak_password (Inl (WeakPassword t))"
  by (code_simp, simp add: is_weak_password_def)

lemma not_may:
  "\<not> may \<lparr>caller_role = Viewer, caller_permissions = p\<rparr> q"
  "\<not> may \<lparr>caller_role = Admin, caller_permissions = MODIFY OR DELETE\<rparr> CREATE"
  "\<not> may \<lparr>caller_role = Admin, caller_permissions = CREATE\<rparr> MODIFY"
  "\<not> may \<lparr>caller_role = Admin, caller_permissions = CREATE\<rparr> DELETE"
  "may \<lparr>caller_role = Admin, caller_permissions = CREATE\<rparr> CREATE"
  by (simp_all add: may_def flags_contains_def CREATE_def MODIFY_def DELETE_def)

lemmas test_db = Let_def setup_test_db_def empty_database_def create_user_def internal_insert_user_def
  hash_password_def insert_user_row_def user_check_def NONE_def test_passwords not_may

lemma subnet_test: "test_subnet_mutations_require_rbac_permissions"
  unfolding test_subnet_mutations_require_rbac_permissions_def by code_simp

lemma weak_test: "test_security_weak_passwords_are_rejected S salts"
proof -
  have "validate_password ''short'' = Inl (WeakPassword ''Password must be at least 12 characters long.'')"
    and "validate_password ''password123'' = Inl (WeakPassword ''Password must be at least 12 characters long.'')"
    by code_simp+
  then show ?thesis by (simp add: test_security_weak_passwords_are_rejected_def test_db)
qed

lemma ghost_test: "test_crud_operations_on_nonexistent_user_yield_not_found S salts"
  by (simp add: test_crud_operations_on_nonexistent_user_yield_not_found_def test_db modify_user_def delete_user_def
      change_username_def update_users_def sql_delete_def unique_key_def)

lemma rbac_create_test:
  assumes "\<And>salt pw. \<exists>h. argon_hash S salt pw = Inr h"
  shows "test_rbac_only_admin_with_create_can_create_users S salts"
proof -
  obtain h where "argon_hash S (salts 2) ''ValidPassword123!'' = Inr h" using assms by blast
  then show ?thesis by (simp add: test_rbac_only_admin_with_create_can_create_users_def test_db)
qed

lemma rename_test:
  assumes "\<And>salt pw. \<exists>h. argon_hash S salt pw = Inr h"
  shows "test_crud_rename_user_enforces_unique_constraint S salts"
proof -
  obtain h h' where "argon_hash S (salts 0) ''ValidPassword123!'' = Inr h"
    and "argon_hash S (salts 1) ''ValidPassword123!'' = Inr h'" using assms by meson
  then show ?thesis
    by (simp add: test_crud_rename_user_enforces_unique_constraint_def test_db change_username_def
        update_users_def unique_key_def)
qed

lemma rbac_change_test:
  assumes "\<And>salt pw. \<exists>h. argon_hash S salt pw = Inr h"
  shows "test_rbac_modify_rename_delete_requires_exact_permissions S salts"
proof -
  obtain h where "argon_hash S (salts 0) ''ValidPassword123!'' = Inr h" using assms by blast
  then show ?thesis
    by (simp add: test_rbac_modify_rename_delete_requires_exact_permissions_def test_db modify_user_def
        change_username_def delete_user_def)
qed

lemma creation_race_test:
  assumes "\<And>salt pw. \<exists>h. argon_hash S salt pw = Inr h"
  shows "test_concurrency_race_condition_on_user_creation S salts"
proof -
  have "\<exists>d'. create_all S no_faults admin_ctx ''concurrent_user'' ''ValidPassword123!'' Viewer NONE True
      (map salts [0..<10]) setup_test_db =
        (Inr () # replicate (length (map salts [0..<10]) - 1) (Inl (UserExists ''concurrent_user'')), d') \<and>
      length (users d') = Suc (length (users setup_test_db))"
    by (rule create_all_free) (use assms in \<open>simp_all add: test_db\<close>)
  then show ?thesis
    unfolding test_concurrency_race_condition_on_user_creation_def Let_def by auto
qed

lemma bootstrap_race_test:
  assumes "\<And>salt pw. \<exists>h. argon_hash S salt pw = Inr h" and "\<forall>i < 5. 4 \<le> count_list schedule i"
  shows "test_concurrency_race_condition_on_bootstrap S salts now schedule"
proof -
  obtain tasks d' where r: "run_bootstraps S no_faults salts now schedule setup_test_db = (tasks, d')" by fastforce
  have "(users d' = [] \<or> bootstrapped (users d')) \<and>
      (\<forall>i r. tasks i = Returned r \<longrightarrow> r = Inr () \<and> bootstrapped (users d')) \<and>
      (\<forall>i. min 4 (count_list schedule i) \<le> phase (tasks i))"
    by (rule run_bootstraps_inv [OF _ _ _ _ r]) (use assms(1) in \<open>simp_all add: test_db\<close>)
  moreover from this have "\<exists>r. tasks i = Returned r" if "i < 5" for i
    using assms(2) that phase_4 [of "tasks i"] by (auto dest!: spec [of _ i])
  ultimately have all: "tasks i = Returned (Inr ()) \<and> bootstrapped (users d')" if "i < 5" for i
    using that by metis
  then have "length (users d') = 1" using all [of 0] by (auto simp: bootstrapped_def)
  with all show ?thesis
    by (simp add: test_concurrency_race_condition_on_bootstrap_def r list_all_iff)
qed

text \<open>
  C40: Every test of the database module holds of the model: whatever library hashes the passwords, and
  in whatever order the statements of the spawned tasks run, as long as each task gets its turns.
\<close>

theorem database_tests_pass:
  assumes "\<And>salt pw. \<exists>h. argon_hash S salt pw = Inr h" and "\<forall>i < 5. 4 \<le> count_list schedule i"
  shows "test_subnet_mutations_require_rbac_permissions \<and>
    test_rbac_only_admin_with_create_can_create_users S salts \<and>
    test_crud_rename_user_enforces_unique_constraint S salts \<and>
    test_security_weak_passwords_are_rejected S salts \<and>
    test_crud_operations_on_nonexistent_user_yield_not_found S salts \<and>
    test_concurrency_race_condition_on_user_creation S salts \<and>
    test_concurrency_race_condition_on_bootstrap S salts now schedule \<and>
    test_rbac_modify_rename_delete_requires_exact_permissions S salts"
  by (intro conjI subnet_test weak_test ghost_test rbac_create_test rename_test rbac_change_test
      creation_race_test bootstrap_race_test assms)

theorem database_tests_pass_witness:
  "test_crud_rename_user_enforces_unique_constraint ref_services (\<lambda>_. ''s'') \<and>
   test_concurrency_race_condition_on_bootstrap ref_services (\<lambda>_. ''s'') 5 (concat (replicate 4 [0, 1, 2, 3, 4]))"
proof -
  have "\<exists>h. argon_hash ref_services salt pw = Inr h" for salt pw by (simp add: ref_services_def)
  moreover have "\<forall>i < 5. 4 \<le> count_list (concat (replicate 4 [0, 1, 2, 3, 4])) (i :: nat)"
    by (auto simp: numeral_eq_Suc less_Suc_eq)
  ultimately show ?thesis using database_tests_pass [of ref_services] by blast
qed

end
