(* ===== verification/Test_Harness.thy ===== *)
theory Test_Harness
  imports Sessions Routes System
begin

text \<open>
  The harness of the tests of oxidrop/src/state.rs (\<open>create_test_state\<close>, \<open>make_request\<close>) and the test
  run of the program on a frame (\<open>test_run_packet\<close> of oxidrop/src/ebpf.rs). A test is a script of requests,
  frames and looks at the maps, each with what it asserts. Requests go through the account table, the
  session library and the table of routes to the handler, as in the source. The second half of the
  theory shows that the handlers of the firewall answer from the maps and the attached program alone,
  so that a script can be run without the database.
\<close>

section \<open>Requests\<close>

text \<open>The user of a request without a mock user; the source draws the name from the clock.\<close>

definition test_admin :: "string \<Rightarrow> app_user" where
  "test_admin name = \<lparr>au_id = 0, au_username = name, au_role = Admin, au_permissions = MODIFY OR DELETE,
     au_password_hash = ''dummy_hash'', au_password_must_be_changed = False\<rparr>"

text \<open>\<open>INSERT INTO users .. ON CONFLICT(username) DO UPDATE\<close> of role and permissions.\<close>

definition upsert_test_user :: "services \<Rightarrow> app_user \<Rightarrow> database \<Rightarrow> database" where
  "upsert_test_user S u d =
     (if au_username u \<in> u_username ` set (users d)
      then d\<lparr>users := map (\<lambda>r. if u_username r = au_username u
               then r\<lparr>u_role := role_as_str (au_role u), u_action_permissions := uint (au_permissions u)\<rparr> else r)
               (users d)\<rparr>
      else d\<lparr>users := users d @ [\<lparr>u_id = new_rowid S (map u_id (users d)), u_username = au_username u,
               u_password_hash = au_password_hash u, u_role = role_as_str (au_role u),
               u_action_permissions = uint (au_permissions u), u_password_must_be_changed = 0,
               u_is_active = 1, u_last_login_at = None\<rparr>]\<rparr>)"

text \<open>
  The request of a user who has just logged in. \<open>serves\<close> is the table of \<open>config_router\<close>; a request for
  another route than its handler's is answered as axum answers an unknown path.
\<close>

definition make_request ::
    "env \<Rightarrow> served \<Rightarrow> string \<Rightarrow> http_method \<Rightarrow> string \<Rightarrow> request \<Rightarrow> app_user option \<Rightarrow> server \<Rightarrow> response \<times> server" where
  "make_request env serves name m path req mock_user s =
     (let app_user = (case mock_user of Some u \<Rightarrow> u | None \<Rightarrow> test_admin name);
          d = upsert_test_user (e_services env) app_user (s_db s);
          s = s\<lparr>s_db := d\<rparr>
      in case find (\<lambda>r. u_username r = au_username app_user) (users d) of
           None \<Rightarrow> ((S_INTERNAL_SERVER_ERROR, NoBody), s)
         | Some r \<Rightarrow>
             let session = session_user ref_resume env (Some (remember (app_user\<lparr>au_id := u_id r\<rparr>))) s
             in case serves (m, path) of
                  None \<Rightarrow> ((S_NOT_FOUND, NoBody), s)
                | Some (e, _) \<Rightarrow>
                    if endpoint_of req = Some e
                    then (case handler env req session s of (resp, _, s') \<Rightarrow> (resp, s'))
                    else ((S_NOT_FOUND, NoBody), s))"

text \<open>
  The state of a test, without a program; \<open>EbpfProgramm::test_run_packet\<close>, with the frame at an address
  that the kernel chooses and the times it reads.
\<close>

definition create_test_state :: server where
  "create_test_state =
     \<lparr>s_db = empty_database, s_feed = [],
      s_maps = empty_maps\<lparr>CONFIG := Some firewall_config_default\<rparr>, s_ebpf = None\<rparr>"

definition test_run_packet ::
    "env \<Rightarrow> net \<Rightarrow> nat \<Rightarrow> u64 \<times> u64 \<Rightarrow> u8 list \<Rightarrow> u32 \<Rightarrow> server \<Rightarrow> u32 option \<times> server" where
  "test_run_packet env N data stamps packet ingress_ifindex s =
     (case oxidrop N (e_kern env) (fst stamps) (snd stamps)
             \<lparr>ctx_data = data, ctx_packet = packet, ctx_ingress_ifindex = ingress_ifindex\<rparr> (s_maps s) of
        (result, m) \<Rightarrow> (result, s\<lparr>s_maps := m\<rparr>))"

section \<open>Scripts\<close>

datatype test_step =
  Call http_method string request "response \<Rightarrow> bool"
| Frame "u8 list option" u32 u32
| Look "maps \<Rightarrow> bool"

text \<open>
  The \<open>n\<close>-th step uses the \<open>n\<close>-th name and the \<open>n\<close>-th times. A frame that could not be built
  (a panic of its builder) fails the test.
\<close>

fun passes ::
    "env \<Rightarrow> served \<Rightarrow> net \<Rightarrow> nat \<Rightarrow> (nat \<Rightarrow> string) \<Rightarrow> (nat \<Rightarrow> u64 \<times> u64) \<Rightarrow> nat \<Rightarrow> test_step list \<Rightarrow> server \<Rightarrow> bool" where
  "passes env serves N data names clock n [] s = True"
| "passes env serves N data names clock n (Call m path req ok # t) s =
     (case make_request env serves (names n) m path req None s of
        (resp, s') \<Rightarrow> ok resp \<and> passes env serves N data names clock (Suc n) t s')"
| "passes env serves N data names clock n (Frame built ingress_ifindex expected # t) s =
     (case built of
        None \<Rightarrow> False
      | Some packet \<Rightarrow>
          (case test_run_packet env N data (clock n) packet ingress_ifindex s of
             (result, s') \<Rightarrow> result = Some expected \<and> passes env serves N data names clock (Suc n) t s'))"
| "passes env serves N data names clock n (Look ok # t) s \<longleftrightarrow>
     ok (s_maps s) \<and> passes env serves N data names clock (Suc n) t s"

section \<open>The firewall without its database\<close>

definition core :: "server \<Rightarrow> server" where
  "core s = s\<lparr>s_feed := [], s_db := empty_database\<rparr>"

lemma core_sel [simp]:
  "s_maps (core s) = s_maps s" "s_ebpf (core s) = s_ebpf s" "core (core s) = core s"
  by (simp_all add: core_def)

lemma core_eqI: "s_maps s = s_maps s' \<Longrightarrow> s_ebpf s = s_ebpf s' \<Longrightarrow> core s = core s'"
  by (simp add: core_def)

lemma core_upd [simp]:
  "core (s\<lparr>s_maps := m\<rparr>) = (core s)\<lparr>s_maps := m\<rparr>"
  "core (s\<lparr>s_ebpf := e\<rparr>) = (core s)\<lparr>s_ebpf := e\<rparr>"
  "core (s\<lparr>s_db := d\<rparr>) = core s"
  "core (s\<lparr>s_db := d, s_maps := m\<rparr>) = (core s)\<lparr>s_maps := m\<rparr>"
  "core (s\<lparr>s_maps := m, s_db := d\<rparr>) = (core s)\<lparr>s_maps := m\<rparr>"
  by (simp_all add: core_def)

lemma core_log [simp]: "core (log_event env l m a s) = core s"
  by (rule core_eqI) simp_all

lemma config_get_core [simp]: "config_get env (core s) = config_get env s"
  by (simp add: config_get_def)

lemma config_set_core [simp]: "config_set env c (core s) = map_option core (config_set env c s)"
  by (simp add: config_set_def)

lemma core_save_config [simp]: "core (snd (save_config env c s)) = core s"
  by (rule core_eqI) simp_all

lemma try_config_set_core [simp]: "try_config_set env c (core s) = core (try_config_set env c s)"
  by (simp add: try_config_set_def split: option.split)

lemma ebpf_reboot_core [simp]: "ebpf_reboot env c e (core s) = apsnd core (ebpf_reboot env c e s)"
  by (simp add: ebpf_reboot_def split: prod.split)

text \<open>A handler that depends on the core of the state, and on the session's caller only.\<close>

definition on_core :: "(app_user option \<Rightarrow> server \<Rightarrow> response \<times> server) \<Rightarrow> bool" where
  "on_core handle \<longleftrightarrow>
     (\<forall>u u' s. caller_of u = caller_of u' \<longrightarrow>
        apsnd core (handle (Some u) s) = apsnd core (handle (Some u') (core s)) \<and>
        users (s_db (snd (handle (Some u) s))) = users (s_db s))"

lemma on_coreD:
  assumes "on_core handle" and "caller_of u = caller_of u'"
  shows "apsnd core (handle (Some u) s) = apsnd core (handle (Some u') (core s))"
    and "users (s_db (snd (handle (Some u) s))) = users (s_db s)"
  using assms unfolding on_core_def by blast+

lemma on_core_guarded:
  assumes "\<And>u u' s. caller_of u = caller_of u' \<Longrightarrow> apsnd core (act u s) = apsnd core (act u' (core s))"
    and "\<And>u s. users (s_db (snd (act u s))) = users (s_db s)"
  shows "on_core (guarded permission act)"
  unfolding on_core_def
proof (intro allI impI conjI)
  fix u u' s
  assume c: "caller_of u = caller_of u'"
  then show "apsnd core (guarded permission act (Some u) s) = apsnd core (guarded permission act (Some u') (core s))"
    using assms(1) [OF c, of s] by (simp add: guarded_def del: apsnd_conv) simp
next
  fix u u' s
  show "users (s_db (snd (guarded permission act (Some u) s))) = users (s_db s)"
    using assms(2) [of u s] by (simp add: guarded_def)
qed

lemma commit_config_users: "users (s_db (snd (commit_config env u c s))) = users (s_db s)"
  by (auto simp: commit_config_def config_set_def save_config_def save_firewall_config_def
      split: option.split prod.split sum.split)

lemma commit_config_core:
  "apsnd core (commit_config env u c s) = apsnd core (commit_config env u' c (core s))"
  by (auto simp: commit_config_def config_set_def save_config_def save_firewall_config_def
      split: option.split prod.split sum.split)

lemma commit_config_cong:
  assumes "core s = core s'"
  shows "apsnd core (commit_config env u c s) = apsnd core (commit_config env u' c s')"
  using commit_config_core [of env u c s u] commit_config_core [of env u' c s' u] assms by simp

lemma ebpf_reboot_users: "users (s_db (snd (ebpf_reboot env c e s))) = users (s_db s)"
  by (simp add: ebpf_reboot_def split: prod.split)

lemma save_config_users: "users (s_db (snd (save_config env c s))) = users (s_db s)"
  by (auto simp: save_config_def save_firewall_config_def split: sum.split)

lemma try_config_set_users: "users (s_db (try_config_set env c s)) = users (s_db s)"
  by (auto simp: try_config_set_def config_set_def)

lemma update_config_core: "on_core (update_config env patch)"
  unfolding update_config_def Let_def
proof (rule on_core_guarded, goal_cases)
  case (1 u u' s)
  show ?case
    by (auto split: sum.split option.split prod.split intro!: commit_config_cong)
next
  case (2 u s)
  show ?case
    using ebpf_reboot_users [of env _ _ s]
    by (auto simp: commit_config_users save_config_users try_config_set_users
        split: sum.split option.split prod.split) (metis snd_conv)+
qed

lemma table_handlers_core:
  "on_core (modify_allow_list_v4 env k4 st)" "on_core (clear_allow_list_v4 env p4)"
  "on_core (modify_allow_list_v6 env k6 st)" "on_core (clear_allow_list_v6 env p6)"
  "on_core (modify_packet_counts_v4 env k4 b)" "on_core (clear_packet_counts_v4 env p4)"
  "on_core (modify_packet_counts_v6 env k6 b)" "on_core (clear_packet_counts_v6 env p6)"
  unfolding modify_allow_list_v4_def clear_allow_list_v4_def modify_allow_list_v6_def clear_allow_list_v6_def
    modify_packet_counts_v4_def clear_packet_counts_v4_def modify_packet_counts_v6_def clear_packet_counts_v6_def
  by (rule on_core_guarded; simp split: option.split)+

lemma subnet_handlers_core:
  "on_core (modify_subnet_matching_v4 env n4 p a)" "on_core (remove_subnet_matching_v4 env n4 p)"
  "on_core (modify_subnet_matching_v6 env n6 p a)" "on_core (remove_subnet_matching_v6 env n6 p)"
  unfolding modify_subnet_matching_v4_def remove_subnet_matching_v4_def
    modify_subnet_matching_v6_def remove_subnet_matching_v6_def
  by (rule on_core_guarded;
      auto simp: Let_def save_subnet_v4_def save_subnet_v6_def delete_subnet_v4_def delete_subnet_v6_def
        require_subnet_permission_def split: option.split prod.split sum.split)+

text \<open>The requests of the tests: configuration, tables of flows, subnet rules.\<close>

fun firewall_request :: "request \<Rightarrow> bool" where
  "firewall_request (Query q) \<longleftrightarrow>
     q \<in> {GetConfig, GetAllowListV4, GetAllowListV6, GetPacketCountsV4, GetPacketCountsV6}"
| "firewall_request (Change (CreateUser _)) \<longleftrightarrow> False"
| "firewall_request (Change (ModifyUser _)) \<longleftrightarrow> False"
| "firewall_request (Change (DeleteUser _)) \<longleftrightarrow> False"
| "firewall_request (Change (RenameUser _)) \<longleftrightarrow> False"
| "firewall_request (Change ShutdownEbpf) \<longleftrightarrow> False"
| "firewall_request (Change RestartEbpf) \<longleftrightarrow> False"
| "firewall_request (Change _) \<longleftrightarrow> True"
| "firewall_request (UpdateConfig _) \<longleftrightarrow> True"
| "firewall_request _ \<longleftrightarrow> False"

text \<open>Response and state of a handler, without the session.\<close>

definition answer :: "env \<Rightarrow> request \<Rightarrow> app_user \<Rightarrow> server \<Rightarrow> response \<times> server" where
  "answer env req u s = (case handler env req (Some u) s of (resp, _, s') \<Rightarrow> (resp, s'))"

lemma handle_change_core: "firewall_request (Change c) \<Longrightarrow> on_core (handle_change env c)"
  using table_handlers_core subnet_handlers_core by (cases c) simp_all

lemma answer_core:
  assumes "firewall_request req" and "caller_of u = caller_of u'"
  shows "apsnd core (answer env req u s) = apsnd core (answer env req u' (core s))"
    and "users (s_db (snd (answer env req u s))) = users (s_db s)"
proof -
  have "apsnd core (answer env req u s) = apsnd core (answer env req u' (core s)) \<and>
    users (s_db (snd (answer env req u s))) = users (s_db s)"
  proof (cases req)
    case (Query q)
    then show ?thesis
      using assms(1) by (auto simp: answer_def get_config_def get_allow_list_v4_def get_allow_list_v6_def
          get_packet_counts_v4_def get_packet_counts_v6_def)
  next
    case (Change c)
    with assms(1) have "on_core (handle_change env c)" by (intro handle_change_core) simp
    from on_coreD [OF this assms(2), of s] show ?thesis
      by (simp add: answer_def Change prod_eq_iff split_beta)
  next
    case (UpdateConfig j)
    have "apsnd core (update_config env p (Some u) s) = apsnd core (update_config env p (Some u') (core s)) \<and>
        users (s_db (snd (update_config env p (Some u) s))) = users (s_db s)" for p
      using on_coreD [OF update_config_core assms(2)] by blast
    then show ?thesis
      by (simp add: answer_def UpdateConfig prod_eq_iff split_beta split: sum.split)
  qed (use assms(1) in simp_all)
  then show "apsnd core (answer env req u s) = apsnd core (answer env req u' (core s))"
    and "users (s_db (snd (answer env req u s))) = users (s_db s)" by simp_all
qed

section \<open>A request of a fresh user\<close>

definition test_row :: "services \<Rightarrow> string \<Rightarrow> database \<Rightarrow> user_row" where
  "test_row S name d = \<lparr>u_id = new_rowid S (map u_id (users d)), u_username = name,
     u_password_hash = ''dummy_hash'', u_role = ''admin'', u_action_permissions = 6,
     u_password_must_be_changed = 0, u_is_active = 1, u_last_login_at = None\<rparr>"

lemma upsert_fresh:
  "name \<notin> u_username ` set (users d) \<Longrightarrow>
   upsert_test_user S (test_admin name) d = d\<lparr>users := users d @ [test_row S name d]\<rparr>"
  by (simp add: upsert_test_user_def test_admin_def test_row_def MODIFY_def DELETE_def)

lemma find_snoc: "\<forall>x \<in> set xs. \<not> P x \<Longrightarrow> P y \<Longrightarrow> find P (xs @ [y]) = Some y"
  by (induction xs) auto

definition tester :: app_user where
  "tester = \<lparr>au_id = 0, au_username = [], au_role = Admin, au_permissions = 6, au_password_hash = [],
     au_password_must_be_changed = False\<rparr>"

lemma make_request_core:
  assumes "services_ok (e_services env)" and "e_faults env = no_faults"
    and "name \<notin> u_username ` set (users (s_db s))"
    and "serves (m, path) = Some (e, ls)" and "endpoint_of req = Some e" and "firewall_request req"
  shows "apsnd core (make_request env serves name m path req None s) = apsnd core (answer env req tester (core s))"
    and "users (s_db (snd (make_request env serves name m path req None s))) =
      users (s_db s) @ [test_row (e_services env) name (s_db s)]"
proof -
  let ?r = "test_row (e_services env) name (s_db s)"
  let ?s = "s\<lparr>s_db := (s_db s)\<lparr>users := users (s_db s) @ [?r]\<rparr>\<rparr>"
  let ?u = "row_to_user ?r"
  have "find (\<lambda>r. u_username r = name) (users (s_db s) @ [?r]) = Some ?r"
    using assms(3) by (intro find_snoc) (auto simp: test_row_def)
  moreover have "u_id ?r \<notin> u_id ` set (users (s_db s))"
    using new_rowid_fresh [OF assms(1), of "map u_id (users (s_db s))"] by (simp add: test_row_def)
  then have "\<forall>x \<in> set (users (s_db s)). u_id x \<noteq> u_id ?r" by (metis imageI)
  then have "find (\<lambda>u. u_id u = u_id ?r \<and> u_is_active u = 1) (users (s_db s) @ [?r]) = Some ?r"
    by (intro find_snoc) (simp_all add: test_row_def)
  then have "session_user ref_resume env (Some (remember ((test_admin name)\<lparr>au_id := u_id ?r\<rparr>))) ?s = Some ?u"
    by (simp add: session_user_def ref_resume_def get_user_def assms(2) remember_def user_id_def
        session_auth_hash_def test_admin_def row_to_user_def) (simp add: test_row_def)
  ultimately have m: "make_request env serves name m path req None s = answer env req ?u ?s"
    using assms(4,5) by (simp add: make_request_def upsert_fresh [OF assms(3)] answer_def)
      (simp add: test_admin_def)
  have c: "caller_of ?u = caller_of tester"
    by (simp add: caller_of_def row_to_user_def test_row_def tester_def permissions_truncate_def
        permissions_all_eq row_role_def)
  have "core ?s = core s" by (simp add: core_def)
  with answer_core [OF assms(6) c] show
    "apsnd core (make_request env serves name m path req None s) = apsnd core (answer env req tester (core s))"
    "users (s_db (snd (make_request env serves name m path req None s))) = users (s_db s) @ [?r]"
    by (simp_all add: m)
qed

section \<open>Scripts on the core\<close>

fun core_passes ::
    "env \<Rightarrow> served \<Rightarrow> net \<Rightarrow> nat \<Rightarrow> (nat \<Rightarrow> u64 \<times> u64) \<Rightarrow> nat \<Rightarrow> test_step list \<Rightarrow> server \<Rightarrow> bool" where
  "core_passes env serves N data clock n [] s = True"
| "core_passes env serves N data clock n (Call m path req ok # t) s \<longleftrightarrow>
     firewall_request req \<and> map_option fst (serves (m, path)) = endpoint_of req \<and>
     (case answer env req tester s of
        (resp, s') \<Rightarrow> ok resp \<and> core_passes env serves N data clock (Suc n) t (core s'))"
| "core_passes env serves N data clock n (Frame built ingress_ifindex expected # t) s =
     (case built of
        None \<Rightarrow> False
      | Some packet \<Rightarrow>
          (case test_run_packet env N data (clock n) packet ingress_ifindex s of
             (result, s') \<Rightarrow> result = Some expected \<and> core_passes env serves N data clock (Suc n) t s'))"
| "core_passes env serves N data clock n (Look ok # t) s \<longleftrightarrow>
     ok (s_maps s) \<and> core_passes env serves N data clock (Suc n) t s"

lemma test_run_core:
  "test_run_packet env N data stamps packet i (core s) = apsnd core (test_run_packet env N data stamps packet i s)"
  by (simp add: test_run_packet_def split: prod.split)

lemma test_run_users: "users (s_db (snd (test_run_packet env N data stamps packet i s))) = users (s_db s)"
  by (simp add: test_run_packet_def split: prod.split)

lemma passes_core:
  assumes "services_ok (e_services env)" and "e_faults env = no_faults" and "inj names"
    and "\<forall>i \<ge> n. names i \<notin> u_username ` set (users (s_db s))"
    and "core_passes env serves N data clock n t (core s)"
  shows "passes env serves N data names clock n t s"
  using assms(4,5)
proof (induction t arbitrary: n s)
  case (Cons a t)
  show ?case
  proof (cases a)
    case (Call m path req ok)
    obtain resp s' where r: "make_request env serves (names n) m path req None s = (resp, s')" by fastforce
    obtain resp' c where c: "answer env req tester (core s) = (resp', c)" by fastforce
    have f: "firewall_request req" and e: "map_option fst (serves (m, path)) = endpoint_of req"
      and ok: "ok resp'" and t: "core_passes env serves N data clock (Suc n) t (core c)"
      using Cons.prems(2) c by (simp_all add: Call)
    from f have "endpoint_of req \<noteq> None" by (cases req) auto
    with e obtain ep ls where s: "serves (m, path) = Some (ep, ls)" "endpoint_of req = Some ep" by auto
    have fresh: "names n \<notin> u_username ` set (users (s_db s))" using Cons.prems(1) by simp
    from make_request_core [where serves = serves and m = m and path = path and e = ep and ls = ls,
        OF assms(1,2) fresh s f] r c
    have eq: "resp = resp'" "core s' = core c"
      and us: "users (s_db s') = users (s_db s) @ [test_row (e_services env) (names n) (s_db s)]" by simp_all
    have "names i \<notin> u_username ` set (users (s_db s'))" if "Suc n \<le> i" for i
    proof -
      have "names i \<noteq> names n" using that injD [OF assms(3), of i n] by auto
      with Cons.prems(1) that show ?thesis by (simp add: us test_row_def)
    qed
    then have "passes env serves N data names clock (Suc n) t s'"
      using Cons.IH [of "Suc n" s'] t eq by simp
    then show ?thesis using ok eq by (simp add: Call r)
  next
    case (Frame built i expected)
    with Cons.prems(2) obtain packet where packet: "built = Some packet" by (cases built) simp_all
    obtain result s' where r: "test_run_packet env N data (clock n) packet i s = (result, s')" by fastforce
    have "users (s_db s') = users (s_db s)"
      using test_run_users [of env N data "clock n" packet i s] by (simp add: r)
    then show ?thesis
      using Cons.IH [of "Suc n" s'] Cons.prems by (simp add: Frame packet r test_run_core)
  next
    case (Look ok)
    then show ?thesis using Cons.IH [of "Suc n" s] Cons.prems by simp
  qed
qed simp

end
