(* ===== verification/Server_Tests.thy ===== *)
theory Server_Tests
  imports Test_Harness
begin

text \<open>
  The tests of the endpoints in oxidrop/src/state.rs as scripts. A body is given by the request it
  decodes to, an assertion on the parsed response is a predicate on the response's value. They are run
  on the reference maps and tables of \<open>ref_env\<close>, by the axum router of the contract, whatever the names
  of the test's users.
\<close>

section \<open>Requests of the tests\<close>

definition is_ok :: "response \<Rightarrow> bool" where
  "is_ok r \<longleftrightarrow> fst r = S_OK"

definition json_with :: "(firewall_config \<Rightarrow> bool) \<Rightarrow> response \<Rightarrow> bool" where
  "json_with P r \<longleftrightarrow> is_ok r \<and> (case snd r of ConfigJson c \<Rightarrow> P c | _ \<Rightarrow> False)"

text \<open>The JSON objects of the tests: the fields they name, on top of the empty object.\<close>

definition no_fields :: json_patch where
  "no_fields = \<lparr>j_tcp_profile = None, j_udp_profile = None, j_icmp_profile = None, j_default_profile = None,
     j_protocol_allowed = None, j_ddos_activated = None, j_subnet_activated = None,
     j_incoming_ethernet_adapter = None, j_output_ethernet_adapter = None\<rparr>"

definition test_key4 :: ipv4_packet where
  "test_key4 = ipv4_packet_new 16843264 16843265 12345 80 6"

definition test_key6 :: ipv6_packet where
  "test_key6 = ipv6_packet_new (16843264, 0, 0, 1) (16843265, 0, 0, 1) 12345 80 6"

section \<open>The tests\<close>

definition config_patch_deserializes_nullable_adapters :: bool where
  "config_patch_deserializes_nullable_adapters \<longleftrightarrow>
     (case config_patch_of_json (no_fields\<lparr>j_incoming_ethernet_adapter := Some None,
        j_output_ethernet_adapter := Some (Some 7)\<rparr>) of
        Inr patch \<Rightarrow> p_incoming_ethernet_adapter patch = Some None \<and> p_output_ethernet_adapter patch = Some (Some 7)
      | Inl _ \<Rightarrow> False) \<and>
     (case config_patch_of_json (no_fields\<lparr>j_incoming_ethernet_adapter := Some (Some 3),
        j_output_ethernet_adapter := Some None\<rparr>) of
        Inr patch \<Rightarrow> p_incoming_ethernet_adapter patch = Some (Some 3) \<and> p_output_ethernet_adapter patch = Some None
      | Inl _ \<Rightarrow> False) \<and>
     (case config_patch_of_json no_fields of
        Inr patch \<Rightarrow> p_incoming_ethernet_adapter patch = None \<and> p_output_ethernet_adapter patch = None
      | Inl _ \<Rightarrow> False) \<and>
     (case config_patch_of_json (no_fields\<lparr>j_protocol_allowed := Some (Some 18)\<rparr>) of
        Inr patch \<Rightarrow> p_protocol_allowed patch = Some (IPV4 OR IPV6)
      | Inl _ \<Rightarrow> False) \<and>
     serialize_protocol_allowed (protocol_allowed firewall_config_default) = 18"

definition tcp_patch :: json_patch where
  "tcp_patch = no_fields\<lparr>j_tcp_profile := Some (Some \<lparr>rate_shift = 21, burst = 500\<rparr>),
     j_ddos_activated := Some (Some False)\<rparr>"

definition tcp_patched :: "firewall_config \<Rightarrow> bool" where
  "tcp_patched c \<longleftrightarrow> rate_shift (tcp_profile c) = 21 \<and> burst (tcp_profile c) = 500 \<and> \<not> ddos_activated c"

definition test_config_endpoint :: "test_step list" where
  "test_config_endpoint =
     [Call HttpGet ''/'' (Query GetConfig)
        (json_with (\<lambda>c. ddos_activated c \<and> protocol_allowed c = IPV4 OR IPV6)),
      Call HttpPost ''/'' (UpdateConfig tcp_patch) is_ok,
      Call HttpGet ''/'' (Query GetConfig) (json_with tcp_patched)]"

definition test_allow_list_v4_lifecycle :: "test_step list" where
  "test_allow_list_v4_lifecycle =
     [Call HttpPost ''/allow_list/v4''
        (Change (ModifyAllowListV4 test_key4 \<lparr>als_action = Allow, last_seen = 1000000000\<rparr>)) is_ok,
      Call HttpGet ''/allow_list/v4'' (Query GetAllowListV4) (\<lambda>r. is_ok r \<and>
        (case snd r of
           Allow4Json [(key, state, _)] \<Rightarrow> source_addr4 key = 16843264 \<and> als_action state = Allow
         | _ \<Rightarrow> False)),
      Call HttpDelete ''/allow_list/v4'' (Change (ClearAllowListV4 None)) is_ok,
      Call HttpGet ''/allow_list/v4'' (Query GetAllowListV4) (\<lambda>r. r = (S_OK, Allow4Json []))]"

definition test_subnet_matching_v4 :: "kern \<Rightarrow> test_step list" where
  "test_subnet_matching_v4 K =
     (let key = (24, to_be_bytes32 16843264) in
      [Call HttpPost ''/subnet/v4'' (Change (ModifySubnetV4 16843264 24 Allow)) is_ok,
       Look (\<lambda>m. lpm_get_v4 K (SUBNET_MATCHING_V4 m) key = Some Allow),
       Call HttpDelete ''/subnet/v4'' (Change (RemoveSubnetV4 16843264 24)) is_ok,
       Look (\<lambda>m. lpm_get_v4 K (SUBNET_MATCHING_V4 m) key = None)])"

definition test_rate_limiting_state :: "test_step list" where
  "test_rate_limiting_state =
     [Call HttpPost ''/packet_counts/v4''
        (Change (ModifyPacketCountsV4 test_key4 \<lparr>tokens = 100, last_update = 1000000000\<rparr>)) is_ok,
      Call HttpGet ''/packet_counts/v4'' (Query GetPacketCountsV4) (\<lambda>r. is_ok r \<and>
        (case snd r of Counts4Json [(_, bucket, _)] \<Rightarrow> tokens bucket = 100 | _ \<Rightarrow> False)),
      Call HttpDelete ''/packet_counts/v4'' (Change (ClearPacketCountsV4 None)) is_ok,
      Call HttpGet ''/packet_counts/v4'' (Query GetPacketCountsV4) (\<lambda>r. r = (S_OK, Counts4Json []))]"

text \<open>The first request of this test has no JSON for its body, so axum rejects it before the handler.\<close>

definition test_invalid_config_updates :: "kern \<Rightarrow> test_step list" where
  "test_invalid_config_updates K =
     [Call HttpPost ''/'' (UpdateConfig (no_fields\<lparr>j_tcp_profile := Some (Some \<lparr>rate_shift = 1000, burst = 500\<rparr>)\<rparr>))
        (\<lambda>r. \<not> is_ok r),
      Call HttpPost ''/subnet/v4'' (Change (ModifySubnetV4 16843264 33 Allow)) (\<lambda>r. \<not> is_ok r),
      Look (\<lambda>m. lpm_get_v4 K (SUBNET_MATCHING_V4 m) (33, to_be_bytes32 16843264) = None)]"

text \<open>Ten requests at once are ten requests in some order, each under the lock of the configuration.\<close>

definition concurrent_profile :: "nat \<Rightarrow> rate_profile" where
  "concurrent_profile i = \<lparr>rate_shift = 20 + of_nat i, burst = 1000 + of_nat i\<rparr>"

definition test_concurrent_config_updates :: "nat list \<Rightarrow> test_step list" where
  "test_concurrent_config_updates order =
     map (\<lambda>i. Call HttpPost ''/'' (UpdateConfig (no_fields\<lparr>j_tcp_profile := Some (Some (concurrent_profile i))\<rparr>)) is_ok)
       order @
     [Call HttpGet ''/'' (Query GetConfig)
        (json_with (\<lambda>c. list_ex (\<lambda>i. tcp_profile c = concurrent_profile i) [0..<10]))]"

definition test_ipv6_allow_list :: "test_step list" where
  "test_ipv6_allow_list =
     [Call HttpPost ''/allow_list/v6''
        (Change (ModifyAllowListV6 test_key6 \<lparr>als_action = Allow, last_seen = 1000000000\<rparr>)) is_ok,
      Call HttpGet ''/allow_list/v6'' (Query GetAllowListV6) (\<lambda>r. is_ok r \<and>
        (case snd r of
           Allow6Json [(key, state, _)] \<Rightarrow> source_addr6 key = (16843264, 0, 0, 1) \<and> als_action state = Allow
         | _ \<Rightarrow> False)),
      Call HttpDelete ''/allow_list/v6'' (Change (ClearAllowListV6 None)) is_ok,
      Call HttpGet ''/allow_list/v6'' (Query GetAllowListV6) (\<lambda>r. r = (S_OK, Allow6Json []))]"

definition test_subnet_matching_v6 :: "kern \<Rightarrow> test_step list" where
  "test_subnet_matching_v6 K =
     (let key = (96, ipv6_network_bytes (16843264, 0, 0, 0)) in
      [Call HttpPost ''/subnet/v6'' (Change (ModifySubnetV6 (16843264, 0, 0, 0) 96 Allow)) is_ok,
       Look (\<lambda>m. lpm_get_v6 K (SUBNET_MATCHING_V6 m) key = Some Allow),
       Call HttpDelete ''/subnet/v6'' (Change (RemoveSubnetV6 (16843264, 0, 0, 0) 96)) is_ok,
       Look (\<lambda>m. lpm_get_v6 K (SUBNET_MATCHING_V6 m) key = None)])"

definition test_packet_counts_v6 :: "test_step list" where
  "test_packet_counts_v6 =
     [Call HttpPost ''/packet_counts/v6''
        (Change (ModifyPacketCountsV6 test_key6 \<lparr>tokens = 100, last_update = 1000000000\<rparr>)) is_ok,
      Call HttpGet ''/packet_counts/v6'' (Query GetPacketCountsV6) (\<lambda>r. is_ok r \<and>
        (case snd r of Counts6Json [(_, bucket, _)] \<Rightarrow> tokens bucket = 100 | _ \<Rightarrow> False)),
      Call HttpDelete ''/packet_counts/v6'' (Change (ClearPacketCountsV6 None)) is_ok,
      Call HttpGet ''/packet_counts/v6'' (Query GetPacketCountsV6) (\<lambda>r. r = (S_OK, Counts6Json []))]"

definition test_boundary_conditions :: "kern \<Rightarrow> test_step list" where
  "test_boundary_conditions K =
     (let ones = 4294967295 in
      [Call HttpPost ''/subnet/v4'' (Change (ModifySubnetV4 ones 32 Deny)) is_ok,
       Look (\<lambda>m. lpm_get_v4 K (SUBNET_MATCHING_V4 m) (32, replicate 4 255) = Some Deny),
       Call HttpPost ''/subnet/v6'' (Change (ModifySubnetV6 (ones, ones, ones, ones) 128 Deny)) is_ok,
       Look (\<lambda>m. lpm_get_v6 K (SUBNET_MATCHING_V6 m) (128, replicate 16 255) = Some Deny)])"

definition test_empty_operations :: "test_step list" where
  "test_empty_operations =
     [Call HttpDelete ''/allow_list/v4'' (Change (ClearAllowListV4 None)) is_ok,
      Call HttpDelete ''/packet_counts/v4'' (Change (ClearPacketCountsV4 None)) is_ok,
      Call HttpDelete ''/allow_list/v6'' (Change (ClearAllowListV6 None)) is_ok,
      Call HttpDelete ''/packet_counts/v6'' (Change (ClearPacketCountsV6 None)) is_ok]"

definition test_config_persistence :: "test_step list" where
  "test_config_persistence =
     Call HttpPost ''/'' (UpdateConfig tcp_patch) is_ok #
     replicate 5 (Call HttpGet ''/'' (Query GetConfig) (json_with tcp_patched))"

section \<open>Evaluation\<close>

lemma config_table:
  "map_of (config_router ref_axum) (HttpGet, ''/'') = Some (E_get_config, [])"
  "map_of (config_router ref_axum) (HttpPost, ''/'') = Some (E_update_config, [])"
  "map_of (config_router ref_axum) (HttpGet, ''/allow_list/v4'') = Some (E_get_allow_list_v4, [])"
  "map_of (config_router ref_axum) (HttpPost, ''/allow_list/v4'') = Some (E_modify_allow_list_v4, [])"
  "map_of (config_router ref_axum) (HttpDelete, ''/allow_list/v4'') = Some (E_clear_allow_list_v4, [])"
  "map_of (config_router ref_axum) (HttpGet, ''/allow_list/v6'') = Some (E_get_allow_list_v6, [])"
  "map_of (config_router ref_axum) (HttpPost, ''/allow_list/v6'') = Some (E_modify_allow_list_v6, [])"
  "map_of (config_router ref_axum) (HttpDelete, ''/allow_list/v6'') = Some (E_clear_allow_list_v6, [])"
  "map_of (config_router ref_axum) (HttpGet, ''/packet_counts/v4'') = Some (E_get_packet_counts_v4, [])"
  "map_of (config_router ref_axum) (HttpPost, ''/packet_counts/v4'') = Some (E_modify_packet_counts_v4, [])"
  "map_of (config_router ref_axum) (HttpDelete, ''/packet_counts/v4'') = Some (E_clear_packet_counts_v4, [])"
  "map_of (config_router ref_axum) (HttpGet, ''/packet_counts/v6'') = Some (E_get_packet_counts_v6, [])"
  "map_of (config_router ref_axum) (HttpPost, ''/packet_counts/v6'') = Some (E_modify_packet_counts_v6, [])"
  "map_of (config_router ref_axum) (HttpDelete, ''/packet_counts/v6'') = Some (E_clear_packet_counts_v6, [])"
  "map_of (config_router ref_axum) (HttpPost, ''/subnet/v4'') = Some (E_modify_subnet_v4, [])"
  "map_of (config_router ref_axum) (HttpDelete, ''/subnet/v4'') = Some (E_remove_subnet_v4, [])"
  "map_of (config_router ref_axum) (HttpPost, ''/subnet/v6'') = Some (E_modify_subnet_v6, [])"
  "map_of (config_router ref_axum) (HttpDelete, ''/subnet/v6'') = Some (E_remove_subnet_v6, [])"
  by code_simp+

text \<open>The state of a script: the maps and the attached program.\<close>

definition core_state :: "maps \<Rightarrow> ebpf_programm option \<Rightarrow> server" where
  "core_state m e = \<lparr>s_db = empty_database, s_feed = [], s_maps = m, s_ebpf = e\<rparr>"

lemma core_state_sel [simp]:
  "s_maps (core_state m e) = m" "s_ebpf (core_state m e) = e" "core (core_state m e) = core_state m e"
  "(core_state m e)\<lparr>s_maps := m'\<rparr> = core_state m' e" "(core_state m e)\<lparr>s_ebpf := e'\<rparr> = core_state m e'"
  by (simp_all add: core_state_def core_def)

lemma core_is_state: "core s = core_state (s_maps s) (s_ebpf s)"
  by (simp add: core_def core_state_def)

abbreviation "script \<equiv> core_passes ref_env (map_of (config_router ref_axum)) wire_net"

lemma tester_may [simp]: "may (caller_of tester) MODIFY" "may (caller_of tester) DELETE"
  by (simp_all add: caller_of_def tester_def may_def flags_contains_def MODIFY_def DELETE_def)

lemma ref_env_sel [simp]:
  "e_kern ref_env = ref_kern" "e_faults ref_env = no_faults" "e_config_get_ok ref_env" "e_config_set_ok ref_env"
  "e_xdp_ok ref_env" "e_attach ref_env = (\<lambda>links i. Inr (length links))" "e_services ref_env = ref_services"
  by (simp_all add: ref_env_def)

lemma script_queries [simp]:
  "CONFIG m = Some c \<Longrightarrow> script data clock n (Call HttpGet ''/'' (Query GetConfig) ok # t) (core_state m e) \<longleftrightarrow>
     ok (S_OK, ConfigJson c) \<and> script data clock (Suc n) t (core_state m e)"
  "script data clock n (Call HttpGet ''/allow_list/v4'' (Query GetAllowListV4) ok # t) (core_state m e) \<longleftrightarrow>
     ok (S_OK, Allow4Json (map_entries ref_env last_seen (ALLOW_LIST_V4 m))) \<and> script data clock (Suc n) t (core_state m e)"
  "script data clock n (Call HttpGet ''/allow_list/v6'' (Query GetAllowListV6) ok # t) (core_state m e) \<longleftrightarrow>
     ok (S_OK, Allow6Json (map_entries ref_env last_seen (ALLOW_LIST_V6 m))) \<and> script data clock (Suc n) t (core_state m e)"
  "script data clock n (Call HttpGet ''/packet_counts/v4'' (Query GetPacketCountsV4) ok # t) (core_state m e) \<longleftrightarrow>
     ok (S_OK, Counts4Json (map_entries ref_env last_update (PACKET_COUNTS_V4 m))) \<and> script data clock (Suc n) t (core_state m e)"
  "script data clock n (Call HttpGet ''/packet_counts/v6'' (Query GetPacketCountsV6) ok # t) (core_state m e) \<longleftrightarrow>
     ok (S_OK, Counts6Json (map_entries ref_env last_update (PACKET_COUNTS_V6 m))) \<and> script data clock (Suc n) t (core_state m e)"
  by (simp_all add: config_table answer_def get_config_def config_get_def get_allow_list_v4_def
      get_allow_list_v6_def get_packet_counts_v4_def get_packet_counts_v6_def)

lemma script_tables [simp]:
  "script data clock n (Call HttpPost ''/allow_list/v4'' (Change (ModifyAllowListV4 k4 a)) ok # t) (core_state m e) \<longleftrightarrow>
     ok (S_OK, NoBody) \<and> script data clock (Suc n) t
       (core_state (m\<lparr>ALLOW_LIST_V4 := (k4, a) # take (LRU_MAX_ENTRIES - 1) (del_key k4 (ALLOW_LIST_V4 m))\<rparr>) e)"
  "script data clock n (Call HttpDelete ''/allow_list/v4'' (Change (ClearAllowListV4 None)) ok # t) (core_state m e) \<longleftrightarrow>
     ok (S_OK, NoBody) \<and> script data clock (Suc n) t (core_state (m\<lparr>ALLOW_LIST_V4 := clear_entries None (ALLOW_LIST_V4 m)\<rparr>) e)"
  "script data clock n (Call HttpPost ''/allow_list/v6'' (Change (ModifyAllowListV6 k6 a)) ok # t) (core_state m e) \<longleftrightarrow>
     ok (S_OK, NoBody) \<and> script data clock (Suc n) t
       (core_state (m\<lparr>ALLOW_LIST_V6 := (k6, a) # take (LRU_MAX_ENTRIES - 1) (del_key k6 (ALLOW_LIST_V6 m))\<rparr>) e)"
  "script data clock n (Call HttpDelete ''/allow_list/v6'' (Change (ClearAllowListV6 None)) ok # t) (core_state m e) \<longleftrightarrow>
     ok (S_OK, NoBody) \<and> script data clock (Suc n) t (core_state (m\<lparr>ALLOW_LIST_V6 := clear_entries None (ALLOW_LIST_V6 m)\<rparr>) e)"
  "script data clock n (Call HttpPost ''/packet_counts/v4'' (Change (ModifyPacketCountsV4 k4 b)) ok # t) (core_state m e) \<longleftrightarrow>
     ok (S_OK, NoBody) \<and> script data clock (Suc n) t
       (core_state (m\<lparr>PACKET_COUNTS_V4 := (k4, b) # take (LRU_MAX_ENTRIES - 1) (del_key k4 (PACKET_COUNTS_V4 m))\<rparr>) e)"
  "script data clock n (Call HttpDelete ''/packet_counts/v4'' (Change (ClearPacketCountsV4 None)) ok # t) (core_state m e) \<longleftrightarrow>
     ok (S_OK, NoBody) \<and> script data clock (Suc n) t (core_state (m\<lparr>PACKET_COUNTS_V4 := clear_entries None (PACKET_COUNTS_V4 m)\<rparr>) e)"
  "script data clock n (Call HttpPost ''/packet_counts/v6'' (Change (ModifyPacketCountsV6 k6 b)) ok # t) (core_state m e) \<longleftrightarrow>
     ok (S_OK, NoBody) \<and> script data clock (Suc n) t
       (core_state (m\<lparr>PACKET_COUNTS_V6 := (k6, b) # take (LRU_MAX_ENTRIES - 1) (del_key k6 (PACKET_COUNTS_V6 m))\<rparr>) e)"
  "script data clock n (Call HttpDelete ''/packet_counts/v6'' (Change (ClearPacketCountsV6 None)) ok # t) (core_state m e) \<longleftrightarrow>
     ok (S_OK, NoBody) \<and> script data clock (Suc n) t (core_state (m\<lparr>PACKET_COUNTS_V6 := clear_entries None (PACKET_COUNTS_V6 m)\<rparr>) e)"
  by (simp_all add: config_table answer_def guarded_def lru_put_def
      modify_allow_list_v4_def clear_allow_list_v4_def modify_allow_list_v6_def clear_allow_list_v6_def
      modify_packet_counts_v4_def clear_packet_counts_v4_def modify_packet_counts_v6_def clear_packet_counts_v6_def)

lemma commit_config_core_state:
  assumes "storable c"
  shows "\<exists>s'. commit_config ref_env u c s = ((S_OK, ConfigJson c), s') \<and>
     core s' = core_state ((s_maps s)\<lparr>CONFIG := Some c\<rparr>) (s_ebpf s)"
proof -
  from assms obtain row where "config_to_row c = Inr row" using config_to_row_Inr_iff by blast
  then show ?thesis
    by (simp add: commit_config_def config_set_def save_config_def save_firewall_config_def core_is_state)
qed

lemma script_update:
  assumes "config_patch_of_json j = Inr p" and "patch_validate p = Inr ()" and "CONFIG m = Some c"
    and "storable (patch_apply p c)"
    and "if adapters_named p \<and> e \<noteq> None
      then reboot True (\<lambda>links i. Inr (length links)) (patch_apply p c) (the e) = (Inr (), pr) \<and> e' = Some pr
      else e' = e"
  shows "script data clock n (Call HttpPost ''/'' (UpdateConfig j) ok # t) (core_state m e) \<longleftrightarrow>
     ok (S_OK, ConfigJson (patch_apply p c)) \<and>
     script data clock (Suc n) t (core_state (m\<lparr>CONFIG := Some (patch_apply p c)\<rparr>) e')"
proof -
  have g: "config_get ref_env (core_state m e) = Some c" using assms(3) by (simp add: config_get_def)
  have "\<exists>s'. update_config ref_env p (Some tester) (core_state m e) = ((S_OK, ConfigJson (patch_apply p c)), s') \<and>
      core s' = core_state (m\<lparr>CONFIG := Some (patch_apply p c)\<rparr>) e'"
  proof (cases rule: update_config_cases [OF tester_may(1) assms(2) g, case_names direct attached failed])
    case direct
    with assms(5) have "e' = e" by (auto split: if_splits)
    with direct(2) commit_config_core_state [OF assms(4), of tester "core_state m e"] show ?thesis by simp
  next
    case (attached pr0 e2)
    with assms(5) have "e' = Some e2" by simp
    with attached(4) commit_config_core_state [OF assms(4), of tester
        "log_event ref_env ''INFO'' (attachment_message e2) (Some (au_username tester)) (core_state m e\<lparr>s_ebpf := Some e2\<rparr>)"]
    show ?thesis by simp
  next
    case (failed pr0 err e2)
    with assms(5) show ?thesis by simp
  qed
  then show ?thesis
    using assms(1) by (auto simp: config_table answer_def)
qed

text \<open>An update that is refused changes nothing.\<close>

lemma script_update_refused:
  assumes "config_patch_of_json j = Inr p" and "patch_validate p = Inl msg"
  shows "script data clock n (Call HttpPost ''/'' (UpdateConfig j) ok # t) (core_state m e) \<longleftrightarrow>
     ok (S_BAD_REQUEST, Text msg) \<and> script data clock (Suc n) t (core_state m e)"
  using assms by (simp add: config_table answer_def update_config_def guarded_def)

text \<open>Subnet rules on a trie that holds nothing else.\<close>

lemma lpm_ref_single:
  "unat (fst key) \<le> width \<Longrightarrow> 0 < cap \<Longrightarrow> t \<in> {[], [(key_prefix key, a)]} \<Longrightarrow>
   lpm_ref_insert width cap t key a = Some [(key_prefix key, a)]"
  "unat (fst key) \<le> width \<Longrightarrow> lpm_ref_remove width [(key_prefix key, a)] key = Some []"
  "lpm_ref_get [(key_prefix key, a)] key = Some a"
  "lpm_ref_get [] key = None"
  by (auto simp: lpm_ref_insert_def lpm_ref_remove_def lpm_ref_get_def del_key_def longest_match_None)
    (cases "length (key_prefix key)"; simp)

lemma subnet_rows_saved:
  "unat p \<le> 32 \<Longrightarrow> fst (save_subnet_v4 no_faults (caller_of tester) n4 p a d) = Inr ()"
  "unat p \<le> 128 \<Longrightarrow> fst (save_subnet_v6 no_faults (caller_of tester) n6 p a d) = Inr ()"
  "fst (delete_subnet_v4 no_faults (caller_of tester) n4 p d) = Inr ()"
  "fst (delete_subnet_v6 no_faults (caller_of tester) n6 p d) = Inr ()"
  by (simp_all add: save_subnet_v4_def save_subnet_v6_def delete_subnet_v4_def delete_subnet_v6_def
      require_subnet_permission_def no_faults_def Let_def)

lemma script_subnet:
  "p \<le> 32 \<Longrightarrow> SUBNET_MATCHING_V4 m \<in> {[], [(key_prefix (p, to_be_bytes32 n4), a)]} \<Longrightarrow>
   script data clock n (Call HttpPost ''/subnet/v4'' (Change (ModifySubnetV4 n4 p a)) ok # t) (core_state m e) \<longleftrightarrow>
     ok (S_OK, NoBody) \<and> script data clock (Suc n) t
       (core_state (m\<lparr>SUBNET_MATCHING_V4 := [(key_prefix (p, to_be_bytes32 n4), a)]\<rparr>) e)"
  "p \<le> 32 \<Longrightarrow> SUBNET_MATCHING_V4 m = [(key_prefix (p, to_be_bytes32 n4), a)] \<Longrightarrow>
   script data clock n (Call HttpDelete ''/subnet/v4'' (Change (RemoveSubnetV4 n4 p)) ok # t) (core_state m e) \<longleftrightarrow>
     ok (S_OK, NoBody) \<and> script data clock (Suc n) t (core_state (m\<lparr>SUBNET_MATCHING_V4 := []\<rparr>) e)"
  "32 < p \<Longrightarrow>
   script data clock n (Call HttpPost ''/subnet/v4'' (Change (ModifySubnetV4 n4 p a)) ok # t) (core_state m e) \<longleftrightarrow>
     ok (S_BAD_REQUEST, Text ''prefix_len must be between 0 and 32 for an IPv4 subnet'') \<and>
     script data clock (Suc n) t (core_state m e)"
  "p \<le> 128 \<Longrightarrow> SUBNET_MATCHING_V6 m \<in> {[], [(key_prefix (p, ipv6_network_bytes n6), a)]} \<Longrightarrow>
   script data clock n (Call HttpPost ''/subnet/v6'' (Change (ModifySubnetV6 n6 p a)) ok # t) (core_state m e) \<longleftrightarrow>
     ok (S_OK, NoBody) \<and> script data clock (Suc n) t
       (core_state (m\<lparr>SUBNET_MATCHING_V6 := [(key_prefix (p, ipv6_network_bytes n6), a)]\<rparr>) e)"
  "p \<le> 128 \<Longrightarrow> SUBNET_MATCHING_V6 m = [(key_prefix (p, ipv6_network_bytes n6), a)] \<Longrightarrow>
   script data clock n (Call HttpDelete ''/subnet/v6'' (Change (RemoveSubnetV6 n6 p)) ok # t) (core_state m e) \<longleftrightarrow>
     ok (S_OK, NoBody) \<and> script data clock (Suc n) t (core_state (m\<lparr>SUBNET_MATCHING_V6 := []\<rparr>) e)"
  by (simp_all add: config_table answer_def guarded_def modify_subnet_matching_v4_def
      remove_subnet_matching_v4_def modify_subnet_matching_v6_def remove_subnet_matching_v6_def
      word_le_nat_alt word_less_nat_alt linorder_not_less lpm_ref_single subnet_rows_saved split_beta core_is_state
      LPM_MAX_ENTRIES_def ref_kern_def)

section \<open>The tests hold\<close>

declare core_passes.simps(2) [simp del]

text \<open>\<open>create_test_state\<close> for a script.\<close>

definition fresh_core :: server where
  "fresh_core = core_state (empty_maps\<lparr>CONFIG := Some firewall_config_default\<rparr>) None"

lemma json_parts [simp]:
  "is_ok (st, b) \<longleftrightarrow> st = S_OK"
  "json_with P (S_OK, ConfigJson c) \<longleftrightarrow> P c"
  by (simp_all add: is_ok_def json_with_def)

lemma tcp_only:
  "config_patch_of_json (no_fields\<lparr>j_tcp_profile := Some (Some r)\<rparr>) =
     Inr \<lparr>p_tcp_profile = Some r, p_udp_profile = None, p_icmp_profile = None, p_default_profile = None,
       p_protocol_allowed = None, p_ddos_activated = None, p_subnet_activated = None,
       p_incoming_ethernet_adapter = None, p_output_ethernet_adapter = None\<rparr>"
  by (simp add: config_patch_of_json_def no_fields_def named_field_def)

lemma tcp_patch_parts:
  "config_patch_of_json tcp_patch =
     Inr \<lparr>p_tcp_profile = Some \<lparr>rate_shift = 21, burst = 500\<rparr>, p_udp_profile = None, p_icmp_profile = None,
       p_default_profile = None, p_protocol_allowed = None, p_ddos_activated = Some False,
       p_subnet_activated = None, p_incoming_ethernet_adapter = None, p_output_ethernet_adapter = None\<rparr>"
  by (simp add: config_patch_of_json_def tcp_patch_def no_fields_def named_field_def)

lemma script_tcp_patch:
  "CONFIG m = Some firewall_config_default \<Longrightarrow>
   script data clock n (Call HttpPost ''/'' (UpdateConfig tcp_patch) is_ok # t) (core_state m None) \<longleftrightarrow>
     script data clock (Suc n) t (core_state (m\<lparr>CONFIG := Some (firewall_config_default
       \<lparr>tcp_profile := \<lparr>rate_shift = 21, burst = 500\<rparr>, ddos_activated := False\<rparr>)\<rparr>) None)"
  by (subst script_update [OF tcp_patch_parts, where c = firewall_config_default and e' = None])
    (simp_all add: patch_validate_def patch_apply_def MAX_RATE_SHIFT_def List.map_filter_simps
      storable_def profiles_def firewall_config_default_def)

lemma config_tests:
  "script data clock n test_config_endpoint fresh_core"
  "script data clock n test_config_persistence fresh_core"
  by (simp_all add: test_config_endpoint_def test_config_persistence_def fresh_core_def script_tcp_patch
      tcp_patched_def numeral_eq_Suc) (simp_all add: firewall_config_default_def)

lemma table_tests:
  "script data clock n test_allow_list_v4_lifecycle fresh_core"
  "script data clock n test_ipv6_allow_list fresh_core"
  "script data clock n test_rate_limiting_state fresh_core"
  "script data clock n test_packet_counts_v6 fresh_core"
  "script data clock n test_empty_operations fresh_core"
  by (simp_all add: test_allow_list_v4_lifecycle_def test_ipv6_allow_list_def test_rate_limiting_state_def
      test_packet_counts_v6_def test_empty_operations_def fresh_core_def map_entries_def clear_entries_def
      test_key4_def test_key6_def ipv4_packet_new_def ipv6_packet_new_def del_key_def del_keys_def empty_maps_def)

lemma subnet_tests:
  "script data clock n (test_subnet_matching_v4 ref_kern) fresh_core"
  "script data clock n (test_subnet_matching_v6 ref_kern) fresh_core"
  by (simp_all add: test_subnet_matching_v4_def test_subnet_matching_v6_def fresh_core_def Let_def
      script_subnet empty_maps_def lpm_ref_single ref_kern_def)

lemma refusal_test: "script data clock n (test_invalid_config_updates ref_kern) fresh_core"
proof -
  let ?r = "\<lparr>rate_shift = 1000, burst = 500\<rparr>"
  have "patch_validate \<lparr>p_tcp_profile = Some ?r, p_udp_profile = None, p_icmp_profile = None, p_default_profile = None,
       p_protocol_allowed = None, p_ddos_activated = None, p_subnet_activated = None,
       p_incoming_ethernet_adapter = None, p_output_ethernet_adapter = None\<rparr> =
     Inl ''rate_shift must be between 0 and 63''"
    by (simp add: patch_validate_def MAX_RATE_SHIFT_def List.map_filter_simps)
  from script_update_refused [OF tcp_only this] show ?thesis
    by (simp add: test_invalid_config_updates_def fresh_core_def script_subnet lpm_ref_single empty_maps_def
        ref_kern_def)
qed

lemma ones_bytes: "to_be_bytes32 4294967295 = replicate 4 255"
  "ipv6_network_bytes (4294967295, 4294967295, 4294967295, 4294967295) = replicate 16 255"
  by code_simp+

lemma boundary_test: "script data clock n (test_boundary_conditions ref_kern) fresh_core"
  unfolding test_boundary_conditions_def Let_def ones_bytes [symmetric]
  by (simp add: fresh_core_def script_subnet lpm_ref_single empty_maps_def ref_kern_def)

text \<open>Concurrent updates: the profile is that of the last request in the order.\<close>

lemma profile_update:
  assumes "i < 10" and "CONFIG m = Some c" and "storable c"
  shows "script data clock n (Call HttpPost ''/'' (UpdateConfig (no_fields\<lparr>j_tcp_profile :=
      Some (Some (concurrent_profile i))\<rparr>)) is_ok # t) (core_state m None) \<longleftrightarrow>
    script data clock (Suc n) t (core_state (m\<lparr>CONFIG := Some (c\<lparr>tcp_profile := concurrent_profile i\<rparr>)\<rparr>) None)"
    and "storable (c\<lparr>tcp_profile := concurrent_profile i\<rparr>)"
proof -
  have "i = 0 \<or> i = 1 \<or> i = 2 \<or> i = 3 \<or> i = 4 \<or> i = 5 \<or> i = 6 \<or> i = 7 \<or> i = 8 \<or> i = 9"
    using assms(1) by arith
  then have b: "uint (rate_shift (concurrent_profile i)) < 2 ^ 63" "uint (burst (concurrent_profile i)) < 2 ^ 63"
      "rate_shift (concurrent_profile i) \<le> MAX_RATE_SHIFT"
    by (auto simp: concurrent_profile_def MAX_RATE_SHIFT_def)
  then show s: "storable (c\<lparr>tcp_profile := concurrent_profile i\<rparr>)"
    using assms(3) by (auto simp: storable_def profiles_def)
  show "script data clock n (Call HttpPost ''/'' (UpdateConfig (no_fields\<lparr>j_tcp_profile :=
      Some (Some (concurrent_profile i))\<rparr>)) is_ok # t) (core_state m None) \<longleftrightarrow>
    script data clock (Suc n) t (core_state (m\<lparr>CONFIG := Some (c\<lparr>tcp_profile := concurrent_profile i\<rparr>)\<rparr>) None)"
    by (cases c, subst script_update [OF tcp_only, where c = c and e' = None])
      (use assms(2) b s in \<open>simp_all add: patch_validate_def patch_apply_def List.map_filter_simps\<close>)
qed

lemma concurrent_updates:
  assumes "order \<noteq> []" and "set order \<subseteq> {..<10}" and "CONFIG m = Some c" and "storable c"
    and "\<And>c' n. tcp_profile c' = concurrent_profile (last order) \<Longrightarrow>
      script data clock n t (core_state (m\<lparr>CONFIG := Some c'\<rparr>) None)"
  shows "script data clock n (map (\<lambda>i. Call HttpPost ''/'' (UpdateConfig (no_fields\<lparr>j_tcp_profile :=
      Some (Some (concurrent_profile i))\<rparr>)) is_ok) order @ t) (core_state m None)"
  using assms
proof (induction order arbitrary: n m c rule: list_nonempty_induct)
  case (single i)
  then show ?case by (simp add: profile_update(1) [of i m c])
next
  case (cons i order)
  from cons.prems have i: "i < 10" by simp
  note u = profile_update [OF i cons.prems(2,3)]
  show ?case
    using cons.hyps cons.prems u(2)
    by (simp add: u(1)) (rule cons.IH; simp)
qed

lemma concurrent_test:
  assumes "order \<noteq> []" and "set order \<subseteq> {..<10}"
  shows "script data clock n (test_concurrent_config_updates order) fresh_core"
proof -
  have "last order < 10" using assms last_in_set by blast
  then show ?thesis
    unfolding test_concurrent_config_updates_def fresh_core_def
    by (intro concurrent_updates [OF assms, where c = firewall_config_default])
      (auto simp: list_ex_iff storable_def profiles_def firewall_config_default_def)
qed

lemma mask_18: "activater_from_bits 18 = Some 18" "IPV4 OR IPV6 = 18"
  by code_simp+

lemma deserialize_test: config_patch_deserializes_nullable_adapters
  by (simp add: config_patch_deserializes_nullable_adapters_def config_patch_of_json_def no_fields_def
      named_field_def deserialize_optional_optional_def deserialize_protocol_patch_def
      serialize_protocol_allowed_def firewall_config_default_def mask_18 result_bind_def ok_or_def)

lemma script_passes:
  assumes "axum_router A serves" and "inj names" and "script data clock n test fresh_core"
  shows "passes ref_env (serves (config_router A)) wire_net data names clock n test create_test_state"
proof -
  have "core create_test_state = fresh_core"
    by (simp add: core_is_state create_test_state_def fresh_core_def)
  then show ?thesis
    unfolding axum_router.serves_config [OF assms(1)]
    by (intro passes_core) (use assms(2,3) ref_env_ok in
      \<open>simp_all add: env_ok_def create_test_state_def empty_database_def\<close>)
qed

text \<open>
  C35: The tests of the server's endpoints hold of the model (but for the one request among them whose body
  is not JSON, which \<open>test_invalid_config_updates\<close> begins with), through any router that keeps axum's
  contract and whatever distinct names the test's users get: each request is made by a fresh user of
  the account table, resumed by the session library, and answered by the handler that the table of
  routes names; the ten concurrent updates pass in every order of their commits.
\<close>

theorem server_tests_pass:
  assumes "axum_router A serves" and "inj names"
    and "distinct order" and "set order = {..<10}"
  shows "config_patch_deserializes_nullable_adapters \<and>
    list_all (\<lambda>test. passes ref_env (serves (config_router A)) wire_net data names clock 0 test create_test_state)
      [test_config_endpoint, test_allow_list_v4_lifecycle, test_subnet_matching_v4 ref_kern,
       test_rate_limiting_state, test_invalid_config_updates ref_kern, test_concurrent_config_updates order,
       test_ipv6_allow_list, test_subnet_matching_v6 ref_kern, test_packet_counts_v6,
       test_boundary_conditions ref_kern, test_empty_operations, test_config_persistence]"
proof -
  have "0 \<in> set order" unfolding assms(4) by simp
  then have "order \<noteq> []" "set order \<subseteq> {..<10}" using assms(4) by fastforce+
  then show ?thesis
    unfolding list.pred_inject
    by (intro conjI list.pred_inject(1) deserialize_test script_passes [OF assms(1,2)] config_tests table_tests
        subnet_tests refusal_test boundary_test concurrent_test)
qed

theorem server_tests_pass_witness:
  "passes ref_env (map_of (config_router ref_axum)) wire_net 0 (\<lambda>n. replicate n CHR ''t'') (\<lambda>n. (0, 0)) 0
     (test_concurrent_config_updates [3, 1, 4, 0, 5, 9, 2, 6, 8, 7]) create_test_state"
proof -
  have "inj (\<lambda>n. replicate n CHR ''t'')" by (rule injI) (metis length_replicate)
  moreover have "set [3, 1, 4, 0, 5, 9, 2, 6, 8, 7] = {..<10 :: nat}" by auto
  ultimately show ?thesis
    using server_tests_pass [OF ref_router.axum_router_axioms, of "\<lambda>n. replicate n CHR ''t''"
        "[3, 1, 4, 0, 5, 9, 2, 6, 8, 7]" 0 "\<lambda>n. (0, 0)"]
    by simp
qed

end
