(* ===== verification/Test_Frames.thy ===== *)
theory Test_Frames
  imports Flow_Policy
begin

text \<open>
  The frames of the packet tests of oxidrop/src/state.rs (\<open>build_ipv4_udp\<close>, \<open>build_ipv4_tcp\<close>,
  \<open>build_ipv4_icmp\<close>, \<open>build_ipv4_unsupported\<close>) and what the eBPF program reads from them. Serialising is
  etherparse's: its two builders are the argument \<open>B\<close>, with the wire formats as their contract.
\<close>

section \<open>The serialiser\<close>

text \<open>
  \<open>PacketBuilder::ethernet2(src_mac, dst_mac).ipv4(src, dst, ttl)\<close> followed by \<open>udp(source, destination)\<close> or
  by \<open>tcp(source, destination, sequence, window)\<close>, and \<open>write\<close> of a payload.
\<close>

record frame_builder =
  write_udp :: "u8 list \<Rightarrow> u8 list \<Rightarrow> u8 list \<Rightarrow> u8 list \<Rightarrow> u8 \<Rightarrow> u16 \<Rightarrow> u16 \<Rightarrow> u8 list \<Rightarrow> u8 list"
  write_tcp ::
    "u8 list \<Rightarrow> u8 list \<Rightarrow> u8 list \<Rightarrow> u8 list \<Rightarrow> u8 \<Rightarrow> u16 \<Rightarrow> u16 \<Rightarrow> u32 \<Rightarrow> u16 \<Rightarrow> u8 list \<Rightarrow> u8 list"

definition to_be_bytes16 :: "u16 \<Rightarrow> u8 list" where
  "to_be_bytes16 x = [ucast (drop_bit 8 x), ucast x]"

lemma length_to_be_bytes16 [simp]: "length (to_be_bytes16 x) = 2"
  by (simp add: to_be_bytes16_def)

text \<open>An Ethernet frame with an IPv4 header of 20 bytes: \<open>info\<close> is what lies before the time to live.\<close>

definition ipv4_frame ::
    "u8 list \<Rightarrow> u8 list \<Rightarrow> u8 list \<Rightarrow> u8 \<Rightarrow> u8 \<Rightarrow> u8 list \<Rightarrow> u8 list \<Rightarrow> u8 list \<Rightarrow> u8 list \<Rightarrow> u8 list" where
  "ipv4_frame src_mac dst_mac info ttl protocol checksum src dst rest =
     (dst_mac @ src_mac @ [8, 0] @ [69] @ info @ [ttl]) @ (protocol # checksum @ src @ dst @ rest)"

text \<open>The bytes that the tests rely on; the others (identification, checksums, ..) are any.\<close>

locale wire_builder =
  fixes B :: frame_builder
  assumes udp_frame: "\<exists>info checksum tail. length info = 7 \<and> length checksum = 2 \<and> length tail = 4 \<and>
      write_udp B src_mac dst_mac src dst ttl sport dport payload =
        ipv4_frame src_mac dst_mac info ttl 17 checksum src dst
          (to_be_bytes16 sport @ to_be_bytes16 dport @ tail @ payload)"
    and tcp_frame: "\<exists>info checksum ack tail. length info = 7 \<and> length checksum = 2 \<and> length ack = 4 \<and> length tail = 4 \<and>
      write_tcp B src_mac dst_mac src dst ttl sport dport seqno window payload =
        ipv4_frame src_mac dst_mac info ttl 6 checksum src dst
          (to_be_bytes16 sport @ to_be_bytes16 dport @ to_be_bytes32 seqno @ ack @ [80, 0] @
           to_be_bytes16 window @ tail @ payload)"

section \<open>The builders of the tests\<close>

definition build_ipv4_udp :: "frame_builder \<Rightarrow> u8 list" where
  "build_ipv4_udp B =
     write_udp B (replicate 6 1) (replicate 6 2) [192, 168, 10, 10] [10, 0, 0, 10] 64 12345 80 (replicate 32 0)"

definition build_ipv4_tcp :: "frame_builder \<Rightarrow> u8 list" where
  "build_ipv4_tcp B =
     write_tcp B (replicate 6 1) (replicate 6 2) [192, 168, 10, 10] [10, 0, 0, 10] 64 12345 80 1 10 []"

fun be_words :: "u8 list \<Rightarrow> u16 list" where
  "be_words (a # b # t) = from_be_bytes16 [a, b] # be_words t"
| "be_words _ = []"

text \<open>The carries of the sum are added once; a panic is \<open>None\<close>.\<close>

definition ipv4_header_checksum :: "u8 list \<Rightarrow> u16 option" where
  "ipv4_header_checksum packet =
     (if length packet < 34 then None
      else let header = take 20 (drop 14 packet);
               sum = sum_list (map ucast (be_words header)) :: u32
           in Some (NOT (ucast sum + ucast (drop_bit 16 sum))))"

definition with_ipv4_protocol :: "u8 \<Rightarrow> u8 list \<Rightarrow> u8 list option" where
  "with_ipv4_protocol protocol packet =
     (if length packet < 26 then None
      else let packet = packet[23 := protocol];
               packet = packet[24 := 0, 25 := 0]
           in case ipv4_header_checksum packet of
                None \<Rightarrow> None
              | Some checksum \<Rightarrow>
                  Some (packet[24 := to_be_bytes16 checksum ! 0, 25 := to_be_bytes16 checksum ! 1]))"

definition build_ipv4_icmp :: "frame_builder \<Rightarrow> u8 list option" where
  "build_ipv4_icmp B = with_ipv4_protocol 1 (build_ipv4_udp B)"

definition build_ipv4_unsupported :: "frame_builder \<Rightarrow> u8 list option" where
  "build_ipv4_unsupported B = with_ipv4_protocol 47 (build_ipv4_udp B)"

text \<open>
  A carry that the single fold produces is lost: the words of this header add up to 0x1FFFF, whose
  checksum is 0xFFFE. The headers of the tests have no second carry.
\<close>

lemma checksum_loses_a_carry:
  "ipv4_header_checksum (replicate 14 0 @ [255, 255, 255, 255, 0, 1] @ replicate 14 0) = Some 0xFFFF"
  by code_simp

section \<open>What the program reads\<close>

text \<open>The flow of a test frame that arrives on the incoming interface.\<close>

definition test_flow :: "u16 \<Rightarrow> u16 \<Rightarrow> u8 \<Rightarrow> ipv4_packet" where
  "test_flow sport dport protocol = ipv4_packet_new 0x0A00000A 0xC0A80A0A dport sport protocol"

lemma port_bytes: "to_be_bytes16 12345 = [48, 57]" "to_be_bytes16 80 = [0, 80]"
  by code_simp+

definition reads_as :: "u8 list \<Rightarrow> ipv4_packet \<Rightarrow> ip_proto \<Rightarrow> bool" where
  "reads_as packet flow proto \<longleftrightarrow>
     (\<forall>data i. let ctx = \<lparr>ctx_data = data, ctx_packet = packet, ctx_ingress_ifindex = i\<rparr> in
        packet_ether_type wire_net ctx = Some EtIpv4 \<and>
        parse_v4 wire_net ctx Incoming = Inr (flow, [192, 168, 10, 10], proto, False))"

lemma length_expand:
  "length xs = 2 \<longleftrightarrow> (\<exists>a b. xs = [a, b])"
  "length xs = 4 \<longleftrightarrow> (\<exists>a b c d. xs = [a, b, c, d])"
  "length xs = 7 \<longleftrightarrow> (\<exists>a b c d e f g. xs = [a, b, c, d, e, f, g])"
  by (auto simp: numeral_eq_Suc length_Suc_conv)

lemmas frame_reading = packet_ether_type_def parse_v4_def sample_parsing wire_ether_type_def ipv4_frame_def
  l4_ports_v4_def udp_ports_def flow_key_v4_def test_flow_def port_bytes

lemma reads_asI:
  assumes "\<And>data i. packet_ether_type wire_net \<lparr>ctx_data = data, ctx_packet = packet, ctx_ingress_ifindex = i\<rparr> = Some EtIpv4"
    and "\<And>data i. parse_v4 wire_net \<lparr>ctx_data = data, ctx_packet = packet, ctx_ingress_ifindex = i\<rparr> Incoming =
      Inr (flow, [192, 168, 10, 10], proto, False)"
  shows "reads_as packet flow proto"
  using assms by (simp add: reads_as_def)

text \<open>A frame between the two hosts of the tests.\<close>

definition test_frame :: "u8 list \<Rightarrow> u8 \<Rightarrow> u8 list \<Rightarrow> u8 list \<Rightarrow> u8 list" where
  "test_frame info protocol checksum rest =
     ipv4_frame (replicate 6 1) (replicate 6 2) info 64 protocol checksum [192, 168, 10, 10] [10, 0, 0, 10] rest"

lemma udp_frame_reads:
  assumes "length info = 7" and "length checksum = 2" and "length tail = 4"
  shows "reads_as (test_frame info 17 checksum (to_be_bytes16 12345 @ to_be_bytes16 80 @ tail @ payload))
    (test_flow 12345 80 17) IpUdp"
proof -
  from assms obtain a b c d e f g h i j k l m where
    "info = [a, b, c, d, e, f, g]" "checksum = [h, i]" "tail = [j, k, l, m]"
    by (auto simp: length_expand)
  then show ?thesis
    by (intro reads_asI) (simp_all add: frame_reading test_frame_def)
qed

lemma tcp_frame_reads:
  assumes "length info = 7" and "length checksum = 2" and "length ack = 4" and "length tail = 4"
    and "length seqno = 4" and "length window = 2"
  shows "reads_as (test_frame info 6 checksum (to_be_bytes16 12345 @ to_be_bytes16 80 @ seqno @ ack @
    [80, 0] @ window @ tail @ payload)) (test_flow 12345 80 6) IpTcp"
proof -
  from assms obtain a b c d e f g h i j k l m n o' p q r s t u v w x y where
    "info = [a, b, c, d, e, f, g]" "checksum = [h, i]" "ack = [j, k, l, m]" "tail = [n, o', p, q]"
    "seqno = [r, s, t, u]" "window = [v, w]"
    by (auto simp: length_expand)
  then show ?thesis
    by (intro reads_asI) (simp_all add: frame_reading test_frame_def)
qed

text \<open>A frame of a protocol without ports.\<close>

lemma other_frame_reads:
  assumes "length info = 7" and "length checksum = 2"
  shows "reads_as (test_frame info 1 checksum rest) (test_flow 0 0 1) IpIcmp"
    and "reads_as (test_frame info 47 checksum rest) (test_flow 0 0 47) (IpOther 47)"
proof -
  from assms obtain a b c d e f g h i where "info = [a, b, c, d, e, f, g]" "checksum = [h, i]"
    by (auto simp: length_expand)
  then show "reads_as (test_frame info 1 checksum rest) (test_flow 0 0 1) IpIcmp"
    and "reads_as (test_frame info 47 checksum rest) (test_flow 0 0 47) (IpOther 47)"
    by (intro reads_asI; simp add: frame_reading test_frame_def)+
qed

text \<open>Rewriting the protocol of a frame keeps everything but the protocol and the checksum.\<close>

lemma with_ipv4_protocol_frame:
  assumes "length info = 7" and "length checksum = 2"
  shows "\<exists>checksum'. length checksum' = 2 \<and>
    with_ipv4_protocol p (test_frame info protocol checksum rest) = Some (test_frame info p checksum' rest)"
proof -
  from assms(2) obtain h i where c: "checksum = [h, i]" by (auto simp: length_expand)
  let ?hd = "replicate 6 2 @ replicate 6 1 @ [8, 0] @ [69] @ info @ [64] :: u8 list"
  let ?tl = "[192, 168, 10, 10] @ [10, 0, 0, 10] @ rest :: u8 list"
  have f: "test_frame info q [x, y] rest = ?hd @ (q # x # y # ?tl)" for q x y
    by (simp add: test_frame_def ipv4_frame_def)
  have hd: "length ?hd = 23" using assms(1) by simp
  have u: "(?hd @ (q # x # y # ?tl))[23 := q'] = ?hd @ (q' # x # y # ?tl)"
    "(?hd @ (q # x # y # ?tl))[24 := x'] = ?hd @ (q # x' # y # ?tl)"
    "(?hd @ (q # x # y # ?tl))[25 := y'] = ?hd @ (q # x # y' # ?tl)" for q x y q' x' y'
    by (simp_all only: list_update_append hd) simp_all
  have "\<exists>ck. ipv4_header_checksum (?hd @ (p # 0 # 0 # ?tl)) = Some ck"
    using hd by (simp add: ipv4_header_checksum_def Let_def)
  then obtain ck where "ipv4_header_checksum (?hd @ (p # 0 # 0 # ?tl)) = Some ck" by blast
  then have "with_ipv4_protocol p (test_frame info protocol checksum rest) =
      Some (test_frame info p [to_be_bytes16 ck ! 0, to_be_bytes16 ck ! 1] rest)"
    using hd unfolding c f with_ipv4_protocol_def Let_def u by simp
  then show ?thesis by (intro exI [of _ "[to_be_bytes16 ck ! 0, to_be_bytes16 ck ! 1]"]) simp
qed

context wire_builder
begin

lemma udp_built:
  obtains info checksum tail where "length info = 7" "length checksum = 2" "length tail = 4"
    "build_ipv4_udp B = test_frame info 17 checksum (to_be_bytes16 12345 @ to_be_bytes16 80 @ tail @ replicate 32 0)"
  using udp_frame unfolding build_ipv4_udp_def test_frame_def by blast

lemma udp_reads: "reads_as (build_ipv4_udp B) (test_flow 12345 80 17) IpUdp"
  by (rule udp_built) (simp add: udp_frame_reads)

lemma tcp_reads: "reads_as (build_ipv4_tcp B) (test_flow 12345 80 6) IpTcp"
proof -
  obtain info checksum ack tail where "length info = 7" "length checksum = 2" "length ack = 4" "length tail = 4"
    "build_ipv4_tcp B = test_frame info 6 checksum (to_be_bytes16 12345 @ to_be_bytes16 80 @ to_be_bytes32 1 @ ack @
       [80, 0] @ to_be_bytes16 10 @ tail @ [])"
    using tcp_frame unfolding build_ipv4_tcp_def test_frame_def by blast
  then show ?thesis by (metis tcp_frame_reads length_to_be_bytes32 length_to_be_bytes16)
qed

lemma icmp_reads: "\<exists>packet. build_ipv4_icmp B = Some packet \<and> reads_as packet (test_flow 0 0 1) IpIcmp"
  by (rule udp_built) (metis build_ipv4_icmp_def other_frame_reads(1) with_ipv4_protocol_frame)

lemma unsupported_reads:
  "\<exists>packet. build_ipv4_unsupported B = Some packet \<and> reads_as packet (test_flow 0 0 47) (IpOther 47)"
  by (rule udp_built) (metis build_ipv4_unsupported_def other_frame_reads(2) with_ipv4_protocol_frame)

end

text \<open>The wire formats with every other byte zero.\<close>

definition zero_builder :: frame_builder where
  "zero_builder =
     \<lparr>write_udp = (\<lambda>src_mac dst_mac src dst ttl sport dport payload.
        ipv4_frame src_mac dst_mac (replicate 7 0) ttl 17 [0, 0] src dst
          (to_be_bytes16 sport @ to_be_bytes16 dport @ replicate 4 0 @ payload)),
      write_tcp = (\<lambda>src_mac dst_mac src dst ttl sport dport seqno window payload.
        ipv4_frame src_mac dst_mac (replicate 7 0) ttl 6 [0, 0] src dst
          (to_be_bytes16 sport @ to_be_bytes16 dport @ to_be_bytes32 seqno @ replicate 4 0 @ [80, 0] @
           to_be_bytes16 window @ replicate 4 0 @ payload))\<rparr>"

interpretation zero_frames: wire_builder zero_builder
proof
  fix src_mac dst_mac src dst payload :: "u8 list" and ttl sport dport seqno window
  show "\<exists>info checksum tail. length info = 7 \<and> length checksum = 2 \<and> length tail = 4 \<and>
      write_udp zero_builder src_mac dst_mac src dst ttl sport dport payload =
        ipv4_frame src_mac dst_mac info ttl 17 checksum src dst
          (to_be_bytes16 sport @ to_be_bytes16 dport @ tail @ payload)"
    by (rule exI [of _ "replicate 7 0"], rule exI [of _ "[0, 0]"], rule exI [of _ "replicate 4 0"])
      (simp add: zero_builder_def)
  show "\<exists>info checksum ack tail. length info = 7 \<and> length checksum = 2 \<and> length ack = 4 \<and> length tail = 4 \<and>
      write_tcp zero_builder src_mac dst_mac src dst ttl sport dport seqno window payload =
        ipv4_frame src_mac dst_mac info ttl 6 checksum src dst
          (to_be_bytes16 sport @ to_be_bytes16 dport @ to_be_bytes32 seqno @ ack @ [80, 0] @
           to_be_bytes16 window @ tail @ payload)"
    by (rule exI [of _ "replicate 7 0"], rule exI [of _ "[0, 0]"], rule exI [of _ "replicate 4 0"],
        rule exI [of _ "replicate 4 0"]) (simp add: zero_builder_def)
qed

end
