(* ===== verification/Packet_Tests.thy ===== *)
theory Packet_Tests
  imports Server_Tests Test_Frames
begin

text \<open>
  The two integration tests of oxidrop/src/state.rs that send frames through the loaded program
  (\<open>test_axum_backend_with_real_ebpf_and_two_interfaces\<close> and its stress variant), as scripts over the
  endpoints and the program. The interfaces are any two; the frames are those of etherparse.
\<close>

section \<open>The scripts\<close>

text \<open>The state of both tests: the loaded program, a default configuration, the bootstrapped database.\<close>

definition ebpf_test_state :: "services \<Rightarrow> string \<Rightarrow> int \<Rightarrow> server" where
  "ebpf_test_state S salt now =
     \<lparr>s_db = snd (bootstrap_default_admin S no_faults salt now empty_database), s_feed = [],
      s_maps = empty_maps\<lparr>CONFIG := Some firewall_config_default\<rparr>, s_ebpf = Some new_programm\<rparr>"

definition inside_net :: u32 where
  "inside_net = from_be_bytes32 [192, 168, 10, 0]"

text \<open>The key of the connection of a protocol, from the other host to the host in the subnet.\<close>

definition policy_key :: "u8 \<Rightarrow> u16 \<Rightarrow> u16 \<Rightarrow> ipv4_packet" where
  "policy_key protocol source_port destination_port =
     ipv4_packet_new (from_be_bytes32 [10, 0, 0, 10]) (from_be_bytes32 [192, 168, 10, 10])
       destination_port source_port protocol"

definition policy_patch :: "u32 \<Rightarrow> u32 \<Rightarrow> u64 \<Rightarrow> u64 \<Rightarrow> u64 \<Rightarrow> json_patch" where
  "policy_patch inside outside udp_tokens tcp_tokens icmp_tokens = no_fields
     \<lparr>j_incoming_ethernet_adapter := Some (Some inside), j_output_ethernet_adapter := Some (Some outside),
      j_protocol_allowed := Some (Some IPV4), j_subnet_activated := Some (Some True),
      j_ddos_activated := Some (Some True),
      j_udp_profile := Some (Some \<lparr>rate_shift = 63, burst = udp_tokens\<rparr>),
      j_tcp_profile := Some (Some \<lparr>rate_shift = 63, burst = tcp_tokens\<rparr>),
      j_icmp_profile := Some (Some \<lparr>rate_shift = 63, burst = icmp_tokens\<rparr>)\<rparr>"

definition allow_flow :: "u8 \<Rightarrow> u16 \<Rightarrow> u16 \<Rightarrow> test_step" where
  "allow_flow protocol source_port destination_port =
     Call HttpPost ''/allow_list/v4''
       (Change (ModifyAllowListV4 (policy_key protocol source_port destination_port)
          \<lparr>als_action = Allow, last_seen = 0\<rparr>)) is_ok"

definition test_axum_backend_with_real_ebpf_and_two_interfaces ::
    "frame_builder \<Rightarrow> u32 \<Rightarrow> u32 \<Rightarrow> test_step list" where
  "test_axum_backend_with_real_ebpf_and_two_interfaces B inside outside =
     [Call HttpPost ''/'' (UpdateConfig (policy_patch inside outside 1 4 4)) is_ok] @
     concat (map (\<lambda>(network, protocol, source_port, destination_port).
       [Call HttpPost ''/subnet/v4'' (Change (ModifySubnetV4 network 24 Allow)) is_ok,
        allow_flow protocol source_port destination_port])
       [(inside_net, 1, 0, 0), (inside_net, 6, 12345, 80), (inside_net, 17, 12345, 80)]) @
     [Call HttpGet ''/'' (Query GetConfig) (json_with (\<lambda>config.
        incoming_ethernet_adapter config = Some inside \<and> output_ethernet_adapter config = Some outside)),
      Frame (build_ipv4_icmp B) inside XDP_REDIRECT,
      Frame (Some (build_ipv4_tcp B)) inside XDP_REDIRECT,
      Frame (Some (build_ipv4_udp B)) inside XDP_REDIRECT,
      Frame (Some (build_ipv4_udp B)) inside XDP_DROP,
      Frame (build_ipv4_unsupported B) inside XDP_DROP]"

text \<open>The stress test in its three parts: configuration, policy, transitions of the rate limit.\<close>

definition set_inside_subnet :: test_step where
  "set_inside_subnet = Call HttpPost ''/subnet/v4'' (Change (ModifySubnetV4 inside_net 24 Allow)) is_ok"

definition stress_configuration :: "u32 \<Rightarrow> u32 \<Rightarrow> test_step list" where
  "stress_configuration inside outside =
     [Call HttpPost ''/'' (UpdateConfig (policy_patch inside outside 2 2 2)) is_ok,
      Call HttpPost ''/subnet/v4'' (Change (ModifySubnetV4 inside_net 33 Allow))
        (\<lambda>r. fst r = S_BAD_REQUEST)] @
     replicate 8 set_inside_subnet @
     concat (map (\<lambda>protocol. replicate 4 (allow_flow protocol
         (if protocol = 1 then 0 else 12345) (if protocol = 1 then 0 else 80))) [1, 6, 17]) @
     [Call HttpGet ''/allow_list/v4'' (Query GetAllowListV4) (\<lambda>r. is_ok r \<and>
        (case snd r of Allow4Json entries \<Rightarrow> length entries = 3 | _ \<Rightarrow> False))]"

definition stress_policy :: "frame_builder \<Rightarrow> u32 \<Rightarrow> test_step list" where
  "stress_policy B inside =
     [Frame (build_ipv4_icmp B) inside XDP_REDIRECT,
      Frame (Some (build_ipv4_tcp B)) inside XDP_REDIRECT,
      Frame (Some (build_ipv4_udp B)) inside XDP_REDIRECT,
      Call HttpDelete ''/allow_list/v4'' (Change (ClearAllowListV4 None)) is_ok,
      Frame (Some (build_ipv4_tcp B)) inside XDP_DROP,
      allow_flow 6 12345 80,
      Call HttpDelete ''/subnet/v4'' (Change (RemoveSubnetV4 inside_net 24)) is_ok,
      Frame (Some (build_ipv4_tcp B)) inside XDP_DROP,
      set_inside_subnet]"

definition ddos_patch :: "bool \<Rightarrow> rate_profile option \<Rightarrow> json_patch" where
  "ddos_patch active tcp = no_fields\<lparr>j_ddos_activated := Some (Some active),
     j_tcp_profile := map_option Some tcp\<rparr>"

definition stress_rate :: "frame_builder \<Rightarrow> u32 \<Rightarrow> test_step list" where
  "stress_rate B inside =
     [Call HttpPost ''/'' (UpdateConfig (ddos_patch False None)) is_ok] @
     replicate 6 (Frame (Some (build_ipv4_tcp B)) inside XDP_REDIRECT) @
     [Call HttpPost ''/'' (UpdateConfig (ddos_patch True (Some \<lparr>rate_shift = 63, burst = 1\<rparr>))) is_ok,
      Call HttpDelete ''/packet_counts/v4'' (Change (ClearPacketCountsV4 None)) is_ok,
      Frame (Some (build_ipv4_tcp B)) inside XDP_REDIRECT,
      Frame (Some (build_ipv4_tcp B)) inside XDP_DROP]"

definition test_axum_backend_real_ebpf_stress_configuration_and_policy_transitions ::
    "frame_builder \<Rightarrow> u32 \<Rightarrow> u32 \<Rightarrow> test_step list" where
  "test_axum_backend_real_ebpf_stress_configuration_and_policy_transitions B inside outside =
     stress_configuration inside outside @ stress_policy B inside @ stress_rate B inside"

section \<open>Frames in a script\<close>

lemma script_frame:
  assumes "reads_as packet flow proto" and "CONFIG m = Some c"
    and "flags_contains (protocol_allowed c) IPV4" and "incoming_ethernet_adapter c = Some i"
  shows "script data clock n (Frame (Some packet) i expected # t) (core_state m e) \<longleftrightarrow>
    (case filter_v4 ref_kern c (fst (clock n)) (snd (clock n)) Incoming (flow, [192, 168, 10, 10], proto, False) m of
       (r, m') \<Rightarrow> (case r of Inr v \<Rightarrow> v | Inl _ \<Rightarrow> XDP_DROP) = expected \<and>
         script data clock (Suc n) t (core_state m' e))"
proof -
  let ?ctx = "\<lparr>ctx_data = data, ctx_packet = packet, ctx_ingress_ifindex = i\<rparr>"
  have c: "current_config m = c" using assms(2) by (simp add: current_config_def)
  then have "arm_v4 wire_net ?ctx m" and "packet_direction ?ctx m = Incoming"
    and "parse_v4 wire_net ?ctx Incoming = Inr (flow, [192, 168, 10, 10], proto, False)"
    using assms(1,3,4) by (simp_all add: reads_as_def arm_v4_def packet_direction_def traffic_direction_def Let_def)
  with oxidrop_v4 [of wire_net ?ctx m "(flow, [192, 168, 10, 10], proto, False)" ref_kern
      "fst (clock n)" "snd (clock n)"] show ?thesis
    by (auto simp: test_run_packet_def c split: prod.split sum.split)
qed

declare core_passes.simps(3) [simp del]

text \<open>A rate of one token in 2 ^ 63 ns: no token comes back before the clock has run that long.\<close>

lemma slow_bucket:
  assumes "now < 2 ^ 63" and "rate_shift p = 63"
  shows "evaluate_bucket b p now =
    (if 0 < tokens b then (Inr XDP_PASS, b\<lparr>tokens := tokens b - 1\<rparr>) else (Inl RateLimited, b))"
proof -
  have "unat (saturating_sub now (last_update b)) < 2 ^ 63"
    using assms(1) by (simp add: word_less_nat_alt)
  then have "unat (drop_bit 63 (saturating_sub now (last_update b))) = 0"
    by (simp only: unat_drop_bit) simp
  then have "drop_bit 63 (saturating_sub now (last_update b)) = 0" by (simp only: unat_eq_zero)
  moreover have "unat ((63 :: u64) AND 63) = 63" by simp
  ultimately show ?thesis by (simp only: evaluate_bucket_def Let_def assms(2)) simp
qed

text \<open>What a frame of the tests meets: no rule or no entry, an entry, an entry and a bucket.\<close>

definition test_policy :: "firewall_config \<Rightarrow> u32 \<Rightarrow> bool" where
  "test_policy c inside \<longleftrightarrow> flags_contains (protocol_allowed c) IPV4 \<and> subnet_activated c \<and>
     incoming_ethernet_adapter c = Some inside \<and> output_ethernet_adapter c \<noteq> None"

lemma frame_denied:
  assumes "reads_as packet flow proto" and "CONFIG m = Some c" and "test_policy c i"
    and "lpm_ref_get (SUBNET_MATCHING_V4 m) (32, [192, 168, 10, 10]) \<noteq> Some Allow \<or>
      map_of (ALLOW_LIST_V4 m) flow = None"
  shows "script data clock n (Frame (Some packet) i expected # t) (core_state m e) \<longleftrightarrow>
    expected = XDP_DROP \<and> script data clock (Suc n) t (core_state m e)"
  using assms(3,4) by (subst script_frame [OF assms(1,2)])
    (auto simp: test_policy_def filter_v4_def subnet_denies_v4_def track_v4_def split: option.split)

lemma frame_redirected:
  assumes "reads_as packet flow proto" and "CONFIG m = Some c" and "test_policy c i" and "\<not> ddos_activated c"
    and "lpm_ref_get (SUBNET_MATCHING_V4 m) (32, [192, 168, 10, 10]) = Some Allow"
    and "map_option als_action (map_of (ALLOW_LIST_V4 m) flow) = Some Allow"
  shows "script data clock n (Frame (Some packet) i expected # t) (core_state m e) \<longleftrightarrow>
    expected = XDP_REDIRECT \<and> script data clock (Suc n) t (core_state (m\<lparr>ALLOW_LIST_V4 :=
      kmap_write flow (\<lambda>s. s\<lparr>last_seen := fst (clock n)\<rparr>) (ALLOW_LIST_V4 m)\<rparr>) e)"
  using assms(3-) by (subst script_frame [OF assms(1,2)])
    (auto simp: test_policy_def filter_v4_def subnet_denies_v4_def track_v4_def Let_def
      ddos_and_bucket_ending_v4_def redirect_or_pass_def redirect_target_def)

lemma frame_limited:
  assumes "reads_as packet flow proto" and "CONFIG m = Some c" and "test_policy c i" and "ddos_activated c"
    and "lpm_ref_get (SUBNET_MATCHING_V4 m) (32, [192, 168, 10, 10]) = Some Allow"
    and "map_option als_action (map_of (ALLOW_LIST_V4 m) flow) = Some Allow"
    and "rate_shift (active_profile c proto) = 63" and "snd (clock n) < 2 ^ 63"
  shows "script data clock n (Frame (Some packet) i expected # t) (core_state m e) \<longleftrightarrow>
    (let b = flow_bucket (PACKET_COUNTS_V4 m) flow (active_profile c proto) (snd (clock n)) in
     expected = (if 0 < tokens b then XDP_REDIRECT else XDP_DROP) \<and>
     script data clock (Suc n) t (core_state (m\<lparr>ALLOW_LIST_V4 :=
        kmap_write flow (\<lambda>s. s\<lparr>last_seen := fst (clock n)\<rparr>) (ALLOW_LIST_V4 m),
      PACKET_COUNTS_V4 := (flow, if 0 < tokens b then b\<lparr>tokens := tokens b - 1\<rparr> else b) #
        take (LRU_MAX_ENTRIES - 1) (del_key flow (PACKET_COUNTS_V4 m))\<rparr>) e))"
  using assms(3-) by (subst script_frame [OF assms(1,2)])
    (auto simp: test_policy_def filter_v4_def subnet_denies_v4_def track_v4_def Let_def slow_bucket put_or_keep_def
      lru_put_def ddos_and_bucket_ending_v4_def redirect_or_pass_def redirect_target_def)

section \<open>Updates in a script\<close>

definition policy_config :: "u32 \<Rightarrow> u32 \<Rightarrow> bool \<Rightarrow> u64 \<Rightarrow> u64 \<Rightarrow> u64 \<Rightarrow> firewall_config" where
  "policy_config inside outside ddos udp_tokens tcp_tokens icmp_tokens =
     \<lparr>tcp_profile = \<lparr>rate_shift = 63, burst = tcp_tokens\<rparr>, udp_profile = \<lparr>rate_shift = 63, burst = udp_tokens\<rparr>,
      icmp_profile = \<lparr>rate_shift = 63, burst = icmp_tokens\<rparr>, default_profile = \<lparr>rate_shift = 23, burst = 100\<rparr>,
      protocol_allowed = IPV4, ddos_activated = ddos, subnet_activated = True,
      incoming_ethernet_adapter = Some inside, output_ethernet_adapter = Some outside\<rparr>"

lemma policy_config_sel [simp]:
  "ddos_activated (policy_config i o' d u t ic) = d"
  "incoming_ethernet_adapter (policy_config i o' d u t ic) = Some i"
  "output_ethernet_adapter (policy_config i o' d u t ic) = Some o'"
  "active_profile (policy_config i o' d u t ic) IpTcp = \<lparr>rate_shift = 63, burst = t\<rparr>"
  "active_profile (policy_config i o' d u t ic) IpUdp = \<lparr>rate_shift = 63, burst = u\<rparr>"
  "active_profile (policy_config i o' d u t ic) IpIcmp = \<lparr>rate_shift = 63, burst = ic\<rparr>"
  by (simp_all add: policy_config_def active_profile_def)

lemma ipv4_mask: "activater_from_bits IPV4 = Some IPV4" "flags_contains IPV4 IPV4"
  by code_simp+

lemma policy_config_policy [simp]: "test_policy (policy_config i o' d u t ic) i"
  by (simp add: test_policy_def policy_config_def ipv4_mask)

lemma policy_patch_parts:
  "config_patch_of_json (policy_patch i o' u t ic) =
     Inr \<lparr>p_tcp_profile = Some \<lparr>rate_shift = 63, burst = t\<rparr>, p_udp_profile = Some \<lparr>rate_shift = 63, burst = u\<rparr>,
       p_icmp_profile = Some \<lparr>rate_shift = 63, burst = ic\<rparr>, p_default_profile = None,
       p_protocol_allowed = Some IPV4, p_ddos_activated = Some True, p_subnet_activated = Some True,
       p_incoming_ethernet_adapter = Some (Some i), p_output_ethernet_adapter = Some (Some o')\<rparr>"
  by (simp add: config_patch_of_json_def policy_patch_def no_fields_def named_field_def
      deserialize_optional_optional_def deserialize_protocol_patch_def ok_or_def ipv4_mask)

text \<open>The program attached to both interfaces.\<close>

definition attached_programm :: "u32 \<Rightarrow> u32 \<Rightarrow> ebpf_programm" where
  "attached_programm inside outside =
     \<lparr>programm_loaded = [0, 1], outcoming_adapter = Some outside, incoming_adapter = Some inside\<rparr>"

lemma script_policy_patch:
  assumes "uint u < 2 ^ 63" "uint tc < 2 ^ 63" "uint ic < 2 ^ 63"
    and "CONFIG m = Some firewall_config_default"
  shows "script data clock n (Call HttpPost ''/'' (UpdateConfig (policy_patch i o' u tc ic)) is_ok # t)
      (core_state m (Some new_programm)) \<longleftrightarrow>
    script data clock (Suc n) t
      (core_state (m\<lparr>CONFIG := Some (policy_config i o' True u tc ic)\<rparr>) (Some (attached_programm i o')))"
  using assms
  by (subst script_update [OF policy_patch_parts, where c = firewall_config_default and
        e' = "Some (attached_programm i o')" and pr = "attached_programm i o'"])
    (simp_all add: patch_validate_def patch_apply_def MAX_RATE_SHIFT_def List.map_filter_simps
      storable_def profiles_def firewall_config_default_def policy_config_def attached_programm_def
      adapters_named_def reboot_def shut_down_working_ebpf_def attach_adapter_def new_programm_def)

lemma ddos_patch_parts:
  "config_patch_of_json (ddos_patch active tcp) =
     Inr \<lparr>p_tcp_profile = tcp, p_udp_profile = None, p_icmp_profile = None, p_default_profile = None,
       p_protocol_allowed = None, p_ddos_activated = Some active, p_subnet_activated = None,
       p_incoming_ethernet_adapter = None, p_output_ethernet_adapter = None\<rparr>"
  by (cases tcp) (simp_all add: config_patch_of_json_def ddos_patch_def no_fields_def named_field_def)

lemma storable_policy: "uint u < 2 ^ 63 \<Longrightarrow> uint tc < 2 ^ 63 \<Longrightarrow> uint ic < 2 ^ 63 \<Longrightarrow>
    storable (policy_config i o' d u tc ic)"
  by (simp add: storable_def profiles_def policy_config_def)

lemma script_ddos_patch:
  "CONFIG m = Some (policy_config i o' d u tc ic) \<Longrightarrow> storable (policy_config i o' active u tc ic) \<Longrightarrow>
   script data clock n (Call HttpPost ''/'' (UpdateConfig (ddos_patch active None)) is_ok # t) (core_state m e) \<longleftrightarrow>
     script data clock (Suc n) t (core_state (m\<lparr>CONFIG := Some (policy_config i o' active u tc ic)\<rparr>) e)"
  "CONFIG m = Some (policy_config i o' d u tc ic) \<Longrightarrow> storable (policy_config i o' active u tc' ic) \<Longrightarrow>
   script data clock n (Call HttpPost ''/'' (UpdateConfig (ddos_patch active
      (Some \<lparr>rate_shift = 63, burst = tc'\<rparr>))) is_ok # t) (core_state m e) \<longleftrightarrow>
     script data clock (Suc n) t (core_state (m\<lparr>CONFIG := Some (policy_config i o' active u tc' ic)\<rparr>) e)"
  by (subst script_update [OF ddos_patch_parts, where c = "policy_config i o' d u tc ic" and e' = e];
      simp add: patch_validate_def patch_apply_def MAX_RATE_SHIFT_def List.map_filter_simps
        policy_config_def adapters_named_def)+

section \<open>The tests hold\<close>

lemma policy_key_flow [simp]: "policy_key protocol sport dport = test_flow sport dport protocol"
  by (simp add: policy_key_def test_flow_def from_be_bytes32_def)

lemma test_flow_eq [simp]: "test_flow a b c = test_flow a' b' c' \<longleftrightarrow> a = a' \<and> b = b' \<and> c = c'"
  by (auto simp: test_flow_def)

lemma inside_rule: "lpm_ref_get [(key_prefix (24, to_be_bytes32 inside_net), Allow)] (32, [192, 168, 10, 10]) = Some Allow"
  by code_simp

definition loaded_core :: server where
  "loaded_core = core_state (empty_maps\<lparr>CONFIG := Some firewall_config_default\<rparr>) (Some new_programm)"

lemmas script_evaluation = script_subnet lpm_ref_single(4) inside_rule empty_maps_def del_key_def kmap_write_def
  flow_bucket_def fresh_bucket_def LRU_MAX_ENTRIES_def map_entries_def

lemma two_interfaces_test:
  assumes "wire_builder B" and "\<And>k. snd (clock k) < 2 ^ 63"
  shows "script data clock n (test_axum_backend_with_real_ebpf_and_two_interfaces B i o') loaded_core"
proof -
  obtain icmp other where b: "build_ipv4_icmp B = Some icmp" "build_ipv4_unsupported B = Some other"
    and r: "reads_as icmp (test_flow 0 0 1) IpIcmp" "reads_as other (test_flow 0 0 47) (IpOther 47)"
    using wire_builder.icmp_reads [OF assms(1)] wire_builder.unsupported_reads [OF assms(1)] by blast
  note reads = r wire_builder.tcp_reads [OF assms(1)] wire_builder.udp_reads [OF assms(1)]
  show ?thesis
    by (simp add: test_axum_backend_with_real_ebpf_and_two_interfaces_def loaded_core_def allow_flow_def
      b script_policy_patch script_evaluation frame_limited [OF reads(1)] frame_limited [OF reads(3)]
      frame_limited [OF reads(4)] frame_denied [OF reads(2)] assms(2) [simplified])
qed

lemma repeats:
  "replicate 4 x = [x, x, x, x]" "replicate 6 x = [x, x, x, x, x, x]" "replicate 8 x = [x, x, x, x, x, x, x, x]"
  by (simp_all add: numeral_eq_Suc)

lemma stress_test:
  assumes "wire_builder B" and "\<And>k. snd (clock k) < 2 ^ 63"
  shows "script data clock n
    (test_axum_backend_real_ebpf_stress_configuration_and_policy_transitions B i o') loaded_core"
proof -
  obtain icmp where b: "build_ipv4_icmp B = Some icmp" and r: "reads_as icmp (test_flow 0 0 1) IpIcmp"
    using wire_builder.icmp_reads [OF assms(1)] by blast
  note reads = r wire_builder.tcp_reads [OF assms(1)] wire_builder.udp_reads [OF assms(1)]
  show ?thesis
    by (simp add: test_axum_backend_real_ebpf_stress_configuration_and_policy_transitions_def
      stress_configuration_def stress_policy_def stress_rate_def set_inside_subnet_def loaded_core_def
      allow_flow_def repeats b script_policy_patch script_evaluation frame_limited [OF reads(1)]
      frame_limited [OF reads(2)] frame_limited [OF reads(3)] frame_denied [OF reads(2)]
      frame_redirected [OF reads(2)] assms(2) [simplified] clear_entries_def del_keys_def script_ddos_patch storable_policy)
qed

lemma bootstrap_names:
  "u_username ` set (users (snd (bootstrap_default_admin S no_faults salt now empty_database))) \<subseteq> {DEFAULT_ADMIN_USERNAME}"
  by (auto simp: bootstrap_snd internal_insert_user_def insert_user_row_def Let_def empty_database_def
      split: sum.splits prod.splits sql_error.splits if_splits)

text \<open>
  C21: The integration tests hold of the model for any two interfaces, any frames in the wire formats
  and any clock below 2 ^ 63 ns: the configured flows are redirected, a burst ends at its tokens, and
  frames without a rule, an entry or a supported protocol are dropped, in every phase of the policy
  changes that the endpoints make.
\<close>

theorem packet_tests_pass:
  assumes "axum_router A serves" and "wire_builder B"
    and "inj names" and "\<And>k. names k \<noteq> DEFAULT_ADMIN_USERNAME" and "\<And>k. snd (clock k) < 2 ^ 63"
  shows "list_all (\<lambda>test. passes ref_env (serves (config_router A)) wire_net data names clock 0 test
      (ebpf_test_state S salt now))
    [test_axum_backend_with_real_ebpf_and_two_interfaces B inside outside,
     test_axum_backend_real_ebpf_stress_configuration_and_policy_transitions B inside outside]"
proof -
  have core: "core (ebpf_test_state S salt now) = loaded_core"
    by (simp add: core_is_state ebpf_test_state_def loaded_core_def)
  have fresh: "names k \<notin> u_username ` set (users (s_db (ebpf_test_state S salt now)))" for k
    using assms(4) bootstrap_names [of S salt now] by (auto simp: ebpf_test_state_def)
  have "passes ref_env (serves (config_router A)) wire_net data names clock 0 test (ebpf_test_state S salt now)"
    if "script data clock 0 test loaded_core" for test
    unfolding axum_router.serves_config [OF assms(1)]
    by (intro passes_core) (use that assms(3) fresh ref_env_ok core in \<open>simp_all add: env_ok_def\<close>)
  then show ?thesis
    using two_interfaces_test [OF assms(2), of clock] stress_test [OF assms(2), of clock] assms(5)
    by (simp only: list.pred_inject)
qed

theorem packet_tests_pass_witness:
  "passes ref_env (map_of (config_router ref_axum)) wire_net 4096 (\<lambda>n. replicate n CHR ''t'') (\<lambda>n. (7, 8)) 0
     (test_axum_backend_real_ebpf_stress_configuration_and_policy_transitions zero_builder 3 4)
     (ebpf_test_state ref_services ''salt'' 0)"
proof -
  have "inj (\<lambda>n. replicate n CHR ''t'')" by (rule injI) (metis length_replicate)
  moreover have "replicate k CHR ''t'' \<noteq> DEFAULT_ADMIN_USERNAME" for k
    by (cases k) (simp_all add: DEFAULT_ADMIN_USERNAME_def)
  ultimately show ?thesis
    using packet_tests_pass [OF ref_router.axum_router_axioms zero_frames.wire_builder_axioms,
        of "\<lambda>n. replicate n CHR ''t''" "\<lambda>n. (7, 8)"] by simp
qed

end
