(* ===== verification/Spec2Isabelle.thy ===== *)
theory Spec2Isabelle
  imports System Flow_Sessions Flow_Rate Db_Users_Props
    Boot Sessions Routes Handler_Frame Cleanup_Endless Bucket_Race Bootstrap_Race
    Config_Locks Db_Tests Server_Tests Packet_Tests
begin

text \<open>
  Oxidrop is a firewall between two network interfaces. An eBPF program (crate oxidrop-ebpf) decides
  on every frame at the XDP hook, from tables that it shares with a backend (crate oxidrop): a
  configuration, the connections of each IP version, a token bucket for each flow, and a trie of
  subnet rules for each version. The backend serves an HTTP interface for administrators, keeps
  accounts, rules, configuration and log in SQLite, attaches the program to the two interfaces, and
  forgets idle connections. This development models the three crates from their source and proves
  what the firewall promises.

  \<^bold>\<open>The program and its model.\<close> Each theory follows one part of the source, in the order of the code.

  The shared crate. \<open>Common\<close> is oxidrop-common/src/lib.rs: flag sets as words, the configuration and
  the map keys as records, defaults and conversions.

  The eBPF program, oxidrop-ebpf/src/main.rs. \<open>Kernel_Maps\<close> holds the seven maps and the contracts
  of the kernel's operations on them (the locales \<open>lru_map\<close> and \<open>lpm_trie\<close>, interpreted by
  executable reference maps). \<open>Packet\<close> is the bounds-checked access to the frame (\<open>ptr_at\<close>), where
  a read outside the frame is an outcome of its own. \<open>Token_Bucket\<close> is \<open>evaluate_bucket\<close> on 64-bit
  words, and the contract \<open>rate_limiter\<close>. \<open>Datapath\<close> is \<open>xdp_firewall\<close>, from the Ethernet header to
  the verdict, split at the steps of its two arms.

  The backend's storage, oxidrop/src/db.rs and the log of oxidrop/src/state.rs. \<open>Sql\<close> and \<open>Database\<close>
  are the tables with the constraints of oxidrop/migrations; \<open>Db_Subnet\<close>, \<open>Db_Config\<close>, \<open>Db_Users\<close>
  and \<open>Log_Store\<close> the operations. \<open>Db_Subnet\<close> states the subnet tables as a map (\<open>row_codec\<close>,
  \<open>subnet_store\<close>), \<open>Db_Users\<close> the operations on accounts as guarded ones (\<open>guarded_op\<close>).

  The backend's handlers. \<open>Server\<close> is \<open>FirewallState\<close>, the outside of one request (\<open>env\<close>) and the
  contract of a handler that needs a permission (\<open>guarded_handler\<close>). \<open>Auth\<close> is oxidrop/src/auth.rs,
  \<open>Api\<close> oxidrop/src/api.rs, \<open>Ebpf_Program\<close> the handle of oxidrop/src/ebpf.rs;
  \<open>Config_Handlers\<close>, \<open>Map_Handlers\<close>, \<open>Subnet_Handlers\<close> and \<open>Status_Handlers\<close> are the handlers of
  oxidrop/src/state.rs (and the list of adapters of oxidrop/src/ebpf.rs). \<open>Lifecycle\<close> is the start
  and the periodic tasks of oxidrop/src/main.rs, \<open>Router\<close> the routes and layers of
  oxidrop/src/router.rs and the frontend's files behind them. \<open>Routes\<close> has the tables of routes themselves,
  built as the source builds them, with the documented interface; \<open>Sessions\<close> is a request with what the
  session library keeps of a login; \<open>Boot\<close> is the start from the object file on. Every handler that
  changes the firewall interprets \<open>guarded_handler\<close>, and so does the routed request as a whole.

  \<open>System\<close> puts the parts together: packets, requests and timers as a step relation on the state of the
  server, the states reachable from a start, and the runs in which nobody opens a connection. Five
  theories look below those steps: \<open>Cleanup_Task\<close> (with \<open>Cleanup_Endless\<close>) has the cleanup in its single map operations among
  packets and requests, \<open>Handler_Frame\<close> what a request can see of the packets beside it, \<open>Bucket_Race\<close>
  the two accesses of a packet to its bucket on several processors, \<open>Bootstrap_Race\<close> the creation of accounts
  by tasks whose SQL statements interleave, \<open>Config_Locks\<close> the requests that read and change the configuration
  and the attached program, statement by statement under the lock of the map and the lock of the handle.

  The repository's own tests are part of the development. \<open>Db_Tests\<close> has those of oxidrop/src/db.rs, each the
  predicate that its assertions make. \<open>Test_Harness\<close> is \<open>create_test_state\<close>, \<open>make_request\<close> and
  \<open>test_run_packet\<close>: a test of oxidrop/src/state.rs is a script of requests, frames and looks at the maps
  (\<open>passes\<close>), where a request is that of a new account, resumed by the session library and sent through the
  table of routes. \<open>Server_Tests\<close> has the scripts of the endpoints, \<open>Test_Frames\<close> the frames of the two
  integration tests (\<open>build_ipv4_udp\<close> and its variants, over the contract \<open>wire_builder\<close> of the serialiser), and
  \<open>Packet_Tests\<close> the scripts of these tests.

  \<^bold>\<open>How the parts interact.\<close> The maps are the only state that both sides share: \<open>oxidrop\<close> takes them and
  returns them changed, the handlers reach them as \<open>s_maps\<close> of the server. A subnet rule lives in the
  trie and in the database; the configuration in the CONFIG array, in the database, and in the
  attachment of the program. The session library hands a handler the user of the request, re-read
  from the database by \<open>get_user\<close>.
\<close>

text \<open>
  \<^bold>\<open>What is shown.\<close> For the packet program (\<open>Datapath_Facts\<close>, \<open>Flow_Policy\<close>, \<open>Flow_State\<close>,
  \<open>Flow_Sessions\<close>, \<open>Flow_Rate\<close>): no packet makes it read outside the frame; its verdict on an IPv4 or
  IPv6 packet is exactly a specification that knows no order of checks; which packets change which
  entries, and that every packet keeps the invariant of the maps; replies get in; one flow never
  exceeds its burst plus one packet a period, over any sequence of packets, with another burst for each FIN or
  RST among them, which forgets the bucket; the bounded walk over
  extension headers finds a transport header exactly when few enough headers precede it. \<open>Sample_Packets\<close>
  has the concrete frames on which these are applied.

  For the storage: saved rules and configurations read back, whatever is loaded is valid, accounts
  stay well-formed, which passwords are accepted, the bootstrap and the life of a password, pruning.

  For the handlers: a change of the configuration that is answered with 200 is live, stored and
  attached, and every failure is accounted for; the entry or rule an administrator sets decides the
  next packet, through the program; trie and stored rules stay in step while no two rules share their
  prefix bits; logins, deactivation, and the password change that comes first; a session ends with the
  account's activity or password; each request reaches its handler through the layers that the tables of
  routes put around it; the start takes its steps in order and rebuilds what was stored.

  For the whole: every reachable state is well-formed, no request changes the firewall without the
  permission, and while the inside is silent and nobody authorised intervenes no connection opens. A
  round of the cleanup, among packets and requests, removes only what it saw idle on its own clock, and alone
  is the atomic tick; its walk asks the kernel for one key after another while the table changes, and it ends
  unless keys come ahead of it without end, as \<open>Cleanup_Endless\<close> shows they can; a request that does not use the flow tables gives the same answer
  and the same effects whatever packets run before it; bootstraps at the same time end in one
  administrator; requests on the configuration at the same time are answered as if one ran after the other,
  each of their two locks held by one at most, and they never deadlock.

  For the tests: each of them holds, of every password library and every schedule of its tasks (the
  database), through every router with axum's contract and whatever the names of the test accounts (the
  endpoints), and for any two interfaces, any frames in the wire formats and any clock below 2 ^ 63 ns
  (the loaded program). They tie the model to what the repository expects of itself, and exercise
  accounts, sessions, routes, handlers, maps and packets in one run. The lemma \<open>passes_core\<close> makes them
  computable: the handlers of the firewall answer from the maps and the attached program alone.

  Some properties state behaviour that its users may not expect, and hold of the code as it is: a FIN
  or RST is forwarded without a connection and deletes its entry, a denial included; a denial expires;
  the IPv6 flag of the configuration has no effect; removing a rule can leave another stored and not
  enforced; a rule whose saving fails is dropped from the trie although it was in force; a patch can be
  live without being storable; a restart after a shutdown attaches nothing; the cleanup can be kept walking
  by connections that are opened and closed under its cursor, with the lock of the table held, and can remove a
  connection that was used after it was looked at; packets on several processors can spend one token
  together; the time of a login tells which accounts are deactivated.

  \<^bold>\<open>Bounds.\<close> Integers of the code are words of their width, and shifts, wrap-around and saturation are
  those of the release profile. The walk over extension headers has the six iterations of the code's
  own loop; the reference maps have the capacities of the source (1000000 entries, 2048 rules); the log
  keeps 100000 entries and answers with 500; a connection is idle after ten minutes. No definition
  needs fuel: every recursion is over data or over the code's own bound, and the loop of the cleanup task
  is a step relation, whose own steps go down in a well-founded order within a round.

  \<^bold>\<open>Arguments of the model.\<close> What is decided outside the source is an argument of the definitions that
  use it: the header layouts of network_types (\<open>net\<close>), the kernel's map operations and redirect
  (\<open>kern\<close>), argon2 and rowids (\<open>services\<close>), which SQL statements fail (\<open>sql_faults\<close>), clocks, the files
  under /sys, the success of attaching, the embedded assets of the frontend, and the answers of the
  session library (\<open>env\<close>); how that library resumes a session (\<open>session_library\<close>), how aya hands out the
  maps of an object (\<open>ebpf_object\<close>), the builder of axum (\<open>axum_router\<close>), and the bytes that etherparse
  writes (\<open>wire_builder\<close>). What a theorem assumes of them is \<open>kern_ok\<close>, \<open>services_ok\<close>, \<open>env_ok\<close> and those
  locales; \<open>wire_net\<close>, \<open>ref_kern\<close>, \<open>ref_services\<close>, \<open>ref_env\<close>, \<open>ref_resume\<close>, \<open>ref_take\<close>, \<open>ref_axum\<close> and
  \<open>zero_builder\<close> are executable instances. The scripts of the tests run on \<open>ref_env\<close>.

  \<^bold>\<open>Atomicity.\<close> In \<open>System\<close> a handler is one step over the maps it locks, and a packet is one step. For
  the handlers of the configuration \<open>concurrent_requests_serialise\<close> proves that they may be taken so among
  themselves; there a lock is given to any request that asks while it is free, in no particular order, and
  the readers of the configuration take and leave its lock in one statement, as the source does. SQL
  statements of one operation run without another between them, but for the bootstrap, whose statements are
  steps of their own in \<open>Bootstrap_Race\<close>. Packets take no locks: that a handler
  which does not use the flow tables may still be taken as one step is \<open>requests_ignore_packets\<close>, and the
  cleanup has its own steps in \<open>Cleanup_Task\<close>. A handler on the flow tables reads or writes one entry, or
  walks over a table as the cleanup does.

  \<^bold>\<open>Not modelled.\<close> The matching of paths with parameters (there are none), HEAD and OPTIONS, cookies, the
  headers of CORS and the decoding of JSON text are axum's and tower's: the model begins where a decoded
  request reaches its handler. Nor are TLS, the command line, the timeouts and limits, the choice of
  Redis as the session store and tracing of oxidrop/src/main.rs, which configure libraries; the task
  that drains the log ring in oxidrop/src/ebpf.rs, which changes no state of the program; opening the
  database and running its migrations, an argument of \<open>boot\<close>; the schemas of the documented interface;
  build scripts and the TypeScript frontend. Of the test modules there is left what works outside the
  program: the dummy interfaces that a test makes with the ip command, the request whose body is no JSON, the
  two tests that ask the kernel for interface names, and the export of the documented interface; the test
  programs under oxidrop/tests drive the built server and network namespaces. What is left of the Rust
  code is imports and these annotations.
\<close>

end
